(* ===== verification/Prelude.thy ===== *)
theory Prelude
  imports Main "HOL-Library.Word" "HOL-Library.Code_Target_Nat"
begin

text \<open>
  Shared vocabulary of the development: the machine integer types of the Rust sources, the
  \<open>Result\<close> plumbing (the question-mark operator, \<open>map_err\<close>, \<open>ok_or\<close>), little-endian byte
  conversions, the byte view of strings and the ASCII classifiers of the standard library,
  with the rewrite rules that carry the component proofs.
\<close>

section \<open>Machine integers and results\<close>

type_synonym u8 = "8 word"
type_synonym u16 = "16 word"
type_synonym u32 = "32 word"
type_synonym u64 = "64 word"

text \<open>An \<open>i64\<close> is a 64-bit word read with \<open>sint\<close>; \<open>usize\<close> is 64 bits wide on the target and is
  a \<open>nat\<close> with its overflow checks written out.\<close>

type_synonym i64 = "64 word"

definition usize_limit :: nat where
  "usize_limit = 2 ^ 64"

text \<open>\<open>Result<T, E>\<close> is \<open>'e + 'a\<close>; \<open>and_then\<close> is the question-mark operator in sequence.\<close>

primrec and_then :: "'e + 'a \<Rightarrow> ('a \<Rightarrow> 'e + 'b) \<Rightarrow> 'e + 'b" where
  "and_then (Inl e) f = Inl e"
| "and_then (Inr x) f = f x"

primrec map_err :: "('e \<Rightarrow> 'f) \<Rightarrow> 'e + 'a \<Rightarrow> 'f + 'a" where
  "map_err g (Inl e) = Inl (g e)"
| "map_err g (Inr x) = Inr x"

primrec ok_or :: "'e \<Rightarrow> 'a option \<Rightarrow> 'e + 'a" where
  "ok_or e None = Inl e"
| "ok_or e (Some x) = Inr x"

definition reject_if :: "bool \<Rightarrow> 'e \<Rightarrow> 'e + unit" where
  "reject_if b e = (if b then Inl e else Inr ())"

primrec is_ok :: "'e + 'a \<Rightarrow> bool" where
  "is_ok (Inl e) = False"
| "is_ok (Inr x) = True"

named_theorems result_simps \<open>how a chain of fallible steps succeeds or fails\<close>

lemma and_then_eq_Inr [result_simps]:
  "and_then m f = Inr y \<longleftrightarrow> (\<exists>x. m = Inr x \<and> f x = Inr y)"
  by (cases m) auto

lemma and_then_eq_Inl [result_simps]:
  "and_then m f = Inl e \<longleftrightarrow> m = Inl e \<or> (\<exists>x. m = Inr x \<and> f x = Inl e)"
  by (cases m) auto

lemma map_err_eq_Inr [result_simps]: "map_err g m = Inr x \<longleftrightarrow> m = Inr x"
  by (cases m) auto

lemma map_err_eq_Inl [result_simps]: "map_err g m = Inl e \<longleftrightarrow> (\<exists>d. m = Inl d \<and> e = g d)"
  by (cases m) auto

lemma ok_or_eq_Inr [result_simps]: "ok_or e m = Inr x \<longleftrightarrow> m = Some x"
  by (cases m) auto

lemma ok_or_eq_Inl [result_simps]: "ok_or e m = Inl d \<longleftrightarrow> m = None \<and> d = e"
  by (cases m) auto

lemma reject_if_eq_Inr [result_simps]: "reject_if b e = Inr u \<longleftrightarrow> \<not> b"
  by (simp add: reject_if_def)

lemma reject_if_eq_Inl [result_simps]: "reject_if b e = Inl d \<longleftrightarrow> b \<and> d = e"
  by (auto simp: reject_if_def)

lemma reject_if_simps [simp]:
  "reject_if True e = Inl e" "reject_if False e = Inr ()"
  by (simp_all add: reject_if_def)

lemma and_then_assoc: "and_then (and_then m f) g = and_then m (\<lambda>x. and_then (f x) g)"
  by (cases m) auto

text \<open>Evaluation looks at the result before it enters the continuation.\<close>

lemma and_then_case [code_unfold]:
  "and_then m f = (case m of Inl e \<Rightarrow> Inl e | Inr x \<Rightarrow> f x)"
  by (cases m) simp_all

lemma option_bind_case [code_unfold]:
  "Option.bind m f = (case m of None \<Rightarrow> None | Some x \<Rightarrow> f x)"
  by (cases m) simp_all

lemma is_ok_iff: "is_ok m \<longleftrightarrow> (\<exists>x. m = Inr x)"
  by (cases m) auto

lemma is_ok_projr: "is_ok m \<Longrightarrow> m = Inr (projr m)"
  by (cases m) auto

section \<open>Operations on a mutable state that may fail\<close>

text \<open>
  A method on \<open>mut self\<close> that returns a \<open>Result\<close> is \<open>'s \<Rightarrow> ('e + 'a) \<times> 's\<close>: an early return keeps the
  mutations made before it. \<open>try_then\<close> is the question-mark operator for such methods.
\<close>

definition try_then ::
  "('s \<Rightarrow> ('e + 'a) \<times> 's) \<Rightarrow> ('a \<Rightarrow> 's \<Rightarrow> ('e + 'b) \<times> 's) \<Rightarrow> 's \<Rightarrow> ('e + 'b) \<times> 's" where
  "try_then m f s = (case m s of (Inl e, t) \<Rightarrow> (Inl e, t) | (Inr x, t) \<Rightarrow> f x t)"

declare try_then_def [code_unfold]

lemma try_then_Inl [simp]: "m s = (Inl e, t) \<Longrightarrow> try_then m f s = (Inl e, t)"
  by (simp add: try_then_def)

lemma try_then_Inr [simp]: "m s = (Inr x, t) \<Longrightarrow> try_then m f s = f x t"
  by (simp add: try_then_def)

section \<open>Little-endian integers\<close>

lemma unat_bound: "unat (w :: 'a::len word) < 2 ^ LENGTH('a)"
  by (rule unsigned_less)

primrec le_bytes :: "nat \<Rightarrow> nat \<Rightarrow> u8 list" where
  "le_bytes 0 n = []"
| "le_bytes (Suc k) n = word_of_nat n # le_bytes k (n div 256)"

primrec from_le :: "u8 list \<Rightarrow> nat" where
  "from_le [] = 0"
| "from_le (b # bs) = unat b + 256 * from_le bs"

definition u16_to_le :: "u16 \<Rightarrow> u8 list" where
  "u16_to_le w = le_bytes 2 (unat w)"

definition u32_to_le :: "u32 \<Rightarrow> u8 list" where
  "u32_to_le w = le_bytes 4 (unat w)"

definition u64_to_le :: "u64 \<Rightarrow> u8 list" where
  "u64_to_le w = le_bytes 8 (unat w)"

definition u16_from_le :: "u8 list \<Rightarrow> u16" where
  "u16_from_le bs = word_of_nat (from_le bs)"

definition u32_from_le :: "u8 list \<Rightarrow> u32" where
  "u32_from_le bs = word_of_nat (from_le bs)"

definition u64_from_le :: "u8 list \<Rightarrow> u64" where
  "u64_from_le bs = word_of_nat (from_le bs)"

lemma length_le_bytes [simp]: "length (le_bytes k n) = k"
  by (induction k arbitrary: n) auto

lemma from_le_bytes: "n < 256 ^ k \<Longrightarrow> from_le (le_bytes k n) = n"
proof (induction k arbitrary: n)
  case 0
  then show ?case by simp
next
  case (Suc k)
  from Suc.prems have "n div 256 < 256 ^ k"
    by (simp add: less_mult_imp_div_less mult.commute)
  then have "from_le (le_bytes k (n div 256)) = n div 256" by (rule Suc.IH)
  then show ?case by (simp add: unat_of_nat)
qed

lemma from_le_bound: "from_le bs < 256 ^ length bs"
proof (induction bs)
  case Nil
  then show ?case by simp
next
  case (Cons b bs)
  have "unat b < 256" using unat_bound [of b] by simp
  with Cons.IH show ?case by simp
qed

lemma length_to_le [simp]:
  "length (u16_to_le a) = 2" "length (u32_to_le b) = 4" "length (u64_to_le c) = 8"
  by (simp_all add: u16_to_le_def u32_to_le_def u64_to_le_def)

lemma u16_from_to_le [simp]: "u16_from_le (u16_to_le w) = w"
  using unat_bound [of w] by (simp add: u16_from_le_def u16_to_le_def from_le_bytes)

lemma u32_from_to_le [simp]: "u32_from_le (u32_to_le w) = w"
  using unat_bound [of w] by (simp add: u32_from_le_def u32_to_le_def from_le_bytes)

lemma u64_from_to_le [simp]: "u64_from_le (u64_to_le w) = w"
  using unat_bound [of w] by (simp add: u64_from_le_def u64_to_le_def from_le_bytes)

section \<open>Strings as byte sequences\<close>

text \<open>
  A Rust \<open>String\<close> is a HOL \<^typ>\<open>string\<close> whose characters are its UTF-8 bytes, so that \<open>len\<close> is
  \<open>length\<close> and literals are ordinary string literals; \<open>as_bytes\<close> and \<open>of_bytes\<close> convert to the
  8-bit words of the wire.
\<close>

abbreviation code :: "char \<Rightarrow> nat" where
  "code c \<equiv> of_char c"

definition as_bytes :: "string \<Rightarrow> u8 list" where
  "as_bytes s = map (\<lambda>c. word_of_nat (code c)) s"

definition of_bytes :: "u8 list \<Rightarrow> string" where
  "of_bytes bs = map (\<lambda>b. char_of (unat b)) bs"

lemma length_as_bytes [simp]: "length (as_bytes s) = length s"
  by (simp add: as_bytes_def)

lemma length_of_bytes [simp]: "length (of_bytes bs) = length bs"
  by (simp add: of_bytes_def)

lemma char_of_byte: "char_of (unat (word_of_nat (code c) :: u8)) = c"
  by (simp add: unat_of_nat)

lemma of_bytes_as_bytes [simp]: "of_bytes (as_bytes s) = s"
  by (simp add: of_bytes_def as_bytes_def comp_def char_of_byte)

lemma as_bytes_of_bytes [simp]: "as_bytes (of_bytes bs) = bs"
proof -
  have "word_of_nat (code (char_of (unat b))) = b" for b :: u8
    using unat_bound [of b] by simp
  then show ?thesis by (simp add: as_bytes_def of_bytes_def comp_def)
qed

lemma as_bytes_append [simp]: "as_bytes (s @ t) = as_bytes s @ as_bytes t"
  by (simp add: as_bytes_def)

lemma as_bytes_eq_iff [simp]: "as_bytes s = as_bytes t \<longleftrightarrow> s = t"
  by (metis of_bytes_as_bytes)

section \<open>ASCII classes\<close>

definition is_ascii_digit :: "char \<Rightarrow> bool" where
  "is_ascii_digit c \<longleftrightarrow> 48 \<le> code c \<and> code c \<le> 57"

definition is_ascii_alphabetic :: "char \<Rightarrow> bool" where
  "is_ascii_alphabetic c \<longleftrightarrow> 65 \<le> code c \<and> code c \<le> 90 \<or> 97 \<le> code c \<and> code c \<le> 122"

definition is_ascii_alphanumeric :: "char \<Rightarrow> bool" where
  "is_ascii_alphanumeric c \<longleftrightarrow> is_ascii_digit c \<or> is_ascii_alphabetic c"

definition is_ascii_hexdigit :: "char \<Rightarrow> bool" where
  "is_ascii_hexdigit c \<longleftrightarrow>
     is_ascii_digit c \<or> 65 \<le> code c \<and> code c \<le> 70 \<or> 97 \<le> code c \<and> code c \<le> 102"

definition is_ascii :: "char \<Rightarrow> bool" where
  "is_ascii c \<longleftrightarrow> code c < 128"

text \<open>Graphic ASCII characters: no blank, no control character.\<close>

definition is_graphic :: "char \<Rightarrow> bool" where
  "is_graphic c \<longleftrightarrow> 33 \<le> code c \<and> code c \<le> 126"

lemmas ascii_defs = is_ascii_digit_def is_ascii_alphabetic_def is_ascii_alphanumeric_def
  is_ascii_hexdigit_def is_ascii_def is_graphic_def

lemma alphanumeric_graphic: "is_ascii_alphanumeric c \<Longrightarrow> is_graphic c"
  by (auto simp: ascii_defs)

lemma hexdigit_graphic: "is_ascii_hexdigit c \<Longrightarrow> is_graphic c"
  by (auto simp: ascii_defs)

lemma digit_graphic: "is_ascii_digit c \<Longrightarrow> is_graphic c"
  by (auto simp: ascii_defs)

lemma graphic_ascii: "is_graphic c \<Longrightarrow> is_ascii c"
  by (auto simp: ascii_defs)

lemma punctuation_graphic [simp]:
  "is_graphic (CHR ''-'')" "is_graphic (CHR ''_'')" "is_graphic (CHR ''.'')" "is_graphic (CHR '':'')"
  "is_graphic (CHR ''/'')" "is_graphic (CHR ''+'')"
  by (simp_all add: is_graphic_def)

lemmas graphic_intros = alphanumeric_graphic hexdigit_graphic digit_graphic

section \<open>Lists\<close>

lemma list_all_mono_strong: "list_all P xs \<Longrightarrow> (\<And>x. P x \<Longrightarrow> Q x) \<Longrightarrow> list_all Q xs"
  by (auto simp: list_all_iff)

end
