(* ===== verification/Rust_Str.thy ===== *)
theory Rust_Str
  imports Prelude
begin

text \<open>
  The string operations of the Rust standard library that the sources use: UTF-8 validation and
  the \<open>chars\<close> iterator, \<open>char::is_control\<close>, \<open>str::trim\<close>, \<open>split\<close>, \<open>split_once\<close>, \<open>lines\<close>, integer
  \<open>parse\<close> and integer formatting. Strings are UTF-8 byte sequences (see \<open>Prelude\<close>), so splitting
  at an ASCII separator is splitting the bytes.
\<close>

section \<open>UTF-8\<close>

definition is_cont :: "char \<Rightarrow> bool" where
  "is_cont c \<longleftrightarrow> 128 \<le> code c \<and> code c \<le> 191"

definition cont_bits :: "char \<Rightarrow> nat" where
  "cont_bits c = code c - 128"

text \<open>
  The well-formed sequences of the Unicode standard (no overlong form, no surrogate, nothing past
  U+10FFFF), decoded to scalar values; \<open>None\<close> where \<open>String::from_utf8\<close> fails.
\<close>

fun utf8_chars :: "string \<Rightarrow> nat list option" where
  "utf8_chars [] = Some []"
| "utf8_chars (a # s) =
    (if code a < 128 then map_option ((#) (code a)) (utf8_chars s)
     else if 194 \<le> code a \<and> code a \<le> 223 then
       (case s of
          b # t \<Rightarrow>
            if is_cont b
            then map_option ((#) ((code a - 192) * 64 + cont_bits b)) (utf8_chars t) else None
        | _ \<Rightarrow> None)
     else if 224 \<le> code a \<and> code a \<le> 239 then
       (case s of
          b # c # t \<Rightarrow>
            if is_cont b \<and> is_cont c \<and> (code a = 224 \<longrightarrow> 160 \<le> code b) \<and> (code a = 237 \<longrightarrow> code b \<le> 159)
            then map_option ((#) ((code a - 224) * 4096 + cont_bits b * 64 + cont_bits c)) (utf8_chars t)
            else None
        | _ \<Rightarrow> None)
     else if 240 \<le> code a \<and> code a \<le> 244 then
       (case s of
          b # c # d # t \<Rightarrow>
            if is_cont b \<and> is_cont c \<and> is_cont d \<and> (code a = 240 \<longrightarrow> 144 \<le> code b)
               \<and> (code a = 244 \<longrightarrow> code b \<le> 143)
            then map_option ((#) ((code a - 240) * 262144 + cont_bits b * 4096
                                   + cont_bits c * 64 + cont_bits d)) (utf8_chars t)
            else None
        | _ \<Rightarrow> None)
     else None)"

definition valid_utf8 :: "string \<Rightarrow> bool" where
  "valid_utf8 s \<longleftrightarrow> utf8_chars s \<noteq> None"

text \<open>\<open>str::chars\<close>: the scalar values of a string.\<close>

definition chars :: "string \<Rightarrow> nat list" where
  "chars s = (case utf8_chars s of Some cs \<Rightarrow> cs | None \<Rightarrow> [])"

text \<open>\<open>String::from_utf8\<close> on the bytes of the wire.\<close>

definition from_utf8 :: "u8 list \<Rightarrow> string option" where
  "from_utf8 bs = (if valid_utf8 (of_bytes bs) then Some (of_bytes bs) else None)"

lemma utf8_chars_ascii: "list_all is_ascii s \<Longrightarrow> utf8_chars s = Some (map code s)"
  by (induction s) (auto simp: is_ascii_def)

lemma valid_utf8_ascii: "list_all is_ascii s \<Longrightarrow> valid_utf8 s"
  by (simp add: valid_utf8_def utf8_chars_ascii)

lemma chars_ascii: "list_all is_ascii s \<Longrightarrow> chars s = map code s"
  by (simp add: chars_def utf8_chars_ascii)

lemma valid_utf8_graphic: "list_all is_graphic s \<Longrightarrow> valid_utf8 s"
  by (rule valid_utf8_ascii) (auto simp: list_all_iff intro: graphic_ascii)

lemma from_utf8_as_bytes: "valid_utf8 s \<Longrightarrow> from_utf8 (as_bytes s) = Some s"
  by (simp add: from_utf8_def)

lemma from_utf8_SomeD: "from_utf8 bs = Some s \<Longrightarrow> valid_utf8 s \<and> as_bytes s = bs"
  by (auto simp: from_utf8_def split: if_splits)

text \<open>Every ASCII byte of a well-formed string is one of its characters.\<close>

lemma code_in_chars:
  "utf8_chars s = Some cs \<Longrightarrow> c \<in> set s \<Longrightarrow> is_ascii c \<Longrightarrow> code c \<in> set cs"
proof (induction s arbitrary: cs rule: utf8_chars.induct)
  case 1
  then show ?case by simp
next
  case (2 a s)
  then show ?case
    by (auto simp: is_ascii_def is_cont_def split: if_splits list.splits)
qed

section \<open>Characters and trimming\<close>

text \<open>\<open>char::is_control\<close>: the general category Cc.\<close>

definition is_control :: "nat \<Rightarrow> bool" where
  "is_control c \<longleftrightarrow> c < 32 \<or> 127 \<le> c \<and> c < 160"

text \<open>\<open>char::is_whitespace\<close>: the property White_Space.\<close>

definition is_whitespace :: "nat \<Rightarrow> bool" where
  "is_whitespace c \<longleftrightarrow>
     9 \<le> c \<and> c \<le> 13 \<or> c = 32 \<or> c = 133 \<or> c = 160 \<or> c = 5760 \<or> 8192 \<le> c \<and> c \<le> 8202
     \<or> c = 8232 \<or> c = 8233 \<or> c = 8239 \<or> c = 8287 \<or> c = 12288"

text \<open>The characters of \<open>str::trim\<close>.\<close>

definition trim :: "string \<Rightarrow> nat list" where
  "trim s = rev (dropWhile is_whitespace (rev (dropWhile is_whitespace (chars s))))"

lemma dropWhile_Nil: "dropWhile P xs = [] \<longleftrightarrow> list_all P xs"
  by (simp add: list_all_iff)

lemma trim_eq_Nil_iff: "trim s = [] \<longleftrightarrow> list_all is_whitespace (chars s)"
proof
  assume "trim s = []"
  then have "list_all is_whitespace (dropWhile is_whitespace (chars s))"
    by (simp add: trim_def list_all_iff)
  then have "dropWhile is_whitespace (chars s) = []"
    by (metis hd_dropWhile list.set_sel(1) list_all_iff)
  then show "list_all is_whitespace (chars s)"
    by (simp only: dropWhile_Nil)
next
  assume "list_all is_whitespace (chars s)"
  then show "trim s = []"
    by (auto simp: trim_def list_all_iff dest: set_dropWhileD)
qed

lemma trim_graphic: "list_all is_graphic s \<Longrightarrow> s \<noteq> [] \<Longrightarrow> trim s \<noteq> []"
proof -
  assume g: "list_all is_graphic s" and "s \<noteq> []"
  then obtain c where c: "c \<in> set s" "is_graphic c"
    by (cases s) auto
  have "list_all is_ascii s"
    using g by (auto simp: list_all_iff intro: graphic_ascii)
  then have "code c \<in> set (chars s)"
    using c(1) by (simp add: chars_ascii)
  moreover have "\<not> is_whitespace (code c)"
    using c(2) by (auto simp: is_graphic_def is_whitespace_def)
  ultimately show "trim s \<noteq> []"
    unfolding trim_eq_Nil_iff by (auto simp: list_all_iff)
qed

section \<open>Splitting\<close>

text \<open>\<open>str::split\<close> at an ASCII character; never empty.\<close>

primrec split_on :: "char \<Rightarrow> string \<Rightarrow> string list" where
  "split_on d [] = [[]]"
| "split_on d (c # s) =
    (if c = d then [] # split_on d s
     else (case split_on d s of [] \<Rightarrow> [[c]] | w # ws \<Rightarrow> (c # w) # ws))"

text \<open>\<open>str::split_once\<close> at the first occurrence.\<close>

primrec split_once :: "char \<Rightarrow> string \<Rightarrow> (string \<times> string) option" where
  "split_once d [] = None"
| "split_once d (c # s) =
    (if c = d then Some ([], s) else map_option (\<lambda>(a, b). (c # a, b)) (split_once d s))"

definition starts_with :: "string \<Rightarrow> string \<Rightarrow> bool" where
  "starts_with p s \<longleftrightarrow> take (length p) s = p"

definition ends_with :: "string \<Rightarrow> string \<Rightarrow> bool" where
  "ends_with p s \<longleftrightarrow> length p \<le> length s \<and> drop (length s - length p) s = p"

definition strip_cr :: "string \<Rightarrow> string" where
  "strip_cr s = (if ends_with [CHR 13] s then butlast s else s)"

text \<open>\<open>str::lines\<close>: a terminated line loses its line feed and one carriage return before it; an
  unterminated last line is kept as it is unless empty.\<close>

definition str_lines :: "string \<Rightarrow> string list" where
  "str_lines s =
     (let ps = split_on (CHR 10) s
      in map strip_cr (butlast ps) @ (if last ps = [] then [] else [last ps]))"

primrec join :: "string \<Rightarrow> string list \<Rightarrow> string" where
  "join sep [] = []"
| "join sep (x # xs) = (if xs = [] then x else x @ sep @ join sep xs)"

lemma split_on_nonempty [simp]: "split_on d s \<noteq> []"
  by (cases s) (auto split: list.splits)

lemma split_on_append_sep: "split_on d (s @ d # t) = split_on d s @ split_on d t"
proof (induction s)
  case (Cons c s)
  then show ?case by (cases "split_on d s") auto
qed simp

lemma split_on_no_sep: "d \<notin> set s \<Longrightarrow> split_on d s = [s]"
  by (induction s) auto

lemma split_on_set: "\<Union> (set ` set (split_on d s)) = set s - {d}"
proof (induction s)
  case (Cons c s)
  then show ?case
    by (cases "split_on d s") (auto simp: insert_Diff_if)
qed simp

lemma split_on_parts: "p \<in> set (split_on d s) \<Longrightarrow> set p \<subseteq> set s - {d}"
  using split_on_set [of d s] by blast

lemma set_via_parts: "c \<in> set s \<Longrightarrow> c = d \<or> (\<exists>p \<in> set (split_on d s). c \<in> set p)"
  using split_on_set [of d s] by blast

lemma split_once_SomeD: "split_once d s = Some (a, b) \<Longrightarrow> s = a @ d # b \<and> d \<notin> set a"
  by (induction s arbitrary: a) (auto split: if_splits)

lemma split_once_append: "d \<notin> set a \<Longrightarrow> split_once d (a @ d # b) = Some (a, b)"
  by (induction a) auto

lemma set_join: "set (join sep xs) \<subseteq> set sep \<union> \<Union> (set ` set xs)"
  by (induction xs) auto

section \<open>Digits and integers\<close>

text \<open>\<open>char::to_digit\<close> for a radix up to 16.\<close>

definition to_digit :: "nat \<Rightarrow> char \<Rightarrow> nat option" where
  "to_digit radix c =
     (let d = (if is_ascii_digit c then code c - 48
               else if 97 \<le> code c \<and> code c \<le> 122 then code c - 87
               else if 65 \<le> code c \<and> code c \<le> 90 then code c - 55
               else radix)
      in if d < radix then Some d else None)"

definition digit_char :: "nat \<Rightarrow> char" where
  "digit_char d = (if d < 10 then char_of (48 + d) else char_of (87 + d))"

text \<open>Formatting with \<open>{}\<close> (radix 10) and \<open>{:x}\<close> (radix 16).\<close>

fun show_radix :: "nat \<Rightarrow> nat \<Rightarrow> string" where
  "show_radix r n =
     (if r < 2 \<or> n < r then [digit_char n] else show_radix r (n div r) @ [digit_char (n mod r)])"

declare show_radix.simps [simp del]

definition show_nat :: "nat \<Rightarrow> string" where
  "show_nat n = show_radix 10 n"

text \<open>The digits of \<open>from_str_radix(10)\<close>, with the overflow check of each step.\<close>

primrec parse_digits :: "nat \<Rightarrow> nat \<Rightarrow> string \<Rightarrow> nat option" where
  "parse_digits limit acc [] = Some acc"
| "parse_digits limit acc (c # s) =
     (case to_digit 10 c of
        None \<Rightarrow> None
      | Some d \<Rightarrow> if acc * 10 + d \<le> limit then parse_digits limit (acc * 10 + d) s else None)"

text \<open>\<open>str::parse\<close> for an unsigned type with greatest value \<open>limit\<close>: one plus sign is accepted.\<close>

definition parse_unsigned :: "nat \<Rightarrow> string \<Rightarrow> nat option" where
  "parse_unsigned limit s =
     (case s of
        [] \<Rightarrow> None
      | c # t \<Rightarrow>
          if t = [] \<and> (c = CHR ''+'' \<or> c = CHR ''-'') then None
          else if c = CHR ''+'' then parse_digits limit 0 t
          else parse_digits limit 0 s)"

text \<open>\<open>str::parse\<close> for \<open>i64\<close>.\<close>

definition parse_i64 :: "string \<Rightarrow> int option" where
  "parse_i64 s =
     (case s of
        [] \<Rightarrow> None
      | c # t \<Rightarrow>
          if t = [] \<and> (c = CHR ''+'' \<or> c = CHR ''-'') then None
          else if c = CHR ''+'' then map_option int (parse_digits (2 ^ 63 - 1) 0 t)
          else if c = CHR ''-'' then map_option (\<lambda>n. - int n) (parse_digits (2 ^ 63) 0 t)
          else map_option int (parse_digits (2 ^ 63 - 1) 0 s))"

lemma to_digit_digit_char: "d < r \<Longrightarrow> r \<le> 16 \<Longrightarrow> to_digit r (digit_char d) = Some d"
  by (auto simp: to_digit_def digit_char_def is_ascii_digit_def Let_def)

lemma to_digit_10: "to_digit 10 c = (if is_ascii_digit c then Some (code c - 48) else None)"
  by (auto simp: to_digit_def is_ascii_digit_def Let_def)

lemma to_digit_16_SomeD: "to_digit 16 c = Some d \<Longrightarrow> is_ascii_hexdigit c \<and> d < 16"
  by (auto simp: to_digit_def ascii_defs Let_def split: if_splits)

lemma digit_char_hex: "d < 16 \<Longrightarrow> is_ascii_hexdigit (digit_char d)"
  by (auto simp: digit_char_def ascii_defs)

lemma digit_char_dec: "d < 10 \<Longrightarrow> is_ascii_digit (digit_char d)"
  by (auto simp: digit_char_def ascii_defs)

lemma show_radix_digits:
  "2 \<le> r \<Longrightarrow> c \<in> set (show_radix r n) \<Longrightarrow> \<exists>d < r. c = digit_char d"
proof (induction r n rule: show_radix.induct)
  case (1 r n)
  show ?case
  proof (cases "n < r")
    case True
    with 1 show ?thesis by (auto simp: show_radix.simps [of r n])
  next
    case False
    with "1.prems" consider "c \<in> set (show_radix r (n div r))" | "c = digit_char (n mod r)"
      by (auto simp: show_radix.simps [of r n])
    then show ?thesis
    proof cases
      case 1
      with "1.IH" "1.prems" False show ?thesis by simp
    next
      case 2
      with "1.prems" show ?thesis by (intro exI [of _ "n mod r"]) simp
    qed
  qed
qed

lemma show_radix_nonempty [simp]: "show_radix r n \<noteq> []"
  by (subst show_radix.simps) simp

lemma length_show_radix: "2 \<le> r \<Longrightarrow> n < r ^ k \<Longrightarrow> 0 < k \<Longrightarrow> length (show_radix r n) \<le> k"
proof (induction k arbitrary: n)
  case 0
  then show ?case by simp
next
  case (Suc k)
  show ?case
  proof (cases "n < r")
    case True
    then show ?thesis by (simp add: show_radix.simps [of r n])
  next
    case False
    with Suc.prems have "k \<noteq> 0" by (cases k) auto
    moreover have "n div r < r ^ k"
      using Suc.prems by (simp add: less_mult_imp_div_less mult.commute)
    ultimately show ?thesis
      using Suc False by (simp add: show_radix.simps [of r n])
  qed
qed

lemma hd_show_radix: "2 \<le> r \<Longrightarrow> r \<le> 16 \<Longrightarrow> hd (show_radix r n) = CHR ''0'' \<Longrightarrow> n = 0"
proof (induction r n rule: show_radix.induct)
  case (1 r n)
  have z: "d = 0" if "digit_char d = CHR ''0''" "d < 16" for d
  proof -
    have "to_digit 16 (digit_char d) = Some d" using that by (intro to_digit_digit_char) auto
    moreover have "to_digit 16 (CHR ''0'') = Some 0" by (simp add: to_digit_def is_ascii_digit_def)
    ultimately show ?thesis using that by simp
  qed
  show ?case
  proof (cases "n < r")
    case True
    with 1 show ?thesis by (auto simp: show_radix.simps [of r n] intro: z)
  next
    case False
    with 1 have "n div r = 0" by (simp add: show_radix.simps [of r n])
    with False 1 show ?thesis by (simp add: div_eq_0_iff)
  qed
qed

lemma parse_digits_SomeD: "parse_digits m a s = Some n \<Longrightarrow> list_all is_ascii_digit s"
  by (induction s arbitrary: a) (auto simp: to_digit_10 split: if_splits option.splits)

lemma parse_digits_bound: "parse_digits m a s = Some n \<Longrightarrow> a \<le> m \<Longrightarrow> n \<le> m"
  by (induction s arbitrary: a) (auto split: if_splits option.splits)

lemma parse_unsigned_digits:
  assumes "parse_unsigned m s = Some n"
  obtains t where "parse_digits m 0 t = Some n" "t \<noteq> []" "s = t \<or> s = CHR ''+'' # t"
proof (cases s)
  case Nil
  with assms show ?thesis by (simp add: parse_unsigned_def)
next
  case (Cons c t)
  show ?thesis
  proof (cases "c = CHR ''+''")
    case True
    with Cons assms have "parse_digits m 0 t = Some n" "t \<noteq> []"
      by (simp_all add: parse_unsigned_def split: if_splits)
    with Cons True that show ?thesis by blast
  next
    case False
    with Cons assms have "parse_digits m 0 s = Some n"
      by (simp add: parse_unsigned_def split: if_splits)
    with Cons that show ?thesis by blast
  qed
qed

lemma parse_unsigned_SomeD:
  assumes "parse_unsigned m s = Some n"
  shows "list_all is_graphic s" "s \<noteq> []" "n \<le> m"
proof -
  from assms obtain t where t: "parse_digits m 0 t = Some n" "t \<noteq> []" "s = t \<or> s = CHR ''+'' # t"
    by (rule parse_unsigned_digits)
  have "list_all is_graphic t"
    using parse_digits_SomeD [OF t(1)] by (rule list_all_mono_strong) (rule digit_graphic)
  then show "list_all is_graphic s" "s \<noteq> []"
    using t(2,3) by (auto simp: is_graphic_def)
  show "n \<le> m" using t(1) by (rule parse_digits_bound) simp
qed

lemma set_show_nat: "c \<in> set (show_nat n) \<Longrightarrow> is_ascii_digit c"
  using show_radix_digits [of 10 c n] by (auto simp: show_nat_def digit_char_dec)

text \<open>A printed number is parsed back, so printing is injective.\<close>

lemma parse_digits_append:
  "parse_digits m a (s @ t) = (case parse_digits m a s of None \<Rightarrow> None | Some b \<Rightarrow> parse_digits m b t)"
  by (induction s arbitrary: a) (auto split: option.splits)

lemma parse_digits_show: "n \<le> m \<Longrightarrow> parse_digits m 0 (show_nat n) = Some n"
proof (induction n rule: less_induct)
  case (less n)
  have d: "to_digit 10 (digit_char (n mod 10)) = Some (n mod 10)" for n
    by (rule to_digit_digit_char) simp_all
  show ?case
  proof (cases "n < 10")
    case True
    with less.prems d [of n] show ?thesis
      by (simp add: show_nat_def show_radix.simps [of 10 n])
  next
    case False
    then have "show_nat n = show_nat (n div 10) @ [digit_char (n mod 10)]"
      by (simp add: show_nat_def show_radix.simps [of 10 n])
    moreover have "parse_digits m 0 (show_nat (n div 10)) = Some (n div 10)"
      using False less.prems by (intro less.IH) auto
    ultimately show ?thesis using d [of n] less.prems by (simp add: parse_digits_append)
  qed
qed

lemma parse_unsigned_show: "n \<le> m \<Longrightarrow> parse_unsigned m (show_nat n) = Some n"
proof -
  assume "n \<le> m"
  obtain c s where cs: "show_nat n = c # s"
    using show_radix_nonempty [of 10 n] by (cases "show_nat n") (auto simp: show_nat_def)
  have "is_ascii_digit c" using set_show_nat [of c n] cs by simp
  then have "c \<noteq> CHR ''+''" "c \<noteq> CHR ''-''" by (auto simp: is_ascii_digit_def)
  with cs parse_digits_show [OF \<open>n \<le> m\<close>] show ?thesis by (simp add: parse_unsigned_def)
qed

lemma show_nat_inject [simp]: "show_nat n = show_nat k \<longleftrightarrow> n = k"
  by (metis max.cobounded1 max.cobounded2 option.inject parse_unsigned_show)

end
