(* ===== verification/Ip_Addr.thy ===== *)
theory Ip_Addr
  imports Rust_Str "HOL-Library.Monad_Syntax"
begin

text \<open>
  The textual form of \<open>std::net::IpAddr\<close>: the recursive-descent reader behind
  \<open>str::parse::<IpAddr>\<close> (with \<open>::\<close> elision and an embedded IPv4 tail) and \<open>Display\<close>, which elides
  the first longest run of zero segments and prints IPv4-mapped addresses in dotted form. The
  wire format sends DNS servers through this pair, so the profile round trip rests on
  \<open>parse_ip_show_ip\<close>; the rendered engine configurations rest on \<open>parse_ip_chars\<close>.
\<close>

section \<open>Addresses\<close>

datatype ipv4_addr = Ipv4 u8 u8 u8 u8

datatype ipv6_addr = Ipv6 u16 u16 u16 u16 u16 u16 u16 u16

datatype ip_addr = V4 ipv4_addr | V6 ipv6_addr

fun is_ipv4 :: "ip_addr \<Rightarrow> bool" where
  "is_ipv4 (V4 a) = True"
| "is_ipv4 (V6 a) = False"

fun segments :: "ipv6_addr \<Rightarrow> u16 list" where
  "segments (Ipv6 a b c d e f g h) = [a, b, c, d, e, f, g, h]"

definition ipv6_of :: "u16 list \<Rightarrow> ipv6_addr" where
  "ipv6_of xs = Ipv6 (xs ! 0) (xs ! 1) (xs ! 2) (xs ! 3) (xs ! 4) (xs ! 5) (xs ! 6) (xs ! 7)"

lemma length_segments [simp]: "length (segments a) = 8"
  by (cases a) simp

lemma ipv6_of_segments [simp]: "ipv6_of (segments a) = a"
  by (cases a) (simp add: ipv6_of_def eval_nat_numeral)

section \<open>Reading\<close>

text \<open>A reader consumes a prefix of the input; where it fails the caller keeps the input.\<close>

type_synonym 'a reader = "string \<Rightarrow> ('a \<times> string) option"

fun read_digits :: "nat \<Rightarrow> nat \<Rightarrow> nat \<Rightarrow> nat \<Rightarrow> string \<Rightarrow> (nat \<times> nat \<times> string) option" where
  "read_digits radix max_digits acc count [] = Some (acc, count, [])"
| "read_digits radix max_digits acc count (c # s) =
    (case to_digit radix c of
       None \<Rightarrow> Some (acc, count, c # s)
     | Some d \<Rightarrow>
         if max_digits < Suc count then None
         else read_digits radix max_digits (acc * radix + d) (Suc count) s)"

definition read_number :: "nat \<Rightarrow> nat \<Rightarrow> bool \<Rightarrow> nat \<Rightarrow> nat reader" where
  "read_number radix max_digits allow_zero_prefix limit s =
     (case read_digits radix max_digits 0 0 s of
        None \<Rightarrow> None
      | Some (n, count, t) \<Rightarrow>
          if count = 0 then None
          else if \<not> allow_zero_prefix \<and> hd s = CHR ''0'' \<and> 1 < count then None
          else if n \<le> limit then Some (n, t) else None)"

definition read_given_char :: "char \<Rightarrow> string \<Rightarrow> string option" where
  "read_given_char c s = (case s of [] \<Rightarrow> None | x # t \<Rightarrow> if x = c then Some t else None)"

definition read_separator :: "char \<Rightarrow> nat \<Rightarrow> 'a reader \<Rightarrow> 'a reader" where
  "read_separator sep index inner s =
     (if 0 < index then (case read_given_char sep s of None \<Rightarrow> None | Some t \<Rightarrow> inner t)
      else inner s)"

definition read_octet :: "nat \<Rightarrow> u8 reader" where
  "read_octet index s =
     map_option (\<lambda>(n, t). (word_of_nat n, t)) (read_separator (CHR ''.'') index (read_number 10 3 False 255) s)"

definition read_ipv4_addr :: "ipv4_addr reader" where
  "read_ipv4_addr s0 = do {
     (a, s1) \<leftarrow> read_octet 0 s0;
     (b, s2) \<leftarrow> read_octet 1 s1;
     (c, s3) \<leftarrow> read_octet 2 s2;
     (d, s4) \<leftarrow> read_octet 3 s3;
     Some (Ipv4 a b c d, s4) }"

definition be16 :: "u8 \<Rightarrow> u8 \<Rightarrow> u16" where
  "be16 a b = word_of_nat (unat a * 256 + unat b)"

definition read_group :: "nat \<Rightarrow> u16 reader" where
  "read_group index s =
     map_option (\<lambda>(n, t). (word_of_nat n, t)) (read_separator (CHR '':'') index (read_number 16 4 True 65535) s)"

text \<open>The groups from \<open>index\<close> on, at most \<open>k\<close> of them, whether an embedded IPv4 address ended them,
  and the rest of the input.\<close>

fun read_groups :: "nat \<Rightarrow> nat \<Rightarrow> string \<Rightarrow> u16 list \<times> bool \<times> string" where
  "read_groups index 0 s = ([], False, s)"
| "read_groups index (Suc k) s =
    (case (if 0 < k then read_separator (CHR '':'') index read_ipv4_addr s else None) of
       Some (Ipv4 a b c d, t) \<Rightarrow> ([be16 a b, be16 c d], True, t)
     | None \<Rightarrow>
         (case read_group index s of
            None \<Rightarrow> ([], False, s)
          | Some (g, t) \<Rightarrow>
              (case read_groups (Suc index) k t of (gs, v4, u) \<Rightarrow> (g # gs, v4, u))))"

definition read_ipv6_addr :: "ipv6_addr reader" where
  "read_ipv6_addr s =
     (case read_groups 0 8 s of (head, head_ipv4, s1) \<Rightarrow>
        if length head = 8 then Some (ipv6_of head, s1)
        else if head_ipv4 then None
        else do {
          s2 \<leftarrow> read_given_char (CHR '':'') s1;
          s3 \<leftarrow> read_given_char (CHR '':'') s2;
          (case read_groups 0 (8 - (length head + 1)) s3 of (tail, _, s4) \<Rightarrow>
             Some (ipv6_of (head @ replicate (8 - length tail - length head) 0 @ tail), s4)) })"

definition read_ip_addr :: "ip_addr reader" where
  "read_ip_addr s =
     (case read_ipv4_addr s of
        Some (a, t) \<Rightarrow> Some (V4 a, t)
      | None \<Rightarrow> map_option (\<lambda>(a, t). (V6 a, t)) (read_ipv6_addr s))"

definition parse_ip :: "string \<Rightarrow> ip_addr option" where
  "parse_ip s = (case read_ip_addr s of Some (a, []) \<Rightarrow> Some a | _ \<Rightarrow> None)"

section \<open>Printing\<close>

fun show_ipv4 :: "ipv4_addr \<Rightarrow> string" where
  "show_ipv4 (Ipv4 a b c d) =
     show_nat (unat a) @ ''.'' @ show_nat (unat b) @ ''.'' @ show_nat (unat c) @ ''.'' @ show_nat (unat d)"

definition show_hex :: "u16 \<Rightarrow> string" where
  "show_hex w = show_radix 16 (unat w)"

fun to_ipv4_mapped :: "ipv6_addr \<Rightarrow> ipv4_addr option" where
  "to_ipv4_mapped (Ipv6 a b c d e f g h) =
     (if a = 0 \<and> b = 0 \<and> c = 0 \<and> d = 0 \<and> e = 0 \<and> f = 65535
      then Some (Ipv4 (word_of_nat (unat g div 256)) (word_of_nat (unat g mod 256))
                      (word_of_nat (unat h div 256)) (word_of_nat (unat h mod 256)))
      else None)"

text \<open>The first longest run of zeros: \<open>(start, length)\<close>, with the best run so far and the current one
  as the loop variables.\<close>

fun longest_zeros :: "nat \<Rightarrow> nat \<times> nat \<Rightarrow> nat \<times> nat \<Rightarrow> u16 list \<Rightarrow> nat \<times> nat" where
  "longest_zeros i longest current [] = longest"
| "longest_zeros i longest current (w # ws) =
    (if w = 0 then
       (let start = (if snd current = 0 then i else fst current);
            current' = (start, Suc (snd current))
        in longest_zeros (Suc i) (if snd longest < snd current' then current' else longest) current' ws)
     else longest_zeros (Suc i) longest (0, 0) ws)"

definition fmt_subslice :: "u16 list \<Rightarrow> string" where
  "fmt_subslice ws = join '':'' (map show_hex ws)"

definition show_ipv6 :: "ipv6_addr \<Rightarrow> string" where
  "show_ipv6 a =
     (case to_ipv4_mapped a of
        Some v4 \<Rightarrow> ''::ffff:'' @ show_ipv4 v4
      | None \<Rightarrow>
          (case longest_zeros 0 (0, 0) (0, 0) (segments a) of (start, len) \<Rightarrow>
             if 1 < len
             then fmt_subslice (take start (segments a)) @ ''::''
                  @ fmt_subslice (drop (start + len) (segments a))
             else fmt_subslice (segments a)))"

fun show_ip :: "ip_addr \<Rightarrow> string" where
  "show_ip (V4 a) = show_ipv4 a"
| "show_ip (V6 a) = show_ipv6 a"

section \<open>What a reader consumes\<close>

definition ip_char :: "char \<Rightarrow> bool" where
  "ip_char c \<longleftrightarrow> is_ascii_hexdigit c \<or> c = CHR '':'' \<or> c = CHR ''.''"

definition consumes :: "(char \<Rightarrow> bool) \<Rightarrow> string \<Rightarrow> string \<Rightarrow> bool" where
  "consumes P s t \<longleftrightarrow> (\<exists>u. s = u @ t \<and> list_all P u)"

lemma consumes_refl [simp, intro]: "consumes P s s"
  by (auto simp: consumes_def)

lemma consumes_trans: "consumes P s t \<Longrightarrow> consumes P t u \<Longrightarrow> consumes P s u"
  by (auto simp: consumes_def)

lemma consumes_Cons: "P c \<Longrightarrow> consumes P s t \<Longrightarrow> consumes P (c # s) t"
  by (auto simp: consumes_def intro: exI [of _ "c # _"])

lemma consumes_set: "consumes P s t \<Longrightarrow> set t \<subseteq> set s"
  by (auto simp: consumes_def)

lemma to_digit_ip_char: "to_digit r c = Some d \<Longrightarrow> r \<le> 16 \<Longrightarrow> ip_char c"
  by (auto simp: to_digit_def ip_char_def ascii_defs Let_def split: if_splits)

lemma read_digits_consumes:
  "read_digits r m a k s = Some (n, l, t) \<Longrightarrow> r \<le> 16 \<Longrightarrow> consumes ip_char s t"
  by (induction r m a k s rule: read_digits.induct)
    (auto split: option.splits if_splits intro: consumes_Cons to_digit_ip_char)

lemma read_number_consumes:
  "read_number r m z l s = Some (n, t) \<Longrightarrow> r \<le> 16 \<Longrightarrow> consumes ip_char s t"
  by (auto simp: read_number_def split: option.splits if_splits dest: read_digits_consumes)

lemma read_given_char_consumes:
  "read_given_char c s = Some t \<Longrightarrow> ip_char c \<Longrightarrow> consumes ip_char s t"
  by (auto simp: read_given_char_def split: list.splits if_splits intro: consumes_Cons)

lemma read_separator_consumes:
  assumes "read_separator c i p s = Some (x, t)" and "ip_char c"
    and "\<And>s x t. p s = Some (x, t) \<Longrightarrow> consumes ip_char s t"
  shows "consumes ip_char s t"
  using assms
  by (auto simp: read_separator_def split: if_splits option.splits
      intro: consumes_trans read_given_char_consumes)

lemma sep_chars [simp]: "ip_char (CHR '':'')" "ip_char (CHR ''.'')"
  by (simp_all add: ip_char_def)

lemma read_octet_consumes: "read_octet i s = Some (x, t) \<Longrightarrow> consumes ip_char s t"
  by (auto simp: read_octet_def
      elim!: read_separator_consumes [OF _ sep_chars(2)] read_number_consumes)

lemma read_group_consumes: "read_group i s = Some (x, t) \<Longrightarrow> consumes ip_char s t"
  by (auto simp: read_group_def
      elim!: read_separator_consumes [OF _ sep_chars(1)] read_number_consumes)

lemma read_ipv4_consumes: "read_ipv4_addr s = Some (a, t) \<Longrightarrow> consumes ip_char s t"
  by (auto simp: read_ipv4_addr_def bind_eq_Some_conv
      dest!: read_octet_consumes intro: consumes_trans)

lemma read_groups_consumes: "read_groups i k s = (gs, b, t) \<Longrightarrow> consumes ip_char s t"
proof (induction i k s arbitrary: gs b t rule: read_groups.induct)
  case 1
  then show ?case by simp
next
  case (2 i k s)
  consider a b c d u where
      "(if 0 < k then read_separator (CHR '':'') i read_ipv4_addr s else None) = Some (Ipv4 a b c d, u)"
    | "(if 0 < k then read_separator (CHR '':'') i read_ipv4_addr s else None) = None"
    by (metis option.exhaust ipv4_addr.exhaust prod.exhaust)
  then show ?case
  proof cases
    case 1
    with "2.prems" have "t = u" by simp
    with 1 show ?thesis
      by (auto split: if_splits intro: read_separator_consumes read_ipv4_consumes)
  next
    case none: 2
    show ?thesis
    proof (cases "read_group i s")
      case None
      with none "2.prems" show ?thesis by simp
    next
      case (Some p)
      obtain g u where p: "p = (g, u)" by (cases p)
      obtain gs' b' t' where r: "read_groups (Suc i) k u = (gs', b', t')"
        by (cases "read_groups (Suc i) k u")
      have "consumes ip_char u t'" using "2.IH" [OF none Some p [symmetric] r] .
      moreover have "t = t'" using "2.prems" none Some p r by simp
      ultimately show ?thesis
        using read_group_consumes [of i s g u] Some p by (auto intro: consumes_trans)
    qed
  qed
qed

lemma read_ipv6_consumes:
  assumes "read_ipv6_addr s = Some (a, t)"
  shows "consumes ip_char s t"
proof -
  obtain hd4 b s1 where r: "read_groups 0 8 s = (hd4, b, s1)" by (cases "read_groups 0 8 s")
  have c1: "consumes ip_char s s1" using r by (rule read_groups_consumes)
  show ?thesis
  proof (cases "length hd4 = 8")
    case True
    with assms r c1 show ?thesis by (simp add: read_ipv6_addr_def)
  next
    case False
    with assms r obtain s2 s3 where
      s2: "read_given_char (CHR '':'') s1 = Some s2" and s3: "read_given_char (CHR '':'') s2 = Some s3"
      and rest: "(case read_groups 0 (8 - (length hd4 + 1)) s3 of (tl4, _, s4) \<Rightarrow>
        Some (ipv6_of (hd4 @ replicate (8 - length tl4 - length hd4) 0 @ tl4), s4)) = Some (a, t)"
      by (auto simp: read_ipv6_addr_def bind_eq_Some_conv split: if_splits)
    obtain tl4 b' s4 where r': "read_groups 0 (8 - (length hd4 + 1)) s3 = (tl4, b', s4)"
      by (cases "read_groups 0 (8 - (length hd4 + 1)) s3")
    have "consumes ip_char s3 s4" using r' by (rule read_groups_consumes)
    moreover have "t = s4" using rest r' by simp
    moreover have "consumes ip_char s1 s2" "consumes ip_char s2 s3"
      using s2 s3 by (auto intro: read_given_char_consumes)
    ultimately show ?thesis using c1 by (blast intro: consumes_trans)
  qed
qed

theorem parse_ip_chars: "parse_ip s = Some a \<Longrightarrow> list_all ip_char s"
proof -
  assume "parse_ip s = Some a"
  then have "read_ip_addr s = Some (a, [])"
    by (auto simp: parse_ip_def split: option.splits list.splits)
  then have "consumes ip_char s []"
    by (auto simp: read_ip_addr_def split: option.splits
        intro: read_ipv4_consumes read_ipv6_consumes)
  then show ?thesis by (simp add: consumes_def)
qed

lemma ip_char_graphic: "ip_char c \<Longrightarrow> is_graphic c"
  by (auto simp: ip_char_def intro: hexdigit_graphic)

section \<open>Printing and reading back\<close>

subsection \<open>Numbers\<close>

definition stops :: "nat \<Rightarrow> string \<Rightarrow> bool" where
  "stops r s \<longleftrightarrow> (case s of [] \<Rightarrow> True | c # _ \<Rightarrow> to_digit r c = None)"

lemma stops_simps [simp]:
  "stops r []" "stops 10 (CHR ''.'' # s)" "stops 16 (CHR '':'' # s)" "stops 10 (CHR '':'' # s)"
  by (simp_all add: stops_def to_digit_def is_ascii_digit_def)

definition digits_value :: "nat \<Rightarrow> nat \<Rightarrow> string \<Rightarrow> nat" where
  "digits_value r a s = foldl (\<lambda>a c. a * r + the (to_digit r c)) a s"

lemma read_digits_append:
  "\<forall>c \<in> set ds. to_digit r c \<noteq> None \<Longrightarrow> k + length ds \<le> m \<Longrightarrow> stops r rest \<Longrightarrow>
   read_digits r m a k (ds @ rest) = Some (digits_value r a ds, k + length ds, rest)"
proof (induction ds arbitrary: a k)
  case Nil
  then show ?case by (cases rest) (auto simp: stops_def digits_value_def)
next
  case (Cons c ds)
  then obtain d where "to_digit r c = Some d" by auto
  with Cons show ?case by (simp add: digits_value_def)
qed

lemma digits_value_show:
  "2 \<le> r \<Longrightarrow> r \<le> 16 \<Longrightarrow> digits_value r 0 (show_radix r n) = n"
proof (induction r n rule: show_radix.induct)
  case (1 r n)
  show ?case
  proof (cases "n < r")
    case True
    with 1 show ?thesis
      by (simp add: show_radix.simps [of r n] digits_value_def to_digit_digit_char)
  next
    case False
    with 1 have "digits_value r 0 (show_radix r (n div r)) = n div r" by simp
    with False 1 show ?thesis
      by (simp add: show_radix.simps [of r n] digits_value_def to_digit_digit_char)
  qed
qed

lemma read_number_show:
  assumes "2 \<le> r" "r \<le> 16" "n < r ^ m" "0 < m" "n \<le> limit" "stops r rest"
  shows "read_number r m z limit (show_radix r n @ rest) = Some (n, rest)"
proof -
  have dig: "\<forall>c \<in> set (show_radix r n). to_digit r c \<noteq> None"
    using show_radix_digits [of r _ n] assms(1,2) by (fastforce simp: to_digit_digit_char)
  have len: "length (show_radix r n) \<le> m"
    using assms by (intro length_show_radix) auto
  have "read_digits r m 0 0 (show_radix r n @ rest) = Some (n, length (show_radix r n), rest)"
    using read_digits_append [OF dig, of 0 m rest 0] len assms(1,2,6)
    by (simp add: digits_value_show)
  moreover have "length (show_radix r n) = 1" if "hd (show_radix r n) = CHR ''0''"
  proof -
    have "n = 0" using hd_show_radix [OF assms(1,2) that] .
    with assms(1) show ?thesis by (simp add: show_radix.simps [of r 0])
  qed
  ultimately show ?thesis
    using assms(5) by (auto simp: read_number_def)
qed

subsection \<open>IPv4\<close>

lemma read_octet_show:
  "stops 10 rest \<Longrightarrow>
   read_octet i ((if 0 < i then ''.'' else []) @ show_nat (unat (a :: u8)) @ rest) = Some (a, rest)"
  using unat_bound [of a]
  by (auto simp: read_octet_def read_separator_def read_given_char_def show_nat_def
      read_number_show)

lemma read_ipv4_show: "stops 10 rest \<Longrightarrow> read_ipv4_addr (show_ipv4 a @ rest) = Some (a, rest)"
proof (cases a)
  case (Ipv4 w x y z)
  assume "stops 10 rest"
  then show ?thesis
    using read_octet_show [of _ 0 w] read_octet_show [of _ 1 x] read_octet_show [of _ 2 y]
      read_octet_show [of rest 3 z]
    by (simp add: Ipv4 read_ipv4_addr_def)
qed

lemma read_ipv4_no_dot: "CHR ''.'' \<notin> set s \<Longrightarrow> read_ipv4_addr s = None"
proof -
  assume nd: "CHR ''.'' \<notin> set s"
  have "read_octet 1 t = None" if "read_octet 0 s = Some (a, t)" for a t
  proof -
    have "CHR ''.'' \<notin> set t"
      using consumes_set [OF read_octet_consumes [OF that]] nd by blast
    then show ?thesis
      by (cases t) (auto simp: read_octet_def read_separator_def read_given_char_def)
  qed
  then show ?thesis
    by (cases "read_octet 0 s") (auto simp: read_ipv4_addr_def)
qed

subsection \<open>Groups\<close>

primrec colon_text :: "nat \<Rightarrow> u16 list \<Rightarrow> string" where
  "colon_text i [] = []"
| "colon_text i (g # gs) = (if 0 < i then '':'' else []) @ show_hex g @ colon_text (Suc i) gs"

lemma colon_text_Suc: "colon_text (Suc i) gs = concat (map (\<lambda>g. '':'' @ show_hex g) gs)"
  by (induction gs arbitrary: i) auto

lemma fmt_subslice_colon_text: "fmt_subslice gs = colon_text 0 gs"
proof (induction gs)
  case Nil
  then show ?case by (simp add: fmt_subslice_def)
next
  case (Cons g gs)
  then show ?case
    by (cases gs) (auto simp: fmt_subslice_def colon_text_Suc)
qed

lemma set_show_hex: "c \<in> set (show_hex w) \<Longrightarrow> is_ascii_hexdigit c"
  using show_radix_digits [of 16 c "unat w"] by (auto simp: show_hex_def digit_char_hex)

lemma colon_text_no_dot: "CHR ''.'' \<notin> set (colon_text i gs)"
  by (induction gs arbitrary: i) (auto dest!: set_show_hex simp: ascii_defs)

lemma stops_colon_text: "stops 16 rest \<Longrightarrow> stops 16 (colon_text (Suc i) gs @ rest)"
  by (cases gs) auto

lemma read_group_show:
  "stops 16 rest \<Longrightarrow>
   read_group i ((if 0 < i then '':'' else []) @ show_hex w @ rest) = Some (w, rest)"
  using unat_bound [of w]
  by (auto simp: read_group_def read_separator_def read_given_char_def show_hex_def
      read_number_show)

text \<open>What may follow the last group: the end of the input or an elision.\<close>

definition after_groups :: "string \<Rightarrow> bool" where
  "after_groups s \<longleftrightarrow> s = [] \<or> (\<exists>t. s = ''::'' @ t)"

lemma read_octet_colon: "read_octet 0 (CHR '':'' # s) = None"
  by (simp add: read_octet_def read_separator_def read_number_def to_digit_def is_ascii_digit_def)

lemma read_group_stops:
  "after_groups s \<Longrightarrow> read_group i s = None"
  by (auto simp: after_groups_def read_group_def read_separator_def read_given_char_def
      read_number_def to_digit_def is_ascii_digit_def)

lemma separator_no_dot:
  assumes "CHR ''.'' \<notin> set s"
  shows "read_separator (CHR '':'') i read_ipv4_addr s = None"
proof -
  have "CHR ''.'' \<notin> set t" if "read_given_char (CHR '':'') s = Some t" for t
    using that assms by (auto simp: read_given_char_def split: list.splits if_splits)
  with assms show ?thesis
    by (auto simp: read_separator_def read_ipv4_no_dot split: option.splits)
qed

lemma stops_after_groups: "after_groups s \<Longrightarrow> stops 16 s"
  by (auto simp: after_groups_def)

lemma read_groups_step:
  "read_separator (CHR '':'') i read_ipv4_addr s = None \<Longrightarrow> read_group i s = Some (g, t) \<Longrightarrow>
   read_groups (Suc i) k t = (gs, b, u) \<Longrightarrow> read_groups i (Suc k) s = (g # gs, b, u)"
  by (cases k) auto

lemma read_groups_text:
  "after_groups rest \<Longrightarrow> CHR ''.'' \<notin> set rest \<Longrightarrow> length gs \<le> k \<Longrightarrow>
   read_groups i k (colon_text i gs @ rest) = (gs, False, rest)"
proof (induction gs arbitrary: i k)
  case Nil
  then show ?case
    by (cases k) (simp_all add: separator_no_dot read_group_stops)
next
  case (Cons g gs)
  then obtain k' where k: "k = Suc k'" by (cases k) auto
  have nd: "CHR ''.'' \<notin> set (colon_text i (g # gs) @ rest)"
    using Cons.prems(2) colon_text_no_dot [of i "g # gs"] by simp
  have "read_group i (colon_text i (g # gs) @ rest) = Some (g, colon_text (Suc i) gs @ rest)"
    using read_group_show [OF stops_colon_text [OF stops_after_groups [OF Cons.prems(1)]],
        of i g i gs]
    by simp
  moreover have "read_groups (Suc i) k' (colon_text (Suc i) gs @ rest) = (gs, False, rest)"
    using Cons k by simp
  moreover have "read_separator (CHR '':'') i read_ipv4_addr (colon_text i (g # gs) @ rest) = None"
    using nd by (rule separator_no_dot)
  ultimately show ?case unfolding k by (intro read_groups_step)
qed

subsection \<open>IPv6\<close>

text \<open>The run that \<open>longest_zeros\<close> reports is a run of zeros inside the segments.\<close>

definition zero_run :: "u16 list \<Rightarrow> nat \<times> nat \<Rightarrow> bool" where
  "zero_run ws r \<longleftrightarrow> fst r + snd r \<le> length ws \<and> (\<forall>j. fst r \<le> j \<and> j < fst r + snd r \<longrightarrow> ws ! j = 0)"

lemma longest_zeros_run:
  assumes "zero_run (pre @ ws) longest" "zero_run (pre @ ws) current"
    and "snd current \<noteq> 0 \<Longrightarrow> fst current + snd current = length pre"
  shows "zero_run (pre @ ws) (longest_zeros (length pre) longest current ws)"
  using assms
proof (induction ws arbitrary: pre longest current)
  case Nil
  then show ?case by simp
next
  case (Cons w ws)
  show ?case
  proof (cases "w = 0")
    case False
    then show ?thesis
      using Cons.IH [of "pre @ [w]" longest "(0, 0)"] Cons.prems
      by (simp add: zero_run_def)
  next
    case True
    define cur where
      "cur = ((if snd current = 0 then length pre else fst current), Suc (snd current))"
    have end_cur: "fst cur + snd cur = Suc (length pre)"
      using Cons.prems(3) by (simp add: cur_def)
    have run_cur: "zero_run ((pre @ [w]) @ ws) cur"
    proof -
      have "((pre @ [w]) @ ws) ! j = 0" if "fst cur \<le> j" "j < fst cur + snd cur" for j
      proof (cases "j = length pre")
        case True
        with \<open>w = 0\<close> show ?thesis by (simp add: nth_append)
      next
        case False
        with that end_cur have "j < length pre" by simp
        with that Cons.prems(2,3) show ?thesis
          by (auto simp: zero_run_def cur_def split: if_splits)
      qed
      with end_cur show ?thesis by (simp add: zero_run_def)
    qed
    have run_best: "zero_run ((pre @ [w]) @ ws) (if snd longest < snd cur then cur else longest)"
      using Cons.prems(1) run_cur by simp
    have "longest_zeros (length pre) longest current (w # ws)
        = longest_zeros (length (pre @ [w])) (if snd longest < snd cur then cur else longest) cur ws"
      using True by (simp add: cur_def Let_def)
    then show ?thesis
      using Cons.IH [OF run_best run_cur] end_cur by simp
  qed
qed

lemma zero_run_split:
  assumes "zero_run ws (start, len)"
  shows "ws = take start ws @ replicate len 0 @ drop (start + len) ws"
proof (rule nth_equalityI)
  show "length ws = length (take start ws @ replicate len 0 @ drop (start + len) ws)"
    using assms by (simp add: zero_run_def)
  fix i
  assume "i < length ws"
  then show "ws ! i = (take start ws @ replicate len 0 @ drop (start + len) ws) ! i"
    using assms by (auto simp: zero_run_def nth_append min_def)
qed

lemma read_ipv6_elided:
  assumes "length hs + length ts < 8"
  shows "read_ipv6_addr (colon_text 0 hs @ ''::'' @ colon_text 0 ts)
    = Some (ipv6_of (hs @ replicate (8 - length ts - length hs) 0 @ ts), [])"
proof -
  have nd: "CHR ''.'' \<notin> set (''::'' @ colon_text 0 ts)"
    using colon_text_no_dot [of 0 ts] by simp
  have "read_groups 0 8 (colon_text 0 hs @ ''::'' @ colon_text 0 ts)
      = (hs, False, ''::'' @ colon_text 0 ts)"
    using assms nd by (intro read_groups_text) (auto simp: after_groups_def)
  moreover have "read_groups 0 (8 - (length hs + 1)) (colon_text 0 ts @ []) = (ts, False, [])"
    using assms by (intro read_groups_text) (auto simp: after_groups_def)
  ultimately show ?thesis
    using assms by (simp add: read_ipv6_addr_def read_given_char_def)
qed

lemma read_ipv6_full:
  "length gs = 8 \<Longrightarrow> read_ipv6_addr (colon_text 0 gs) = Some (ipv6_of gs, [])"
  using read_groups_text [of "[]" gs 8 0] by (simp add: read_ipv6_addr_def after_groups_def)

lemma be16_bytes: "be16 (word_of_nat (unat g div 256)) (word_of_nat (unat g mod 256)) = g"
proof -
  have "unat g < 65536" using unat_bound [of g] by simp
  then have "unat (word_of_nat (unat g div 256) :: u8) = unat g div 256"
    by (simp add: unat_of_nat less_mult_imp_div_less)
  moreover have "unat (word_of_nat (unat g mod 256) :: u8) = unat g mod 256"
    by (simp add: unat_of_nat)
  ultimately show ?thesis by (simp add: be16_def)
qed

lemma read_ipv6_mapped:
  "read_ipv6_addr (''::ffff:'' @ show_ipv4 (Ipv4 a b c d))
   = Some (ipv6_of [0, 0, 0, 0, 0, 65535, be16 a b, be16 c d], [])"
proof -
  have head: "read_groups 0 8 (''::'' @ s) = ([], False, ''::'' @ s)" for s
    using read_octet_colon [of "CHR '':'' # s"] read_group_stops [of "''::'' @ s" 0]
    by (simp add: numeral_eq_Suc read_separator_def read_ipv4_addr_def after_groups_def)
  have v4: "read_ipv4_addr (show_ipv4 (Ipv4 a b c d)) = Some (Ipv4 a b c d, [])"
    using read_ipv4_show [of "[]" "Ipv4 a b c d"] by (simp del: show_ipv4.simps)
  have oct: "read_octet 0 (CHR ''f'' # s) = None" for s
    by (simp add: read_octet_def read_separator_def read_number_def to_digit_def is_ascii_digit_def)
  have grp: "read_group 0 (''ffff'' @ CHR '':'' # s) = Some (65535, CHR '':'' # s)" for s
    by (simp add: read_group_def read_separator_def read_number_def to_digit_def
        is_ascii_digit_def)
  have "read_groups 0 7 (''ffff:'' @ show_ipv4 (Ipv4 a b c d))
      = ([65535, be16 a b, be16 c d], True, [])"
    using v4 oct grp
    by (simp add: numeral_eq_Suc read_separator_def read_ipv4_addr_def [of "CHR ''f'' # _"]
        read_given_char_def del: show_ipv4.simps)
  with head [of "''ffff:'' @ show_ipv4 (Ipv4 a b c d)"] show ?thesis
    by (simp add: read_ipv6_addr_def read_given_char_def numeral_eq_Suc del: show_ipv4.simps read_groups.simps)
qed

lemma to_ipv4_mapped_SomeD:
  assumes "to_ipv4_mapped a = Some (Ipv4 w x y z)"
  shows "ipv6_of [0, 0, 0, 0, 0, 65535, be16 w x, be16 y z] = a"
proof (cases a)
  case (Ipv6 s1 s2 s3 s4 s5 s6 s7 s8)
  with assms be16_bytes [of s7] be16_bytes [of s8] show ?thesis
    by (auto simp: ipv6_of_def split: if_splits)
qed

lemma read_show_ipv6: "read_ipv6_addr (show_ipv6 a) = Some (a, [])"
proof (cases "to_ipv4_mapped a")
  case (Some v4)
  obtain w x y z where v4: "v4 = Ipv4 w x y z" by (cases v4)
  show ?thesis
    using read_ipv6_mapped [of w x y z] to_ipv4_mapped_SomeD [of a w x y z] Some v4
    by (simp add: show_ipv6_def del: show_ipv4.simps)
next
  case None
  obtain st len where r: "longest_zeros 0 (0, 0) (0, 0) (segments a) = (st, len)"
    by (cases "longest_zeros 0 (0, 0) (0, 0) (segments a)")
  have "zero_run (segments a) (st, len)"
    using longest_zeros_run [of "[]" "segments a" "(0, 0)" "(0, 0)"] r by (simp add: zero_run_def)
  then have run: "segments a = take st (segments a) @ replicate len 0 @ drop (st + len) (segments a)"
    and le: "st + len \<le> 8"
    by (rule zero_run_split) (use \<open>zero_run (segments a) (st, len)\<close> in \<open>simp add: zero_run_def\<close>)
  show ?thesis
  proof (cases "1 < len")
    case True
    have "8 - length (drop (st + len) (segments a)) - length (take st (segments a)) = len"
      using le by simp
    then have "read_ipv6_addr (show_ipv6 a)
        = Some (ipv6_of (take st (segments a) @ replicate len 0 @ drop (st + len) (segments a)), [])"
      using read_ipv6_elided [of "take st (segments a)" "drop (st + len) (segments a)"] True le None r
      by (simp add: show_ipv6_def fmt_subslice_colon_text)
    also have "\<dots> = Some (a, [])" by (simp flip: run)
    finally show ?thesis .
  next
    case False
    then show ?thesis
      using None r read_ipv6_full [of "segments a"]
      by (simp add: show_ipv6_def fmt_subslice_colon_text)
  qed
qed

lemma show_ipv6_not_ipv4: "read_ipv4_addr (show_ipv6 a) = None"
proof (cases "to_ipv4_mapped a")
  case (Some v4)
  then show ?thesis
    using read_octet_colon [of "'':ffff:'' @ show_ipv4 v4"]
    by (simp add: show_ipv6_def read_ipv4_addr_def)
next
  case None
  then have "CHR ''.'' \<notin> set (show_ipv6 a)"
    by (simp add: show_ipv6_def fmt_subslice_colon_text colon_text_no_dot split: prod.split)
  then show ?thesis by (rule read_ipv4_no_dot)
qed

theorem parse_ip_show_ip: "parse_ip (show_ip a) = Some a"
proof (cases a)
  case (V4 x)
  then show ?thesis
    using read_ipv4_show [of "[]" x] by (simp add: parse_ip_def read_ip_addr_def)
next
  case (V6 x)
  then show ?thesis
    by (simp add: parse_ip_def read_ip_addr_def show_ipv6_not_ipv4 read_show_ipv6)
qed

subsection \<open>Size and characters of the printed form\<close>

lemma show_ip_chars: "list_all ip_char (show_ip a)"
  by (rule parse_ip_chars [OF parse_ip_show_ip])

lemma length_show_octet: "length (show_nat (unat (w :: u8))) \<le> 3"
  unfolding show_nat_def using unat_bound [of w] by (intro length_show_radix) simp_all

lemma length_show_ipv4: "length (show_ipv4 a) \<le> 15"
proof (cases a)
  case (Ipv4 w x y z)
  then show ?thesis
    using length_show_octet [of w] length_show_octet [of x] length_show_octet [of y]
      length_show_octet [of z]
    by simp
qed

lemma length_show_hex: "length (show_hex w) \<le> 4"
  unfolding show_hex_def using unat_bound [of w] by (intro length_show_radix) simp_all

lemma length_colon_text: "length (colon_text i gs) \<le> 5 * length gs"
proof (induction gs arbitrary: i)
  case (Cons g gs)
  have "length (colon_text i (g # gs)) \<le> 1 + length (show_hex g) + length (colon_text (Suc i) gs)"
    by simp
  also have "\<dots> \<le> 1 + 4 + 5 * length gs"
    using length_show_hex [of g] Cons.IH [of "Suc i"] by simp
  finally show ?case by simp
qed simp

lemma length_show_ip: "length (show_ip a) \<le> 45"
proof (cases a)
  case (V4 x)
  then show ?thesis using length_show_ipv4 [of x] by simp
next
  case (V6 x)
  show ?thesis
  proof (cases "to_ipv4_mapped x")
    case (Some v4)
    then show ?thesis using V6 length_show_ipv4 [of v4] by (simp add: show_ipv6_def)
  next
    case None
    have "length (colon_text 0 (take st (segments x))) + length (colon_text 0 (drop n (segments x))) \<le> 43"
      if "st + 1 < n" for st n
      using length_colon_text [of 0 "take st (segments x)"] length_colon_text [of 0 "drop n (segments x)"] that
      by simp
    moreover have "length (colon_text 0 (segments x)) \<le> 45"
      using length_colon_text [of 0 "segments x"] by simp
    ultimately show ?thesis
      using V6 None by (auto simp: show_ipv6_def fmt_subslice_colon_text split: prod.split)
  qed
qed

lemma parse_ip_Nil: "parse_ip [] = None"
  by code_simp

lemma show_ip_nonempty: "show_ip a \<noteq> []"
  using parse_ip_show_ip [of a] parse_ip_Nil by auto

end
