(* ===== verification/Contract_Types.thy ===== *)
theory Contract_Types
  imports Ip_Addr
begin

text \<open>
  The data model of \<open>crates/vpn_contracts/src/lib.rs\<close>: protocols, connection phases, the three
  profile types, the control commands, the request and response envelopes, frame errors and the
  state event. Record fields carry a prefix (\<open>wg_\<close>, \<open>awg_\<close>, \<open>vl_\<close>, \<open>cr_\<close>, \<open>rq_\<close>, \<open>rs_\<close>, \<open>ts_\<close>, \<open>se_\<close>)
  because the structs share field names.
\<close>

definition CONTRACT_VERSION :: u32 where
  "CONTRACT_VERSION = 4"

definition MAX_FRAME_SIZE :: nat where
  "MAX_FRAME_SIZE = 32 * 1024"

definition MAGIC :: "u8 list" where
  "MAGIC = as_bytes ''KVPN''"

lemma max_frame_below_usize: "MAX_FRAME_SIZE < usize_limit"
  by (simp add: MAX_FRAME_SIZE_def usize_limit_def)

section \<open>Enumerations\<close>

datatype protocol = WireGuard | AmneziaWg | VlessReality

datatype connection_phase =
    Disconnected
  | Validating
  | Connecting
  | Connected
  | Reconnecting
  | Disconnecting
  | BlockedBySubscription
  | NoNetwork
  | ServerUnavailable
  | Error

fun is_failure :: "connection_phase \<Rightarrow> bool" where
  "is_failure BlockedBySubscription = True"
| "is_failure NoNetwork = True"
| "is_failure ServerUnavailable = True"
| "is_failure Error = True"
| "is_failure _ = False"

text \<open>Both enumerations are finite and enumerated, so that statements over all their values evaluate.\<close>

instantiation protocol :: enum
begin
definition enum_protocol :: "protocol list" where
  "enum_protocol = [WireGuard, AmneziaWg, VlessReality]"
definition enum_all_protocol :: "(protocol \<Rightarrow> bool) \<Rightarrow> bool" where
  "enum_all_protocol P \<longleftrightarrow> list_all P enum_class.enum"
definition enum_ex_protocol :: "(protocol \<Rightarrow> bool) \<Rightarrow> bool" where
  "enum_ex_protocol P \<longleftrightarrow> list_ex P enum_class.enum"
instance
proof
  show univ: "(UNIV :: protocol set) = set enum_class.enum"
    using protocol.exhaust by (auto simp: enum_protocol_def)
  show "distinct (enum_class.enum :: protocol list)"
    by (simp add: enum_protocol_def)
  show "enum_class.enum_all P \<longleftrightarrow> Ball UNIV P" for P :: "protocol \<Rightarrow> bool"
    by (simp only: enum_all_protocol_def univ list_all_iff)
  show "enum_class.enum_ex P \<longleftrightarrow> Bex UNIV P" for P :: "protocol \<Rightarrow> bool"
    by (simp only: enum_ex_protocol_def univ list_ex_iff)
qed
end

instantiation connection_phase :: enum
begin
definition enum_connection_phase :: "connection_phase list" where
  "enum_connection_phase =
     [Disconnected, Validating, Connecting, Connected, Reconnecting, Disconnecting,
      BlockedBySubscription, NoNetwork, ServerUnavailable, Error]"
definition enum_all_connection_phase :: "(connection_phase \<Rightarrow> bool) \<Rightarrow> bool" where
  "enum_all_connection_phase P \<longleftrightarrow> list_all P enum_class.enum"
definition enum_ex_connection_phase :: "(connection_phase \<Rightarrow> bool) \<Rightarrow> bool" where
  "enum_ex_connection_phase P \<longleftrightarrow> list_ex P enum_class.enum"
instance
proof
  show univ: "(UNIV :: connection_phase set) = set enum_class.enum"
    using connection_phase.exhaust by (auto simp: enum_connection_phase_def)
  show "distinct (enum_class.enum :: connection_phase list)"
    by (simp add: enum_connection_phase_def)
  show "enum_class.enum_all P \<longleftrightarrow> Ball UNIV P" for P :: "connection_phase \<Rightarrow> bool"
    by (simp only: enum_all_connection_phase_def univ list_all_iff)
  show "enum_class.enum_ex P \<longleftrightarrow> Bex UNIV P" for P :: "connection_phase \<Rightarrow> bool"
    by (simp only: enum_ex_connection_phase_def univ list_ex_iff)
qed
end

datatype frame_error =
    TooLarge
  | TooShort
  | InvalidMagic
  | UnsupportedVersion
  | UnknownOperation
  | InvalidLength
  | InvalidUtf8
  | InvalidIdentifier
  | InvalidProtocol
  | InvalidBoolean
  | TrailingData
  | InvalidProfile

section \<open>Profiles\<close>

type_synonym secret_key = "u8 list"

record wireguard_profile =
  wg_private_key :: secret_key
  wg_addresses :: "string list"
  wg_dns_servers :: "ip_addr list"
  wg_peer_public_key :: secret_key
  wg_preshared_key :: "secret_key option"
  wg_endpoint_host :: string
  wg_endpoint_port :: u16
  wg_allowed_ips :: "string list"
  wg_persistent_keepalive :: "u16 option"

record amneziawg_profile =
  awg_wireguard :: wireguard_profile
  awg_junk_packet_count :: u16
  awg_junk_packet_min_size :: u16
  awg_junk_packet_max_size :: u16
  awg_init_packet_junk_size :: u16
  awg_response_packet_junk_size :: u16
  awg_init_packet_magic_header :: u16
  awg_response_packet_magic_header :: u16
  awg_transport_packet_magic_header :: string
  awg_init_packet_magic_header_value :: string
  awg_response_packet_magic_header_value :: string
  awg_transport_packet_magic_header_value :: string
  awg_special_junk :: "string list"

record vless_profile =
  vl_client_id :: string
  vl_endpoint_host :: string
  vl_endpoint_port :: u16
  vl_server_name :: string
  vl_fingerprint :: string
  vl_reality_password :: string
  vl_short_id :: string
  vl_spider_x :: string

section \<open>Commands and envelopes\<close>

record connect_request =
  cr_operation_id :: string
  cr_profile_id :: string
  cr_protocol :: protocol
  cr_kill_switch :: bool

text \<open>The three import requests pair an operation identifier with a profile.\<close>

datatype control_command =
    Status
  | Connect connect_request
  | Disconnect string
  | Diagnostics
  | ImportWireGuardProfile string wireguard_profile
  | ImportAmneziaWgProfile string amneziawg_profile
  | ImportVlessRealityProfile string vless_profile
  | DeleteProfile string string
  | Statistics

record request_envelope =
  rq_contract_version :: u32
  rq_request_id :: string
  rq_command :: control_command

record tunnel_statistics =
  ts_bytes_received :: u64
  ts_bytes_sent :: u64
  ts_last_handshake_unix_ms :: "i64 option"

record response_envelope =
  rs_contract_version :: u32
  rs_request_id :: string
  rs_phase :: connection_phase
  rs_profile_id :: "string option"
  rs_kill_switch_active :: bool
  rs_code :: string
  rs_statistics :: "tunnel_statistics option"

record state_event =
  se_contract_version :: u32
  se_phase :: connection_phase
  se_profile_id :: "string option"
  se_kill_switch_active :: bool
  se_error_code :: "string option"

definition default_state_event :: state_event where
  "default_state_event =
     \<lparr>se_contract_version = CONTRACT_VERSION, se_phase = Disconnected, se_profile_id = None,
      se_kill_switch_active = False, se_error_code = None\<rparr>"

section \<open>What the Rust types guarantee\<close>

text \<open>
  A \<open>SecretKey\<close> is a \<open>[u8; 32]\<close> and a \<open>String\<close> is well-formed UTF-8. These are facts of the Rust types,
  not checks of the code; \<open>wt_profile\<close> and its kin state them of the lists that model the values.
\<close>

definition wt_key :: "secret_key \<Rightarrow> bool" where
  "wt_key k \<longleftrightarrow> length k = 32"

definition wt_wireguard :: "wireguard_profile \<Rightarrow> bool" where
  "wt_wireguard p \<longleftrightarrow>
     wt_key (wg_private_key p) \<and> wt_key (wg_peer_public_key p)
     \<and> (case wg_preshared_key p of None \<Rightarrow> True | Some k \<Rightarrow> wt_key k)
     \<and> list_all valid_utf8 (wg_addresses p) \<and> list_all valid_utf8 (wg_allowed_ips p)
     \<and> valid_utf8 (wg_endpoint_host p)"

definition wt_amneziawg :: "amneziawg_profile \<Rightarrow> bool" where
  "wt_amneziawg p \<longleftrightarrow>
     wt_wireguard (awg_wireguard p)
     \<and> list_all valid_utf8
         [awg_transport_packet_magic_header p, awg_init_packet_magic_header_value p,
          awg_response_packet_magic_header_value p, awg_transport_packet_magic_header_value p]
     \<and> list_all valid_utf8 (awg_special_junk p)"

definition wt_vless :: "vless_profile \<Rightarrow> bool" where
  "wt_vless p \<longleftrightarrow>
     list_all valid_utf8
       [vl_client_id p, vl_endpoint_host p, vl_server_name p, vl_fingerprint p,
        vl_reality_password p, vl_short_id p, vl_spider_x p]"

primrec wt_command :: "control_command \<Rightarrow> bool" where
  "wt_command Status = True"
| "wt_command (Connect c) = (valid_utf8 (cr_operation_id c) \<and> valid_utf8 (cr_profile_id c))"
| "wt_command (Disconnect operation) = valid_utf8 operation"
| "wt_command Diagnostics = True"
| "wt_command (ImportWireGuardProfile operation p) = (valid_utf8 operation \<and> wt_wireguard p)"
| "wt_command (ImportAmneziaWgProfile operation p) = (valid_utf8 operation \<and> wt_amneziawg p)"
| "wt_command (ImportVlessRealityProfile operation p) = (valid_utf8 operation \<and> wt_vless p)"
| "wt_command (DeleteProfile operation profile) = (valid_utf8 operation \<and> valid_utf8 profile)"
| "wt_command Statistics = True"

definition wt_request :: "request_envelope \<Rightarrow> bool" where
  "wt_request r \<longleftrightarrow> valid_utf8 (rq_request_id r) \<and> wt_command (rq_command r)"

end
