(* ===== verification/Contract_Validate.thy ===== *)
theory Contract_Validate
  imports Contract_Types
begin

text \<open>
  The validators of \<open>crates/vpn_contracts/src/lib.rs\<close>: identifiers, UUIDs, endpoint hosts, networks,
  numeric ranges and the three \<open>validate\<close> methods, with what acceptance says about the characters
  of each field (no blank, no quote, no line break can pass), which the codec and the engine
  configuration theories use.
\<close>

section \<open>Definitions\<close>

definition identifier_char :: "char \<Rightarrow> bool" where
  "identifier_char c \<longleftrightarrow> is_ascii_alphanumeric c \<or> c = CHR ''-'' \<or> c = CHR ''_''"

definition validate_identifier :: "string \<Rightarrow> frame_error + unit" where
  "validate_identifier value =
     reject_if (value = [] \<or> 64 < length value \<or> \<not> list_all identifier_char value) InvalidIdentifier"

definition uuid_char :: "nat \<Rightarrow> char \<Rightarrow> bool" where
  "uuid_char index c =
     (if index \<in> {8, 13, 18, 23} then c = CHR ''-'' else is_ascii_hexdigit c)"

definition validate_uuid :: "string \<Rightarrow> frame_error + unit" where
  "validate_uuid value =
     reject_if (length value \<noteq> 36
                \<or> list_ex (\<lambda>(i, c). \<not> uuid_char i c) (enumerate 0 value)) InvalidProfile"

definition u32_max :: nat where
  "u32_max = 4294967295"

definition validate_numeric_range :: "string \<Rightarrow> frame_error + unit" where
  "validate_numeric_range value =
     (case split_on (CHR ''-'') value of
        [] \<Rightarrow> Inl InvalidProfile
      | first # parts \<Rightarrow>
          if first = [] \<or> \<not> list_all is_ascii_digit first then Inl InvalidProfile
          else and_then (ok_or InvalidProfile (parse_unsigned u32_max first)) (\<lambda>start.
            case parts of
              [] \<Rightarrow> Inr ()
            | end_part # others \<Rightarrow>
                if end_part = [] \<or> \<not> list_all is_ascii_digit end_part then Inl InvalidProfile
                else and_then (ok_or InvalidProfile (parse_unsigned u32_max end_part)) (\<lambda>end_value.
                  reject_if (end_value < start \<or> others \<noteq> []) InvalidProfile)))"

definition validate_network :: "string \<Rightarrow> frame_error + unit" where
  "validate_network value =
     (case split_once (CHR ''/'') value of
        None \<Rightarrow> Inl InvalidProfile
      | Some (address, prefix) \<Rightarrow>
          and_then (ok_or InvalidProfile (parse_ip address)) (\<lambda>ip.
          and_then (ok_or InvalidProfile (parse_unsigned 255 prefix)) (\<lambda>bits.
            reject_if ((if is_ipv4 ip then 32 else 128) < bits) InvalidProfile)))"

primrec validate_each_network :: "string list \<Rightarrow> frame_error + unit" where
  "validate_each_network [] = Inr ()"
| "validate_each_network (v # vs) = and_then (validate_network v) (\<lambda>_. validate_each_network vs)"

definition validate_networks :: "string list \<Rightarrow> nat \<Rightarrow> nat \<Rightarrow> frame_error + unit" where
  "validate_networks values minimum maximum =
     (if length values < minimum \<or> maximum < length values then Inl InvalidProfile
      else validate_each_network values)"

definition host_label :: "string \<Rightarrow> bool" where
  "host_label label \<longleftrightarrow>
     label \<noteq> [] \<and> length label \<le> 63 \<and> \<not> starts_with ''-'' label \<and> \<not> ends_with ''-'' label
     \<and> list_all (\<lambda>c. is_ascii_alphanumeric c \<or> c = CHR ''-'') label"

definition validate_endpoint_host :: "string \<Rightarrow> frame_error + unit" where
  "validate_endpoint_host value =
     (if parse_ip value \<noteq> None then Inr ()
      else reject_if
        (value = [] \<or> 253 < length value \<or> starts_with ''.'' value \<or> ends_with ''.'' value
         \<or> list_ex (\<lambda>label. \<not> host_label label) (split_on (CHR ''.'') value)) InvalidProfile)"

definition all_zero :: "secret_key \<Rightarrow> bool" where
  "all_zero k \<longleftrightarrow> list_all (\<lambda>b. b = 0) k"

definition validate_wireguard :: "wireguard_profile \<Rightarrow> frame_error + unit" where
  "validate_wireguard p =
     and_then (reject_if (all_zero (wg_private_key p) \<or> all_zero (wg_peer_public_key p)
         \<or> (case wg_preshared_key p of None \<Rightarrow> False | Some key \<Rightarrow> all_zero key)) InvalidProfile) (\<lambda>_.
     and_then (validate_networks (wg_addresses p) 1 8) (\<lambda>_.
     and_then (reject_if (8 < length (wg_dns_servers p)) InvalidProfile) (\<lambda>_.
     and_then (validate_endpoint_host (wg_endpoint_host p)) (\<lambda>_.
     and_then (reject_if (wg_endpoint_port p = 0) InvalidProfile) (\<lambda>_.
     and_then (validate_networks (wg_allowed_ips p) 1 32) (\<lambda>_.
     reject_if (wg_persistent_keepalive p = Some 0) InvalidProfile))))))"

primrec validate_each_range :: "string list \<Rightarrow> frame_error + unit" where
  "validate_each_range [] = Inr ()"
| "validate_each_range (v # vs) =
     and_then (validate_numeric_range v) (\<lambda>_. validate_each_range vs)"

definition valid_junk :: "string \<Rightarrow> bool" where
  "valid_junk value \<longleftrightarrow> value \<noteq> [] \<and> length value \<le> 4096 \<and> \<not> list_ex is_control (chars value)"

definition validate_amneziawg :: "amneziawg_profile \<Rightarrow> frame_error + unit" where
  "validate_amneziawg p =
     and_then (validate_wireguard (awg_wireguard p)) (\<lambda>_.
     and_then (reject_if
        (10 < awg_junk_packet_count p
         \<or> \<not> (64 \<le> awg_junk_packet_min_size p \<and> awg_junk_packet_min_size p \<le> 1024)
         \<or> \<not> (64 \<le> awg_junk_packet_max_size p \<and> awg_junk_packet_max_size p \<le> 1024)
         \<or> awg_junk_packet_max_size p < awg_junk_packet_min_size p
         \<or> 64 < awg_init_packet_junk_size p
         \<or> 64 < awg_response_packet_junk_size p
         \<or> 64 < awg_init_packet_magic_header p
         \<or> 32 < awg_response_packet_magic_header p
         \<or> 5 < length (awg_special_junk p)) InvalidProfile) (\<lambda>_.
     and_then (validate_each_range
        [awg_transport_packet_magic_header p, awg_init_packet_magic_header_value p,
         awg_response_packet_magic_header_value p, awg_transport_packet_magic_header_value p]) (\<lambda>_.
     reject_if (list_ex (\<lambda>value. \<not> valid_junk value) (awg_special_junk p)) InvalidProfile)))"

definition validate_vless :: "vless_profile \<Rightarrow> frame_error + unit" where
  "validate_vless p =
     and_then (validate_uuid (vl_client_id p)) (\<lambda>_.
     and_then (validate_endpoint_host (vl_endpoint_host p)) (\<lambda>_.
     and_then (reject_if (vl_endpoint_port p = 0) InvalidProfile) (\<lambda>_.
     and_then (validate_endpoint_host (vl_server_name p)) (\<lambda>_.
     reject_if
       (vl_fingerprint p \<noteq> ''chrome''
        \<or> length (vl_reality_password p) \<noteq> 43
        \<or> \<not> list_all identifier_char (vl_reality_password p)
        \<or> 16 < length (vl_short_id p)
        \<or> length (vl_short_id p) mod 2 \<noteq> 0
        \<or> \<not> list_all is_ascii_hexdigit (vl_short_id p)
        \<or> vl_spider_x p \<noteq> ''/'') InvalidProfile))))"

section \<open>Identifiers\<close>

definition ident :: "string \<Rightarrow> bool" where
  "ident s \<longleftrightarrow> s \<noteq> [] \<and> length s \<le> 64 \<and> list_all identifier_char s"

lemma validate_identifier_iff [simp]: "validate_identifier s = Inr u \<longleftrightarrow> ident s"
  by (auto simp: validate_identifier_def ident_def result_simps)

lemma validate_identifier_Inl [simp]:
  "validate_identifier s = Inl e \<longleftrightarrow> \<not> ident s \<and> e = InvalidIdentifier"
  by (auto simp: validate_identifier_def ident_def result_simps)

lemma ident_accepted [simp]: "ident s \<Longrightarrow> validate_identifier s = Inr ()"
  by simp

lemma identifier_char_graphic: "identifier_char c \<Longrightarrow> is_graphic c"
  by (auto simp: identifier_char_def intro: graphic_intros)

lemma identifier_graphic: "ident s \<Longrightarrow> list_all is_graphic s"
  by (auto simp: ident_def elim!: list_all_mono_strong intro: identifier_char_graphic)

lemma identifier_utf8: "ident s \<Longrightarrow> valid_utf8 s"
  by (intro valid_utf8_graphic identifier_graphic)

lemma identifier_trim: "ident s \<Longrightarrow> trim s \<noteq> []"
  using identifier_graphic [of s] trim_graphic [of s] by (simp add: ident_def)

section \<open>Characters of accepted fields\<close>

lemma validate_network_chars:
  assumes "validate_network v = Inr u"
  shows "list_all is_graphic v" "v \<noteq> []"
proof -
  from assms obtain a p ip bits where
    v: "split_once (CHR ''/'') v = Some (a, p)"
    and ip: "parse_ip a = Some ip" and bits: "parse_unsigned 255 p = Some bits"
    by (auto simp: validate_network_def result_simps split: option.splits)
  have "list_all is_graphic a"
    using parse_ip_chars [OF ip] by (rule list_all_mono_strong) (rule ip_char_graphic)
  moreover have "list_all is_graphic p" using bits by (rule parse_unsigned_SomeD)
  ultimately show "list_all is_graphic v" "v \<noteq> []"
    using split_once_SomeD [OF v] by (auto simp: is_graphic_def)
qed

lemma validate_each_network_iff:
  "validate_each_network vs = Inr u \<longleftrightarrow> (\<forall>v \<in> set vs. validate_network v = Inr ())"
  by (induction vs) (auto simp: result_simps)

lemma validate_networks_SomeD:
  "validate_networks vs lo hi = Inr u \<Longrightarrow>
   lo \<le> length vs \<and> length vs \<le> hi \<and> list_all (\<lambda>v. list_all is_graphic v \<and> v \<noteq> []) vs"
  by (auto simp: validate_networks_def validate_each_network_iff list_all_iff [of _ vs]
      dest: validate_network_chars split: if_splits)

lemma host_label_chars: "host_label l \<Longrightarrow> list_all is_graphic l"
  by (auto simp: host_label_def elim!: list_all_mono_strong intro: graphic_intros)

lemma validate_host_chars:
  assumes "validate_endpoint_host v = Inr u"
  shows "list_all is_graphic v" "v \<noteq> []"
    "list_all (\<lambda>c. is_ascii_alphanumeric c \<or> c = CHR ''-'' \<or> c = CHR ''.'' \<or> c = CHR '':'') v"
proof -
  let ?P = "\<lambda>c. is_ascii_alphanumeric c \<or> c = CHR ''-'' \<or> c = CHR ''.'' \<or> c = CHR '':''"
  have "list_all ?P v \<and> v \<noteq> []"
  proof (cases "parse_ip v")
    case (Some a)
    have "list_all ?P v"
      using parse_ip_chars [OF Some] by (rule list_all_mono_strong) (auto simp: ip_char_def ascii_defs)
    with Some parse_ip_Nil show ?thesis by auto
  next
    case None
    with assms have ne: "v \<noteq> []" and labels: "\<forall>l \<in> set (split_on (CHR ''.'') v). host_label l"
      by (auto simp: validate_endpoint_host_def result_simps list_ex_iff)
    have "?P c" if "c \<in> set v" for c
      using set_via_parts [OF that, of "CHR ''.''"] labels
      by (auto simp: host_label_def list_all_iff)
    with ne show ?thesis by (auto simp: list_all_iff)
  qed
  then show "list_all ?P v" "v \<noteq> []" by auto
  from this(1) show "list_all is_graphic v"
    by (rule list_all_mono_strong) (auto intro: graphic_intros)
qed

lemma validate_uuid_chars:
  assumes "validate_uuid v = Inr u"
  shows "length v = 36" "list_all (\<lambda>c. is_ascii_hexdigit c \<or> c = CHR ''-'') v"
proof -
  from assms show "length v = 36" by (auto simp: validate_uuid_def result_simps)
  from assms have "\<forall>i < length v. uuid_char i (v ! i)"
    by (auto simp: validate_uuid_def result_simps list_ex_iff in_set_enumerate_eq)
  then show "list_all (\<lambda>c. is_ascii_hexdigit c \<or> c = CHR ''-'') v"
    by (auto simp: list_all_length uuid_char_def split: if_splits)
qed

lemma validate_numeric_range_chars:
  assumes "validate_numeric_range v = Inr u"
  shows "list_all (\<lambda>c. is_ascii_digit c \<or> c = CHR ''-'') v" "v \<noteq> []"
proof -
  obtain first parts where sp: "split_on (CHR ''-'') v = first # parts"
    using split_on_nonempty [of "CHR ''-''" v] by (cases "split_on (CHR ''-'') v") auto
  have ok: "first \<noteq> [] \<and> list_all is_ascii_digit first
      \<and> (parts = [] \<or> (\<exists>q. parts = [q] \<and> list_all is_ascii_digit q))"
    using assms sp
    by (cases parts) (auto simp: validate_numeric_range_def result_simps split: if_splits)
  then have "\<forall>p \<in> set (split_on (CHR ''-'') v). list_all is_ascii_digit p"
    using sp by auto
  then show "list_all (\<lambda>c. is_ascii_digit c \<or> c = CHR ''-'') v"
    using set_via_parts [of _ v "CHR ''-''"] by (fastforce simp: list_all_iff)
  show "v \<noteq> []" using ok sp by auto
qed

lemma graphic_of_digits_dash:
  "list_all (\<lambda>c. is_ascii_digit c \<or> c = CHR ''-'') v \<Longrightarrow> list_all is_graphic v"
  by (erule list_all_mono_strong) (auto intro: graphic_intros)

lemma validate_each_range_iff:
  "validate_each_range vs = Inr u \<longleftrightarrow> (\<forall>v \<in> set vs. validate_numeric_range v = Inr ())"
  by (induction vs) (auto simp: result_simps)

section \<open>Every rejection of a profile is \<open>InvalidProfile\<close>\<close>

lemma validate_network_Inl: "validate_network v = Inl e \<Longrightarrow> e = InvalidProfile"
  by (auto simp: validate_network_def result_simps split: option.splits)

lemma validate_each_network_Inl: "validate_each_network vs = Inl e \<Longrightarrow> e = InvalidProfile"
  by (induction vs) (auto simp: result_simps dest: validate_network_Inl)

lemma validate_networks_Inl: "validate_networks vs lo hi = Inl e \<Longrightarrow> e = InvalidProfile"
  by (auto simp: validate_networks_def dest: validate_each_network_Inl split: if_splits)

lemma validate_host_Inl: "validate_endpoint_host v = Inl e \<Longrightarrow> e = InvalidProfile"
  by (auto simp: validate_endpoint_host_def result_simps split: if_splits)

lemma validate_range_Inl: "validate_numeric_range v = Inl e \<Longrightarrow> e = InvalidProfile"
proof -
  assume rejected: "validate_numeric_range v = Inl e"
  obtain first parts where "split_on (CHR ''-'') v = first # parts"
    using split_on_nonempty [of "CHR ''-''" v] by (cases "split_on (CHR ''-'') v") auto
  with rejected show ?thesis
    by (cases parts) (auto simp: validate_numeric_range_def result_simps split: if_splits)
qed

lemma validate_each_range_Inl: "validate_each_range vs = Inl e \<Longrightarrow> e = InvalidProfile"
  by (induction vs) (auto simp: result_simps dest: validate_range_Inl)

lemma validate_uuid_Inl: "validate_uuid v = Inl e \<Longrightarrow> e = InvalidProfile"
  by (auto simp: validate_uuid_def result_simps)

lemmas validate_field_Inl = validate_networks_Inl validate_host_Inl validate_each_range_Inl
  validate_uuid_Inl

lemma validate_wireguard_Inl: "validate_wireguard p = Inl e \<Longrightarrow> e = InvalidProfile"
  by (auto simp: validate_wireguard_def result_simps dest: validate_field_Inl)

lemma validate_amneziawg_Inl: "validate_amneziawg p = Inl e \<Longrightarrow> e = InvalidProfile"
  by (auto simp: validate_amneziawg_def result_simps simp del: validate_each_range.simps
      dest: validate_field_Inl validate_wireguard_Inl)

lemma validate_vless_Inl: "validate_vless p = Inl e \<Longrightarrow> e = InvalidProfile"
  by (auto simp: validate_vless_def result_simps dest: validate_field_Inl)

end
