(* ===== verification/Contract_Cursor.thy ===== *)
theory Contract_Cursor
  imports Contract_Validate
begin

text \<open>
  The primitive encoders (\<open>put_string\<close> and its kin) and the decoder \<open>Cursor\<close> of
  \<open>crates/vpn_contracts/src/lib.rs\<close>, and the two interfaces the message codecs are built on: a field
  codec (what was put is read back and the rest of the input is left alone) and its extension
  with a size bound. Each primitive pair interprets both.
\<close>

section \<open>Encoders\<close>

definition try_u8 :: "nat \<Rightarrow> u8 option" where
  "try_u8 n = (if n < 256 then Some (word_of_nat n) else None)"

definition try_u16 :: "nat \<Rightarrow> u16 option" where
  "try_u16 n = (if n < 65536 then Some (word_of_nat n) else None)"

definition put_string :: "u8 list \<Rightarrow> string \<Rightarrow> frame_error + u8 list" where
  "put_string target value =
     and_then (validate_identifier value) (\<lambda>_.
     and_then (ok_or InvalidIdentifier (try_u8 (length value))) (\<lambda>n.
       Inr (target @ [n] @ as_bytes value)))"

definition put_bounded_string :: "nat \<Rightarrow> u8 list \<Rightarrow> string \<Rightarrow> frame_error + u8 list" where
  "put_bounded_string maximum target value =
     (if value = [] \<or> maximum < length value \<or> 0 \<in> set (as_bytes value) then Inl InvalidProfile
      else and_then (ok_or InvalidProfile (try_u8 (length value))) (\<lambda>n.
        Inr (target @ [n] @ as_bytes value)))"

definition put_optional_bounded_string :: "nat \<Rightarrow> u8 list \<Rightarrow> string \<Rightarrow> frame_error + u8 list" where
  "put_optional_bounded_string maximum target value =
     (if maximum < length value \<or> 0 \<in> set (as_bytes value) then Inl InvalidProfile
      else and_then (ok_or InvalidProfile (try_u8 (length value))) (\<lambda>n.
        Inr (target @ [n] @ as_bytes value)))"

definition put_long_string :: "u8 list \<Rightarrow> string \<Rightarrow> frame_error + u8 list" where
  "put_long_string target value =
     (if value = [] \<or> 4096 < length value \<or> list_ex is_control (chars value) then Inl InvalidProfile
      else and_then (ok_or InvalidProfile (try_u16 (length value))) (\<lambda>n.
        Inr (target @ u16_to_le n @ as_bytes value)))"

text \<open>\<open>for value in values { put(target, value)?; }\<close>\<close>

primrec put_each ::
  "(u8 list \<Rightarrow> 'a \<Rightarrow> frame_error + u8 list) \<Rightarrow> u8 list \<Rightarrow> 'a list \<Rightarrow> frame_error + u8 list" where
  "put_each put target [] = Inr target"
| "put_each put target (v # vs) = and_then (put target v) (\<lambda>t. put_each put t vs)"

definition put_string_list :: "u8 list \<Rightarrow> string list \<Rightarrow> frame_error + u8 list" where
  "put_string_list target values =
     and_then (ok_or InvalidProfile (try_u8 (length values))) (\<lambda>count.
       put_each (put_bounded_string 253) (target @ [count]) values)"

text \<open>The \<open>match\<close> that writes the flag 1 and a value, or the flag 0.\<close>

definition put_option ::
  "(u8 list \<Rightarrow> 'a \<Rightarrow> frame_error + u8 list) \<Rightarrow> u8 list \<Rightarrow> 'a option \<Rightarrow> frame_error + u8 list" where
  "put_option put target v =
     (case v of None \<Rightarrow> Inr (target @ [0]) | Some x \<Rightarrow> put (target @ [1]) x)"

text \<open>\<open>target.extend_from_slice(...)\<close>, which cannot fail.\<close>

definition put_bytes :: "u8 list \<Rightarrow> u8 list \<Rightarrow> frame_error + u8 list" where
  "put_bytes target bs = Inr (target @ bs)"

definition put_u16 :: "u8 list \<Rightarrow> u16 \<Rightarrow> frame_error + u8 list" where
  "put_u16 target w = Inr (target @ u16_to_le w)"

definition put_u64 :: "u8 list \<Rightarrow> u64 \<Rightarrow> frame_error + u8 list" where
  "put_u64 target w = Inr (target @ u64_to_le w)"

definition put_bool :: "u8 list \<Rightarrow> bool \<Rightarrow> frame_error + u8 list" where
  "put_bool target b = Inr (target @ [if b then 1 else 0])"

section \<open>The cursor\<close>

record cursor =
  cu_bytes :: "u8 list"
  cu_offset :: nat

type_synonym 'a decoder = "cursor \<Rightarrow> frame_error + 'a \<times> cursor"

definition cursor_new :: "u8 list \<Rightarrow> cursor" where
  "cursor_new bs = \<lparr>cu_bytes = bs, cu_offset = 0\<rparr>"

definition checked_add :: "nat \<Rightarrow> nat \<Rightarrow> nat option" where
  "checked_add a b = (if a + b < usize_limit then Some (a + b) else None)"

definition slice_get :: "'a list \<Rightarrow> nat \<Rightarrow> nat \<Rightarrow> 'a list option" where
  "slice_get xs a b = (if a \<le> b \<and> b \<le> length xs then Some (take (b - a) (drop a xs)) else None)"

definition cursor_byte :: "u8 decoder" where
  "cursor_byte c =
     (if cu_offset c < length (cu_bytes c)
      then Inr (cu_bytes c ! cu_offset c, c\<lparr>cu_offset := cu_offset c + 1\<rparr>)
      else Inl InvalidLength)"

definition cursor_bytes :: "nat \<Rightarrow> u8 list decoder" where
  "cursor_bytes n c =
     and_then (ok_or InvalidLength (checked_add (cu_offset c) n)) (\<lambda>end_offset.
     and_then (ok_or InvalidLength (slice_get (cu_bytes c) (cu_offset c) end_offset)) (\<lambda>bs.
       Inr (bs, c\<lparr>cu_offset := end_offset\<rparr>)))"

definition cursor_string :: "string decoder" where
  "cursor_string c =
     and_then (cursor_byte c) (\<lambda>(n, c).
     and_then (cursor_bytes (unat n) c) (\<lambda>(bs, c).
     and_then (ok_or InvalidUtf8 (from_utf8 bs)) (\<lambda>s. Inr (s, c))))"

definition cursor_u16 :: "u16 decoder" where
  "cursor_u16 c = and_then (cursor_bytes 2 c) (\<lambda>(bs, c). Inr (u16_from_le bs, c))"

definition cursor_u64 :: "u64 decoder" where
  "cursor_u64 c = and_then (cursor_bytes 8 c) (\<lambda>(bs, c). Inr (u64_from_le bs, c))"

definition cursor_i64 :: "i64 decoder" where
  "cursor_i64 c = and_then (cursor_bytes 8 c) (\<lambda>(bs, c). Inr (u64_from_le bs, c))"

definition cursor_long_string :: "string decoder" where
  "cursor_long_string c =
     and_then (cursor_u16 c) (\<lambda>(n, c).
       if n = 0 \<or> 4096 < unat n then Inl InvalidProfile
       else and_then (cursor_bytes (unat n) c) (\<lambda>(bs, c).
         and_then (ok_or InvalidUtf8 (from_utf8 bs)) (\<lambda>s.
           if list_ex is_control (chars s) then Inl InvalidProfile else Inr (s, c))))"

definition cursor_bounded_string :: "string decoder" where
  "cursor_bounded_string c =
     and_then (cursor_string c) (\<lambda>(s, c).
       if s = [] \<or> 0 \<in> set (as_bytes s) then Inl InvalidProfile else Inr (s, c))"

definition cursor_optional_bounded_string :: "string decoder" where
  "cursor_optional_bounded_string c =
     and_then (cursor_byte c) (\<lambda>(n, c).
     and_then (cursor_bytes (unat n) c) (\<lambda>(bs, c).
     and_then (ok_or InvalidUtf8 (from_utf8 bs)) (\<lambda>s. Inr (s, c))))"

text \<open>\<open>(0..count).map(|_| get()).collect()\<close>, which stops at the first error.\<close>

primrec cursor_repeat :: "nat \<Rightarrow> 'a decoder \<Rightarrow> 'a list decoder" where
  "cursor_repeat 0 get c = Inr ([], c)"
| "cursor_repeat (Suc n) get c =
     and_then (get c) (\<lambda>(x, c). and_then (cursor_repeat n get c) (\<lambda>(xs, c). Inr (x # xs, c)))"

definition cursor_string_list :: "nat \<Rightarrow> string list decoder" where
  "cursor_string_list maximum c =
     and_then (cursor_byte c) (\<lambda>(count, c).
       if maximum < unat count then Inl InvalidProfile
       else cursor_repeat (unat count) cursor_bounded_string c)"

text \<open>The \<open>match self.byte()?\<close> that reads a flag and, after 1, a value.\<close>

definition cursor_option :: "'a decoder \<Rightarrow> 'a option decoder" where
  "cursor_option get c =
     and_then (cursor_byte c) (\<lambda>(flag, c).
       if flag = 0 then Inr (None, c)
       else if flag = 1 then and_then (get c) (\<lambda>(x, c). Inr (Some x, c))
       else Inl InvalidBoolean)"

definition cursor_bool :: "bool decoder" where
  "cursor_bool c =
     and_then (cursor_byte c) (\<lambda>(flag, c).
       if flag = 0 then Inr (False, c) else if flag = 1 then Inr (True, c) else Inl InvalidBoolean)"

definition cursor_finished :: "cursor \<Rightarrow> bool" where
  "cursor_finished c \<longleftrightarrow> cu_offset c = length (cu_bytes c)"

section \<open>Reading an encoded prefix\<close>

text \<open>The bytes a cursor still has to read; a slice in memory is shorter than \<open>usize\<close> can count.\<close>

definition at_bytes :: "cursor \<Rightarrow> u8 list \<Rightarrow> bool" where
  "at_bytes c bs \<longleftrightarrow>
     cu_offset c \<le> length (cu_bytes c) \<and> length (cu_bytes c) < usize_limit
     \<and> drop (cu_offset c) (cu_bytes c) = bs"

definition reads :: "'a decoder \<Rightarrow> u8 list \<Rightarrow> 'a \<Rightarrow> bool" where
  "reads get enc x \<longleftrightarrow>
     (\<forall>c rest. at_bytes c (enc @ rest) \<longrightarrow> (\<exists>c'. get c = Inr (x, c') \<and> at_bytes c' rest))"

lemma readsI:
  "(\<And>c rest. at_bytes c (enc @ rest) \<Longrightarrow> \<exists>c'. get c = Inr (x, c') \<and> at_bytes c' rest) \<Longrightarrow> reads get enc x"
  by (simp add: reads_def)

lemma readsE:
  assumes "reads get enc x" "at_bytes c (enc @ rest)"
  obtains c' where "get c = Inr (x, c')" "at_bytes c' rest"
  using assms by (auto simp: reads_def)

lemma at_bytes_new: "length bs < usize_limit \<Longrightarrow> at_bytes (cursor_new bs) bs"
  by (simp add: at_bytes_def cursor_new_def)

lemma at_bytes_finished: "at_bytes c [] \<Longrightarrow> cursor_finished c"
  by (auto simp: at_bytes_def cursor_finished_def)

lemma at_bytes_not_finished: "at_bytes c (b # bs) \<Longrightarrow> \<not> cursor_finished c"
  by (auto simp: at_bytes_def cursor_finished_def)

named_theorems reads_intros \<open>composing decoders that read back an encoding\<close>

lemma reads_return [reads_intros]: "reads (\<lambda>c. Inr (x, c)) [] x"
  by (auto intro: readsI)

lemma reads_bind:
  assumes "reads g enc x" and "reads (h x) enc' y"
  shows "reads (\<lambda>c. and_then (g c) (\<lambda>(x, c). h x c)) (enc @ enc') y"
proof (rule readsI)
  fix c rest
  assume "at_bytes c ((enc @ enc') @ rest)"
  then obtain c1 where "g c = Inr (x, c1)" "at_bytes c1 (enc' @ rest)"
    using assms(1) by (auto elim: readsE)
  moreover obtain c2 where "h x c1 = Inr (y, c2)" "at_bytes c2 rest"
    using assms(2) calculation(2) by (auto elim: readsE)
  ultimately show "\<exists>c'. and_then (g c) (\<lambda>(x, c). h x c) = Inr (y, c') \<and> at_bytes c' rest"
    by simp
qed

text \<open>The same read backwards: the decoder in the goal fixes the continuation.\<close>

lemma reads_bindI:
  "reads g enc x \<Longrightarrow> enc0 = enc @ enc' \<Longrightarrow> reads (h x) enc' y \<Longrightarrow>
   reads (\<lambda>c. and_then (g c) (\<lambda>(x, c). h x c)) enc0 y"
  using reads_bind [of g enc x h enc' y] by simp

lemma reads_bind_lastI:
  "reads g enc x \<Longrightarrow> reads (h x) [] y \<Longrightarrow> reads (\<lambda>c. and_then (g c) (\<lambda>(x, c). h x c)) enc y"
  by (rule reads_bindI) auto

lemma reads_map:
  "reads g enc x \<Longrightarrow> reads (\<lambda>c. and_then (g c) (\<lambda>(x, c). Inr (f x, c))) enc (f x)"
  using reads_bind [of g enc x "\<lambda>x c. Inr (f x, c)" "[]" "f x"] by (simp add: reads_return)

lemma reads_cong: "reads g enc x \<Longrightarrow> (\<And>c. g c = h c) \<Longrightarrow> reads h enc x"
  by (simp add: reads_def)

lemma reads_byte: "reads cursor_byte [b] b"
proof (rule readsI)
  fix c rest
  assume a: "at_bytes c ([b] @ rest)"
  then have lt: "cu_offset c < length (cu_bytes c)"
    by (metis append_Cons at_bytes_def drop_all leI list.distinct(1))
  with a have "cu_bytes c ! cu_offset c = b \<and> drop (Suc (cu_offset c)) (cu_bytes c) = rest"
    by (auto simp: at_bytes_def Cons_nth_drop_Suc [symmetric])
  with a lt show "\<exists>c'. cursor_byte c = Inr (b, c') \<and> at_bytes c' rest"
    by (auto simp: cursor_byte_def at_bytes_def)
qed

lemma reads_bytes: "length enc = n \<Longrightarrow> reads (cursor_bytes n) enc enc"
proof (rule readsI)
  fix c rest
  assume n: "length enc = n" and a: "at_bytes c (enc @ rest)"
  have "length (drop (cu_offset c) (cu_bytes c)) = n + length rest"
    using a n by (simp add: at_bytes_def del: length_drop)
  then have le: "cu_offset c + n \<le> length (cu_bytes c)"
    using a by (auto simp: at_bytes_def)
  have "drop (cu_offset c + n) (cu_bytes c) = drop n (drop (cu_offset c) (cu_bytes c))"
    by (simp add: add.commute)
  also have "\<dots> = rest" using a n by (simp add: at_bytes_def del: drop_drop)
  finally show "\<exists>c'. cursor_bytes n c = Inr (enc, c') \<and> at_bytes c' rest"
    using a n le by (auto simp: cursor_bytes_def checked_add_def slice_get_def at_bytes_def)
qed

lemma reads_u16: "reads cursor_u16 (u16_to_le w) w"
  using reads_map [OF reads_bytes [of "u16_to_le w" 2, simplified], of u16_from_le]
  by (simp add: cursor_u16_def [abs_def])

lemma reads_u64: "reads cursor_u64 (u64_to_le w) w"
  using reads_map [OF reads_bytes [of "u64_to_le w" 8, simplified], of u64_from_le]
  by (simp add: cursor_u64_def [abs_def])

lemma reads_i64: "reads cursor_i64 (u64_to_le w) w"
  using reads_u64 by (rule reads_cong) (simp_all add: cursor_i64_def cursor_u64_def)

lemma try_u8_SomeD: "try_u8 n = Some w \<Longrightarrow> n < 256 \<and> unat w = n"
  by (auto simp: try_u8_def unat_of_nat split: if_splits)

lemma try_u16_SomeD: "try_u16 n = Some w \<Longrightarrow> n < 65536 \<and> unat w = n"
  by (auto simp: try_u16_def unat_of_nat split: if_splits)

lemma reads_bytes_utf8:
  assumes "valid_utf8 s" "m = length s" "h s = Inr y"
  shows "reads (\<lambda>c. and_then (cursor_bytes m c) (\<lambda>(bs, c).
    and_then (ok_or InvalidUtf8 (from_utf8 bs)) (\<lambda>s. and_then (h s) (\<lambda>y. Inr (y, c))))) (as_bytes s) y"
proof (rule reads_bind_lastI)
  show "reads (cursor_bytes m) (as_bytes s) (as_bytes s)"
    using assms by (simp add: reads_bytes)
  show "reads (\<lambda>c. and_then (ok_or InvalidUtf8 (from_utf8 (as_bytes s)))
      (\<lambda>s. and_then (h s) (\<lambda>y. Inr (y, c)))) [] y"
    using assms by (simp add: from_utf8_as_bytes reads_return)
qed

lemma reads_string:
  assumes "valid_utf8 s" "unat n = length s"
  shows "reads cursor_string (n # as_bytes s) s"
  unfolding cursor_string_def [abs_def]
proof (rule reads_bindI)
  show "reads cursor_byte [n] n" by (rule reads_byte)
  show "n # as_bytes s = [n] @ as_bytes s" by simp
  show "reads (\<lambda>c. and_then (cursor_bytes (unat n) c) (\<lambda>(bs, c).
      and_then (ok_or InvalidUtf8 (from_utf8 bs)) (\<lambda>s. Inr (s, c)))) (as_bytes s) s"
    using reads_bytes_utf8 [OF assms(1), of "unat n" Inr] assms(2) by simp
qed

lemma reads_optional_bounded_string:
  "valid_utf8 s \<Longrightarrow> unat n = length s \<Longrightarrow> reads cursor_optional_bounded_string (n # as_bytes s) s"
  using reads_string [of s n]
  by (simp add: cursor_optional_bounded_string_def [abs_def] cursor_string_def [abs_def])

lemma reads_bounded_string:
  assumes "valid_utf8 s" "unat n = length s" "s \<noteq> []" "0 \<notin> set (as_bytes s)"
  shows "reads cursor_bounded_string (n # as_bytes s) s"
  unfolding cursor_bounded_string_def [abs_def]
  by (rule reads_bind_lastI [OF reads_string]) (use assms in \<open>simp_all add: reads_return\<close>)

lemma reads_long_string:
  assumes "valid_utf8 s" "unat n = length s" "s \<noteq> []" "length s \<le> 4096" "\<not> list_ex is_control (chars s)"
  shows "reads cursor_long_string (u16_to_le n @ as_bytes s) s"
  unfolding cursor_long_string_def [abs_def]
proof (rule reads_bindI)
  show "reads cursor_u16 (u16_to_le n) n" by (rule reads_u16)
  have n: "n \<noteq> 0" using assms(2,3) by auto
  have if_bind: "and_then (if b then Inl e else Inr x) f = (if b then Inl e else f x)"
    for b and e :: frame_error and x :: string and f :: "string \<Rightarrow> frame_error + string \<times> cursor"
    by simp
  show "reads (\<lambda>c. if n = 0 \<or> 4096 < unat n then Inl InvalidProfile
      else and_then (cursor_bytes (unat n) c) (\<lambda>(bs, c).
        and_then (ok_or InvalidUtf8 (from_utf8 bs)) (\<lambda>s.
          if list_ex is_control (chars s) then Inl InvalidProfile else Inr (s, c)))) (as_bytes s) s"
    using reads_bytes_utf8 [OF assms(1), of "unat n"
        "\<lambda>s. if list_ex is_control (chars s) then Inl InvalidProfile else Inr s" s] n assms(2,4,5)
    by (simp add: if_bind)
qed simp

lemma reads_flag:
  "reads (h b) enc y \<Longrightarrow> reads (\<lambda>c. and_then (cursor_byte c) (\<lambda>(flag, c). h flag c)) (b # enc) y"
  using reads_bind [OF reads_byte, of h b enc y] by simp

lemma reads_bool: "reads cursor_bool [if b then 1 else 0] b"
  unfolding cursor_bool_def [abs_def] by (rule reads_flag) (cases b; simp add: reads_return)

lemma reads_option_None: "reads (cursor_option get) [0] None"
  unfolding cursor_option_def [abs_def] by (rule reads_flag) (simp add: reads_return)

lemma reads_option_Some: "reads get enc x \<Longrightarrow> reads (cursor_option get) (1 # enc) (Some x)"
  unfolding cursor_option_def [abs_def] by (rule reads_flag) (simp add: reads_map)

section \<open>The interfaces: field codecs\<close>

text \<open>
  A field codec is a pair of an appending encoder and a decoder. Its one law: where the encoder
  succeeds on a value of the right type, it appended bytes that the decoder reads back.
\<close>

lemma cursor_repeat_Cons:
  "cursor_repeat (length (x # xs)) get c =
   and_then (get c) (\<lambda>(y, c). and_then (cursor_repeat (length xs) get c) (\<lambda>(ys, c). Inr (y # ys, c)))"
  by simp

locale field_codec =
  fixes put :: "u8 list \<Rightarrow> 'a \<Rightarrow> frame_error + u8 list"
    and get :: "'a decoder"
    and typed :: "'a \<Rightarrow> bool"
  assumes put_get: "put t x = Inr t' \<Longrightarrow> typed x \<Longrightarrow> \<exists>enc. t' = t @ enc \<and> reads get enc x"
begin

lemma put_each_get:
  "put_each put t xs = Inr t' \<Longrightarrow> list_all typed xs \<Longrightarrow>
   \<exists>enc. t' = t @ enc \<and> reads (cursor_repeat (length xs) get) enc xs"
proof (induction xs arbitrary: t)
  case Nil
  then show ?case by (simp add: reads_return)
next
  case (Cons x xs)
  from Cons.prems obtain u where u: "put t x = Inr u" "put_each put u xs = Inr t'" "typed x"
    by (auto simp: result_simps)
  from put_get [OF u(1,3)] obtain e where e: "u = t @ e" "reads get e x" by blast
  from Cons.IH [OF u(2)] Cons.prems(2) obtain es where
    es: "t' = u @ es" "reads (cursor_repeat (length xs) get) es xs" by auto
  have "reads (cursor_repeat (length (x # xs)) get) (e @ es) (x # xs)"
    unfolding cursor_repeat_Cons [abs_def]
    by (rule reads_bindI [OF e(2) refl]) (rule reads_map [OF es(2), of "(#) x"])
  moreover have "t' = t @ e @ es" using e(1) es(1) by simp
  ultimately show ?case by blast
qed

lemma put_option_get:
  assumes "put_option put t v = Inr t'" "\<And>x. v = Some x \<Longrightarrow> typed x"
  shows "\<exists>enc. t' = t @ enc \<and> reads (cursor_option get) enc v"
proof (cases v)
  case None
  with assms(1) show ?thesis by (auto simp: put_option_def intro: reads_option_None)
next
  case (Some x)
  with assms obtain enc where "t' = (t @ [1]) @ enc" "reads get enc x"
    using put_get [of "t @ [1]" x t'] by (auto simp: put_option_def)
  with Some show ?thesis by (auto intro: reads_option_Some)
qed

end

text \<open>
  A bounded codec also promises how many bytes a value takes at most, and that its encoder never
  reports a frame as too large: only the frame builder may.
\<close>

locale bounded_codec = field_codec +
  fixes width :: "'a \<Rightarrow> nat"
  assumes put_width: "put t x = Inr t' \<Longrightarrow> typed x \<Longrightarrow> length t' \<le> length t + width x"
    and put_not_large: "put t x \<noteq> Inl TooLarge"
begin

lemma put_each_width:
  "put_each put t xs = Inr t' \<Longrightarrow> list_all typed xs \<Longrightarrow>
   length t' \<le> length t + sum_list (map width xs)"
proof (induction xs arbitrary: t)
  case (Cons x xs)
  then obtain u where "put t x = Inr u" "put_each put u xs = Inr t'" by (auto simp: result_simps)
  with put_width [of t x u] Cons.IH [of u] Cons.prems(2) show ?case by simp
qed simp

lemma put_each_not_large: "put_each put t xs \<noteq> Inl TooLarge"
  using put_not_large by (induction xs arbitrary: t) (auto simp: result_simps)

lemma put_option_width:
  "put_option put t v = Inr t' \<Longrightarrow> (\<And>x. v = Some x \<Longrightarrow> typed x) \<Longrightarrow>
   length t' \<le> length t + 1 + (case v of None \<Rightarrow> 0 | Some x \<Rightarrow> width x)"
  using put_width [of "t @ [1]" _ t'] by (auto simp: put_option_def split: option.splits)

lemma put_option_not_large: "put_option put t v \<noteq> Inl TooLarge"
  using put_not_large by (auto simp: put_option_def split: option.splits)

end

section \<open>The primitives meet the interface\<close>

interpretation string_codec:
  bounded_codec put_string cursor_string valid_utf8 "\<lambda>s. 1 + length s"
  by unfold_locales
    (auto simp: put_string_def result_simps dest!: try_u8_SomeD intro!: reads_string)

interpretation bounded_string_codec:
  bounded_codec "put_bounded_string m" cursor_bounded_string valid_utf8 "\<lambda>s. 1 + min m (length s)"
  by unfold_locales
    (auto simp: put_bounded_string_def result_simps dest!: try_u8_SomeD intro!: reads_bounded_string
      split: if_splits)

interpretation optional_string_codec:
  bounded_codec "put_optional_bounded_string m" cursor_optional_bounded_string valid_utf8
    "\<lambda>s. 1 + length s"
  by unfold_locales
    (auto simp: put_optional_bounded_string_def result_simps dest!: try_u8_SomeD
      intro!: reads_optional_bounded_string split: if_splits)

interpretation long_string_codec:
  bounded_codec put_long_string cursor_long_string valid_utf8 "\<lambda>s. 2 + length s"
  by unfold_locales
    (auto simp: put_long_string_def result_simps dest!: try_u16_SomeD intro!: reads_long_string
      split: if_splits)

interpretation bytes_codec: bounded_codec put_bytes "cursor_bytes n" "\<lambda>k. length k = n" length
  by unfold_locales (auto simp: put_bytes_def intro: reads_bytes)

interpretation u16_codec: bounded_codec put_u16 cursor_u16 "\<lambda>_. True" "\<lambda>_. 2"
  by unfold_locales (auto simp: put_u16_def intro: reads_u16)

interpretation u64_codec: bounded_codec put_u64 cursor_u64 "\<lambda>_. True" "\<lambda>_. 8"
  by unfold_locales (auto simp: put_u64_def intro: reads_u64)

interpretation i64_codec: bounded_codec put_u64 cursor_i64 "\<lambda>_. True" "\<lambda>_. 8"
  by unfold_locales (auto simp: put_u64_def intro: reads_i64)

interpretation bool_codec: bounded_codec put_bool cursor_bool "\<lambda>_. True" "\<lambda>_. 1"
  by unfold_locales (simp_all add: put_bool_def reads_bool)

text \<open>String lists: the count, then each string.\<close>

lemma put_string_list_get:
  assumes "put_string_list t vs = Inr t'" "list_all valid_utf8 vs" "length vs \<le> m"
  shows "\<exists>enc. t' = t @ enc \<and> reads (cursor_string_list m) enc vs"
proof -
  from assms(1) obtain n where n: "try_u8 (length vs) = Some n"
    and each: "put_each (put_bounded_string 253) (t @ [n]) vs = Inr t'"
    by (auto simp: put_string_list_def result_simps)
  from bounded_string_codec.put_each_get [OF each assms(2)] obtain enc where
    enc: "t' = (t @ [n]) @ enc" "reads (cursor_repeat (length vs) cursor_bounded_string) enc vs" by blast
  have "reads (cursor_string_list m) (n # enc) vs"
    unfolding cursor_string_list_def [abs_def]
    using try_u8_SomeD [OF n] assms(3) enc(2) by (intro reads_flag) simp
  with enc(1) show ?thesis by auto
qed

lemma put_string_list_width:
  assumes "put_string_list t vs = Inr t'" "list_all valid_utf8 vs"
  shows "length t' \<le> length t + 1 + sum_list (map (\<lambda>s. 1 + min 253 (length s)) vs)"
  using assms bounded_string_codec.put_each_width [of 253 "t @ [_]" vs t']
  by (auto simp: put_string_list_def result_simps)

lemma put_string_list_not_large: "put_string_list t vs \<noteq> Inl TooLarge"
  using bounded_string_codec.put_each_not_large
  by (auto simp: put_string_list_def result_simps)

interpretation string_list_codec:
  bounded_codec put_string_list "cursor_string_list m" "\<lambda>vs. list_all valid_utf8 vs \<and> length vs \<le> m"
    "\<lambda>vs. 1 + sum_list (map (\<lambda>s. 1 + min 253 (length s)) vs)"
  by unfold_locales
    (use put_string_list_get put_string_list_width put_string_list_not_large in \<open>auto simp: add.assoc\<close>)

end
