(* ===== verification/Contract_Profile.thy ===== *)
theory Contract_Profile
  imports Contract_Cursor
begin

text \<open>
  The profile codecs of \<open>crates/vpn_contracts/src/lib.rs\<close>: \<open>put_profile\<close>,
  \<open>put_amneziawg_profile\<close>, \<open>put_vless_profile\<close> against the decoders of \<open>Cursor\<close>, and the sealed forms
  (\<open>KWP1\<close>, \<open>KAP1\<close>, \<open>KXP1\<close>) that the vault encrypts. Each profile codec interprets the
  bounded-codec interface for validated profiles; the sealed forms interpret one interface for all
  three tags.
\<close>

section \<open>Encoders\<close>

definition put_ip_list :: "u8 list \<Rightarrow> ip_addr list \<Rightarrow> frame_error + u8 list" where
  "put_ip_list target ips = put_string_list target (map show_ip ips)"

definition put_profile :: "u8 list \<Rightarrow> wireguard_profile \<Rightarrow> frame_error + u8 list" where
  "put_profile t p =
     and_then (put_bytes t (wg_private_key p)) (\<lambda>t.
     and_then (put_string_list t (wg_addresses p)) (\<lambda>t.
     and_then (put_ip_list t (wg_dns_servers p)) (\<lambda>t.
     and_then (put_bytes t (wg_peer_public_key p)) (\<lambda>t.
     and_then (put_option put_bytes t (wg_preshared_key p)) (\<lambda>t.
     and_then (put_bounded_string 253 t (wg_endpoint_host p)) (\<lambda>t.
     and_then (put_u16 t (wg_endpoint_port p)) (\<lambda>t.
     and_then (put_string_list t (wg_allowed_ips p)) (\<lambda>t.
       put_option put_u16 t (wg_persistent_keepalive p)))))))))"

definition put_junk :: "u8 list \<Rightarrow> string list \<Rightarrow> frame_error + u8 list" where
  "put_junk target junk =
     and_then (ok_or InvalidProfile (try_u8 (length junk))) (\<lambda>count.
       put_each put_long_string (target @ [count]) junk)"

definition put_amneziawg_profile :: "u8 list \<Rightarrow> amneziawg_profile \<Rightarrow> frame_error + u8 list" where
  "put_amneziawg_profile t p =
     and_then (put_profile t (awg_wireguard p)) (\<lambda>t.
     and_then (put_each put_u16 t
       [awg_junk_packet_count p, awg_junk_packet_min_size p, awg_junk_packet_max_size p,
        awg_init_packet_junk_size p, awg_response_packet_junk_size p,
        awg_init_packet_magic_header p, awg_response_packet_magic_header p]) (\<lambda>t.
     and_then (put_each (put_bounded_string 253) t
       [awg_transport_packet_magic_header p, awg_init_packet_magic_header_value p,
        awg_response_packet_magic_header_value p, awg_transport_packet_magic_header_value p]) (\<lambda>t.
       put_junk t (awg_special_junk p))))"

definition put_vless_profile :: "u8 list \<Rightarrow> vless_profile \<Rightarrow> frame_error + u8 list" where
  "put_vless_profile t p =
     and_then (put_bounded_string 36 t (vl_client_id p)) (\<lambda>t.
     and_then (put_bounded_string 253 t (vl_endpoint_host p)) (\<lambda>t.
     and_then (put_u16 t (vl_endpoint_port p)) (\<lambda>t.
     and_then (put_bounded_string 253 t (vl_server_name p)) (\<lambda>t.
     and_then (put_bounded_string 32 t (vl_fingerprint p)) (\<lambda>t.
     and_then (put_bounded_string 128 t (vl_reality_password p)) (\<lambda>t.
     and_then (put_optional_bounded_string 16 t (vl_short_id p)) (\<lambda>t.
       put_long_string t (vl_spider_x p))))))))"

section \<open>Decoders\<close>

primrec parse_ips :: "string list \<Rightarrow> frame_error + ip_addr list" where
  "parse_ips [] = Inr []"
| "parse_ips (v # vs) =
     and_then (ok_or InvalidProfile (parse_ip v)) (\<lambda>ip.
     and_then (parse_ips vs) (\<lambda>ips. Inr (ip # ips)))"

definition cursor_ip_list :: "nat \<Rightarrow> ip_addr list decoder" where
  "cursor_ip_list maximum c =
     and_then (cursor_string_list maximum c) (\<lambda>(vs, c).
     and_then (parse_ips vs) (\<lambda>ips. Inr (ips, c)))"

definition cursor_profile :: "wireguard_profile decoder" where
  "cursor_profile c =
     and_then (cursor_bytes 32 c) (\<lambda>(private_key, c).
     and_then (cursor_string_list 8 c) (\<lambda>(addresses, c).
     and_then (cursor_ip_list 8 c) (\<lambda>(dns_servers, c).
     and_then (cursor_bytes 32 c) (\<lambda>(peer_public_key, c).
     and_then (cursor_option (cursor_bytes 32) c) (\<lambda>(preshared_key, c).
     and_then (cursor_bounded_string c) (\<lambda>(endpoint_host, c).
     and_then (cursor_u16 c) (\<lambda>(endpoint_port, c).
     and_then (cursor_string_list 32 c) (\<lambda>(allowed_ips, c).
     and_then (cursor_option cursor_u16 c) (\<lambda>(persistent_keepalive, c).
       Inr (\<lparr>wg_private_key = private_key, wg_addresses = addresses, wg_dns_servers = dns_servers,
             wg_peer_public_key = peer_public_key, wg_preshared_key = preshared_key,
             wg_endpoint_host = endpoint_host, wg_endpoint_port = endpoint_port,
             wg_allowed_ips = allowed_ips, wg_persistent_keepalive = persistent_keepalive\<rparr>, c))))))))))"

definition cursor_junk :: "string list decoder" where
  "cursor_junk c =
     and_then (cursor_byte c) (\<lambda>(count, c).
       if 5 < unat count then Inl InvalidProfile
       else cursor_repeat (unat count) cursor_long_string c)"

definition cursor_amneziawg_profile :: "amneziawg_profile decoder" where
  "cursor_amneziawg_profile c =
     and_then (cursor_profile c) (\<lambda>(wireguard, c).
     and_then (cursor_u16 c) (\<lambda>(junk_packet_count, c).
     and_then (cursor_u16 c) (\<lambda>(junk_packet_min_size, c).
     and_then (cursor_u16 c) (\<lambda>(junk_packet_max_size, c).
     and_then (cursor_u16 c) (\<lambda>(init_packet_junk_size, c).
     and_then (cursor_u16 c) (\<lambda>(response_packet_junk_size, c).
     and_then (cursor_u16 c) (\<lambda>(init_packet_magic_header, c).
     and_then (cursor_u16 c) (\<lambda>(response_packet_magic_header, c).
     and_then (cursor_bounded_string c) (\<lambda>(transport_packet_magic_header, c).
     and_then (cursor_bounded_string c) (\<lambda>(init_packet_magic_header_value, c).
     and_then (cursor_bounded_string c) (\<lambda>(response_packet_magic_header_value, c).
     and_then (cursor_bounded_string c) (\<lambda>(transport_packet_magic_header_value, c).
     and_then (cursor_junk c) (\<lambda>(special_junk, c).
       Inr (\<lparr>awg_wireguard = wireguard, awg_junk_packet_count = junk_packet_count,
             awg_junk_packet_min_size = junk_packet_min_size,
             awg_junk_packet_max_size = junk_packet_max_size,
             awg_init_packet_junk_size = init_packet_junk_size,
             awg_response_packet_junk_size = response_packet_junk_size,
             awg_init_packet_magic_header = init_packet_magic_header,
             awg_response_packet_magic_header = response_packet_magic_header,
             awg_transport_packet_magic_header = transport_packet_magic_header,
             awg_init_packet_magic_header_value = init_packet_magic_header_value,
             awg_response_packet_magic_header_value = response_packet_magic_header_value,
             awg_transport_packet_magic_header_value = transport_packet_magic_header_value,
             awg_special_junk = special_junk\<rparr>, c))))))))))))))"

definition cursor_vless_profile :: "vless_profile decoder" where
  "cursor_vless_profile c =
     and_then (cursor_bounded_string c) (\<lambda>(client_id, c).
     and_then (cursor_bounded_string c) (\<lambda>(endpoint_host, c).
     and_then (cursor_u16 c) (\<lambda>(endpoint_port, c).
     and_then (cursor_bounded_string c) (\<lambda>(server_name, c).
     and_then (cursor_bounded_string c) (\<lambda>(fingerprint, c).
     and_then (cursor_bounded_string c) (\<lambda>(reality_password, c).
     and_then (cursor_optional_bounded_string c) (\<lambda>(short_id, c).
     and_then (cursor_long_string c) (\<lambda>(spider_x, c).
       Inr (\<lparr>vl_client_id = client_id, vl_endpoint_host = endpoint_host,
             vl_endpoint_port = endpoint_port, vl_server_name = server_name,
             vl_fingerprint = fingerprint, vl_reality_password = reality_password,
             vl_short_id = short_id, vl_spider_x = spider_x\<rparr>, c)))))))))"

section \<open>What was put is read back\<close>

lemma parse_ips_show: "parse_ips (map show_ip ips) = Inr ips"
  by (induction ips) (simp_all add: parse_ip_show_ip)

lemma show_ip_utf8: "valid_utf8 (show_ip a)"
  using show_ip_chars [of a]
  by (auto intro!: valid_utf8_graphic elim!: list_all_mono_strong intro: ip_char_graphic)

lemma put_ip_list_get:
  assumes "put_ip_list t ips = Inr t'" "length ips \<le> m"
  shows "\<exists>enc. t' = t @ enc \<and> reads (cursor_ip_list m) enc ips"
proof -
  from string_list_codec.put_get [of t "map show_ip ips" t' m] assms obtain enc where
    enc: "t' = t @ enc" "reads (cursor_string_list m) enc (map show_ip ips)"
    by (auto simp: put_ip_list_def list_all_iff show_ip_utf8)
  have "reads (cursor_ip_list m) enc ips"
    unfolding cursor_ip_list_def [abs_def]
    by (rule reads_bind_lastI [OF enc(2)]) (simp add: parse_ips_show reads_return)
  with enc(1) show ?thesis by blast
qed

lemma put_ip_list_width:
  assumes "put_ip_list t ips = Inr t'"
  shows "length t' \<le> length t + (1 + 46 * length ips)"
proof -
  have "sum_list (map (\<lambda>s. 1 + min 253 (length s)) (map show_ip ips)) \<le> 46 * length ips"
  proof (induction ips)
    case (Cons a ips)
    then show ?case using length_show_ip [of a] by simp
  qed simp
  moreover have "list_all valid_utf8 (map show_ip ips)" by (simp add: list_all_iff show_ip_utf8)
  ultimately show ?thesis
    using put_string_list_width [of t "map show_ip ips" t'] assms by (simp add: put_ip_list_def)
qed

interpretation ip_list_codec:
  bounded_codec put_ip_list "cursor_ip_list m" "\<lambda>ips. length ips \<le> m" "\<lambda>ips. 1 + 46 * length ips"
  by unfold_locales
    (use put_ip_list_get put_ip_list_width put_string_list_not_large in \<open>auto simp: put_ip_list_def\<close>)

lemma put_junk_get:
  assumes "put_junk t vs = Inr t'" "list_all valid_utf8 vs" "length vs \<le> 5"
  shows "\<exists>enc. t' = t @ enc \<and> reads cursor_junk enc vs"
proof -
  from assms(1) obtain n where n: "try_u8 (length vs) = Some n"
    and each: "put_each put_long_string (t @ [n]) vs = Inr t'"
    by (auto simp: put_junk_def result_simps)
  from long_string_codec.put_each_get [OF each assms(2)] obtain enc where
    enc: "t' = (t @ [n]) @ enc" "reads (cursor_repeat (length vs) cursor_long_string) enc vs" by blast
  have "reads cursor_junk (n # enc) vs"
    unfolding cursor_junk_def [abs_def]
    using try_u8_SomeD [OF n] assms(3) enc(2) by (intro reads_flag) simp
  with enc(1) show ?thesis by auto
qed

lemma put_junk_width:
  assumes "put_junk t vs = Inr t'" "list_all valid_utf8 vs"
  shows "length t' \<le> length t + (1 + sum_list (map (\<lambda>s. 2 + length s) vs))"
  using assms long_string_codec.put_each_width [of "t @ [_]" vs t']
  by (auto simp: put_junk_def result_simps)

interpretation junk_codec:
  bounded_codec put_junk cursor_junk "\<lambda>vs. list_all valid_utf8 vs \<and> length vs \<le> 5"
    "\<lambda>vs. 1 + sum_list (map (\<lambda>s. 2 + length s) vs)"
  by unfold_locales
    (use put_junk_get put_junk_width long_string_codec.put_each_not_large in
      \<open>auto simp: put_junk_def result_simps\<close>)

section \<open>WireGuard profiles\<close>

definition ok_wireguard :: "wireguard_profile \<Rightarrow> bool" where
  "ok_wireguard p \<longleftrightarrow> wt_wireguard p \<and> validate_wireguard p = Inr ()"

lemma ok_wireguardD:
  assumes "ok_wireguard p"
  shows "length (wg_private_key p) = 32" "length (wg_peer_public_key p) = 32"
    "wg_preshared_key p = Some k \<Longrightarrow> length k = 32"
    "list_all valid_utf8 (wg_addresses p)" "length (wg_addresses p) \<le> 8"
    "list_all valid_utf8 (wg_allowed_ips p)" "length (wg_allowed_ips p) \<le> 32"
    "length (wg_dns_servers p) \<le> 8" "valid_utf8 (wg_endpoint_host p)"
  using assms validate_networks_SomeD [of "wg_addresses p" 1 8] validate_networks_SomeD [of "wg_allowed_ips p" 1 32]
  by (auto simp: ok_wireguard_def wt_wireguard_def wt_key_def validate_wireguard_def result_simps)

lemma sum_min_bound: "sum_list (map (\<lambda>s. 1 + min m (length s)) vs) \<le> (1 + m) * length vs"
  by (induction vs) auto

lemma put_profile_steps:
  assumes "put_profile t p = Inr t'" "ok_wireguard p"
  shows "\<exists>enc. t' = t @ enc \<and> reads cursor_profile enc p"
    and "length t' \<le> length t + 10887"
proof -
  note d = ok_wireguardD [OF assms(2)]
  from assms(1) obtain t1 t2 t3 t4 t5 t6 t7 t8 where
    s1: "put_bytes t (wg_private_key p) = Inr t1"
    and s2: "put_string_list t1 (wg_addresses p) = Inr t2"
    and s3: "put_ip_list t2 (wg_dns_servers p) = Inr t3"
    and s4: "put_bytes t3 (wg_peer_public_key p) = Inr t4"
    and s5: "put_option put_bytes t4 (wg_preshared_key p) = Inr t5"
    and s6: "put_bounded_string 253 t5 (wg_endpoint_host p) = Inr t6"
    and s7: "put_u16 t6 (wg_endpoint_port p) = Inr t7"
    and s8: "put_string_list t7 (wg_allowed_ips p) = Inr t8"
    and s9: "put_option put_u16 t8 (wg_persistent_keepalive p) = Inr t'"
    by (auto simp: put_profile_def result_simps)
  obtain e1 where e1: "t1 = t @ e1" "reads (cursor_bytes 32) e1 (wg_private_key p)"
    using bytes_codec.put_get [OF s1, of 32] d by blast
  obtain e2 where e2: "t2 = t1 @ e2" "reads (cursor_string_list 8) e2 (wg_addresses p)"
    using string_list_codec.put_get [OF s2, of 8] d by blast
  obtain e3 where e3: "t3 = t2 @ e3" "reads (cursor_ip_list 8) e3 (wg_dns_servers p)"
    using ip_list_codec.put_get [OF s3, of 8] d by blast
  obtain e4 where e4: "t4 = t3 @ e4" "reads (cursor_bytes 32) e4 (wg_peer_public_key p)"
    using bytes_codec.put_get [OF s4, of 32] d by blast
  obtain e5 where e5: "t5 = t4 @ e5" "reads (cursor_option (cursor_bytes 32)) e5 (wg_preshared_key p)"
    using bytes_codec.put_option_get [OF s5, of 32] d(3) by blast
  obtain e6 where e6: "t6 = t5 @ e6" "reads cursor_bounded_string e6 (wg_endpoint_host p)"
    using bounded_string_codec.put_get [OF s6] d by blast
  obtain e7 where e7: "t7 = t6 @ e7" "reads cursor_u16 e7 (wg_endpoint_port p)"
    using u16_codec.put_get [OF s7] by blast
  obtain e8 where e8: "t8 = t7 @ e8" "reads (cursor_string_list 32) e8 (wg_allowed_ips p)"
    using string_list_codec.put_get [OF s8, of 32] d by blast
  obtain e9 where e9: "t' = t8 @ e9" "reads (cursor_option cursor_u16) e9 (wg_persistent_keepalive p)"
    using u16_codec.put_option_get [OF s9] by blast
  have "reads cursor_profile (e1 @ e2 @ e3 @ e4 @ e5 @ e6 @ e7 @ e8 @ e9) p"
    unfolding cursor_profile_def [abs_def]
    by (rule reads_bindI [OF e1(2) refl] reads_bindI [OF e2(2) refl] reads_bindI [OF e3(2) refl]
        reads_bindI [OF e4(2) refl] reads_bindI [OF e5(2) refl] reads_bindI [OF e6(2) refl]
        reads_bindI [OF e7(2) refl] reads_bindI [OF e8(2) refl] reads_bind_lastI [OF e9(2)])+
      (cases p, simp add: reads_return)
  with e1(1) e2(1) e3(1) e4(1) e5(1) e6(1) e7(1) e8(1) e9(1)
  show "\<exists>enc. t' = t @ enc \<and> reads cursor_profile enc p" by auto
  have psk: "(case wg_preshared_key p of None \<Rightarrow> 0 | Some k \<Rightarrow> length k) \<le> 32"
    using d(3) by (auto split: option.split)
  have ka: "(case wg_persistent_keepalive p of None \<Rightarrow> 0 | Some (k :: u16) \<Rightarrow> 2) \<le> (2 :: nat)"
    by (auto split: option.split)
  show "length t' \<le> length t + 10887"
    using bytes_codec.put_width [OF s1] d(1) string_list_codec.put_width [OF s2, of 8] d(4,5)
      sum_min_bound [of 253 "wg_addresses p"] ip_list_codec.put_width [OF s3, of 8] d(8)
      bytes_codec.put_width [OF s4] d(2) bytes_codec.put_option_width [OF s5 d(3)] psk
      bounded_string_codec.put_width [OF s6 d(9)] u16_codec.put_width [OF s7]
      string_list_codec.put_width [OF s8, of 32] d(6,7) sum_min_bound [of 253 "wg_allowed_ips p"]
      u16_codec.put_option_width [OF s9] ka
    by simp
qed

lemma put_profile_not_large: "put_profile t p \<noteq> Inl TooLarge"
  by (auto simp: put_profile_def result_simps
      bytes_codec.put_not_large string_list_codec.put_not_large ip_list_codec.put_not_large
      bounded_string_codec.put_not_large u16_codec.put_not_large
      bytes_codec.put_option_not_large u16_codec.put_option_not_large)

interpretation wireguard_codec:
  bounded_codec put_profile cursor_profile ok_wireguard "\<lambda>_. 10887"
  by unfold_locales (use put_profile_steps put_profile_not_large in auto)

section \<open>AmneziaWG profiles\<close>

definition ok_amneziawg :: "amneziawg_profile \<Rightarrow> bool" where
  "ok_amneziawg p \<longleftrightarrow> wt_amneziawg p \<and> validate_amneziawg p = Inr ()"

lemma ok_amneziawgD:
  assumes "ok_amneziawg p"
  shows "ok_wireguard (awg_wireguard p)"
    "list_all valid_utf8
       [awg_transport_packet_magic_header p, awg_init_packet_magic_header_value p,
        awg_response_packet_magic_header_value p, awg_transport_packet_magic_header_value p]"
    "list_all valid_utf8 (awg_special_junk p)" "length (awg_special_junk p) \<le> 5"
    "\<forall>s \<in> set (awg_special_junk p). valid_junk s"
  using assms
  by (auto simp: ok_amneziawg_def wt_amneziawg_def validate_amneziawg_def ok_wireguard_def
      result_simps list_ex_iff)

lemma junk_width_bound:
  "\<forall>s \<in> set vs. valid_junk s \<Longrightarrow> sum_list (map (\<lambda>s. 2 + length s) vs) \<le> 4098 * length vs"
  by (induction vs) (auto simp: valid_junk_def)

lemma put_amneziawg_steps:
  assumes "put_amneziawg_profile t p = Inr t'" "ok_amneziawg p"
  shows "\<exists>enc. t' = t @ enc \<and> reads cursor_amneziawg_profile enc p"
    and "length t' \<le> length t + 32408"
proof -
  note d = ok_amneziawgD [OF assms(2)]
  from assms(1) obtain t1 a1 a2 a3 a4 a5 a6 a7 b1 b2 b3 b4 where
    s0: "put_profile t (awg_wireguard p) = Inr t1"
    and a: "put_u16 t1 (awg_junk_packet_count p) = Inr a1"
      "put_u16 a1 (awg_junk_packet_min_size p) = Inr a2"
      "put_u16 a2 (awg_junk_packet_max_size p) = Inr a3"
      "put_u16 a3 (awg_init_packet_junk_size p) = Inr a4"
      "put_u16 a4 (awg_response_packet_junk_size p) = Inr a5"
      "put_u16 a5 (awg_init_packet_magic_header p) = Inr a6"
      "put_u16 a6 (awg_response_packet_magic_header p) = Inr a7"
    and b: "put_bounded_string 253 a7 (awg_transport_packet_magic_header p) = Inr b1"
      "put_bounded_string 253 b1 (awg_init_packet_magic_header_value p) = Inr b2"
      "put_bounded_string 253 b2 (awg_response_packet_magic_header_value p) = Inr b3"
      "put_bounded_string 253 b3 (awg_transport_packet_magic_header_value p) = Inr b4"
    and j: "put_junk b4 (awg_special_junk p) = Inr t'"
    by (auto simp: put_amneziawg_profile_def result_simps)
  have utf: "valid_utf8 (awg_transport_packet_magic_header p)"
    "valid_utf8 (awg_init_packet_magic_header_value p)"
    "valid_utf8 (awg_response_packet_magic_header_value p)"
    "valid_utf8 (awg_transport_packet_magic_header_value p)"
    using d(2) by simp_all
  obtain e0 where e0: "t1 = t @ e0" "reads cursor_profile e0 (awg_wireguard p)"
    using wireguard_codec.put_get [OF s0 d(1)] by blast
  note u = a [THEN u16_codec.put_get, simplified]
  obtain f1 f2 f3 f4 f5 f6 f7 where
    f: "a1 = t1 @ f1" "reads cursor_u16 f1 (awg_junk_packet_count p)"
      "a2 = a1 @ f2" "reads cursor_u16 f2 (awg_junk_packet_min_size p)"
      "a3 = a2 @ f3" "reads cursor_u16 f3 (awg_junk_packet_max_size p)"
      "a4 = a3 @ f4" "reads cursor_u16 f4 (awg_init_packet_junk_size p)"
      "a5 = a4 @ f5" "reads cursor_u16 f5 (awg_response_packet_junk_size p)"
      "a6 = a5 @ f6" "reads cursor_u16 f6 (awg_init_packet_magic_header p)"
      "a7 = a6 @ f7" "reads cursor_u16 f7 (awg_response_packet_magic_header p)"
    using u by blast
  obtain g1 g2 g3 g4 where
    g: "b1 = a7 @ g1" "reads cursor_bounded_string g1 (awg_transport_packet_magic_header p)"
      "b2 = b1 @ g2" "reads cursor_bounded_string g2 (awg_init_packet_magic_header_value p)"
      "b3 = b2 @ g3" "reads cursor_bounded_string g3 (awg_response_packet_magic_header_value p)"
      "b4 = b3 @ g4" "reads cursor_bounded_string g4 (awg_transport_packet_magic_header_value p)"
    using bounded_string_codec.put_get [OF b(1) utf(1)] bounded_string_codec.put_get [OF b(2) utf(2)]
      bounded_string_codec.put_get [OF b(3) utf(3)] bounded_string_codec.put_get [OF b(4) utf(4)]
    by blast
  obtain h where h: "t' = b4 @ h" "reads cursor_junk h (awg_special_junk p)"
    using junk_codec.put_get [OF j] d(3,4) by blast
  have "reads cursor_amneziawg_profile
      (e0 @ f1 @ f2 @ f3 @ f4 @ f5 @ f6 @ f7 @ g1 @ g2 @ g3 @ g4 @ h) p"
    unfolding cursor_amneziawg_profile_def [abs_def]
    by (rule reads_bindI [OF e0(2) refl] reads_bindI [OF f(2) refl] reads_bindI [OF f(4) refl]
        reads_bindI [OF f(6) refl] reads_bindI [OF f(8) refl] reads_bindI [OF f(10) refl]
        reads_bindI [OF f(12) refl] reads_bindI [OF f(14) refl] reads_bindI [OF g(2) refl]
        reads_bindI [OF g(4) refl] reads_bindI [OF g(6) refl] reads_bindI [OF g(8) refl]
        reads_bind_lastI [OF h(2)])+
      (cases p, simp add: reads_return)
  with e0(1) f(1,3,5,7,9,11,13) g(1,3,5,7) h(1)
  show "\<exists>enc. t' = t @ enc \<and> reads cursor_amneziawg_profile enc p" by auto
  have junk: "length t' \<le> length b4 + 20491"
    using junk_codec.put_width [OF j] d(3,4) junk_width_bound [OF d(5)] by simp
  have nums: "length a7 \<le> length t1 + 14"
    using a [THEN u16_codec.put_width] by simp
  have strs: "length b4 \<le> length a7 + 1016"
    using bounded_string_codec.put_width [OF b(1) utf(1)] bounded_string_codec.put_width [OF b(2) utf(2)]
      bounded_string_codec.put_width [OF b(3) utf(3)] bounded_string_codec.put_width [OF b(4) utf(4)]
    by simp
  show "length t' \<le> length t + 32408"
    using junk nums strs wireguard_codec.put_width [OF s0 d(1)] by simp
qed

lemma put_amneziawg_not_large: "put_amneziawg_profile t p \<noteq> Inl TooLarge"
  by (auto simp: put_amneziawg_profile_def result_simps wireguard_codec.put_not_large
      junk_codec.put_not_large bounded_string_codec.put_each_not_large
      u16_codec.put_each_not_large simp del: put_each.simps)

interpretation amneziawg_codec:
  bounded_codec put_amneziawg_profile cursor_amneziawg_profile ok_amneziawg "\<lambda>_. 32408"
  by unfold_locales (use put_amneziawg_steps put_amneziawg_not_large in auto)

section \<open>VLESS profiles\<close>

definition ok_vless :: "vless_profile \<Rightarrow> bool" where
  "ok_vless p \<longleftrightarrow> wt_vless p \<and> validate_vless p = Inr ()"

lemma put_vless_steps:
  assumes "put_vless_profile t p = Inr t'" "ok_vless p"
  shows "\<exists>enc. t' = t @ enc \<and> reads cursor_vless_profile enc p"
    and "length t' \<le> length t + 730"
proof -
  have utf: "valid_utf8 (vl_client_id p)" "valid_utf8 (vl_endpoint_host p)"
    "valid_utf8 (vl_server_name p)" "valid_utf8 (vl_fingerprint p)"
    "valid_utf8 (vl_reality_password p)" "valid_utf8 (vl_short_id p)" "valid_utf8 (vl_spider_x p)"
    using assms(2) by (simp_all add: ok_vless_def wt_vless_def)
  from assms(1) obtain t1 t2 t3 t4 t5 t6 t7 where
    s: "put_bounded_string 36 t (vl_client_id p) = Inr t1"
      "put_bounded_string 253 t1 (vl_endpoint_host p) = Inr t2"
      "put_u16 t2 (vl_endpoint_port p) = Inr t3"
      "put_bounded_string 253 t3 (vl_server_name p) = Inr t4"
      "put_bounded_string 32 t4 (vl_fingerprint p) = Inr t5"
      "put_bounded_string 128 t5 (vl_reality_password p) = Inr t6"
      "put_optional_bounded_string 16 t6 (vl_short_id p) = Inr t7"
      "put_long_string t7 (vl_spider_x p) = Inr t'"
    by (auto simp: put_vless_profile_def result_simps)
  obtain e1 e2 e3 e4 where
    e: "t1 = t @ e1" "reads cursor_bounded_string e1 (vl_client_id p)"
      "t2 = t1 @ e2" "reads cursor_bounded_string e2 (vl_endpoint_host p)"
      "t3 = t2 @ e3" "reads cursor_u16 e3 (vl_endpoint_port p)"
      "t4 = t3 @ e4" "reads cursor_bounded_string e4 (vl_server_name p)"
    using bounded_string_codec.put_get [OF s(1) utf(1)] bounded_string_codec.put_get [OF s(2) utf(2)]
      u16_codec.put_get [OF s(3)] bounded_string_codec.put_get [OF s(4) utf(3)] by blast
  obtain e5 e6 e7 e8 where
    f: "t5 = t4 @ e5" "reads cursor_bounded_string e5 (vl_fingerprint p)"
      "t6 = t5 @ e6" "reads cursor_bounded_string e6 (vl_reality_password p)"
      "t7 = t6 @ e7" "reads cursor_optional_bounded_string e7 (vl_short_id p)"
      "t' = t7 @ e8" "reads cursor_long_string e8 (vl_spider_x p)"
    using bounded_string_codec.put_get [OF s(5) utf(4)] bounded_string_codec.put_get [OF s(6) utf(5)]
      optional_string_codec.put_get [OF s(7) utf(6)] long_string_codec.put_get [OF s(8) utf(7)]
    by blast
  have "reads cursor_vless_profile (e1 @ e2 @ e3 @ e4 @ e5 @ e6 @ e7 @ e8) p"
    unfolding cursor_vless_profile_def [abs_def]
    by (rule reads_bindI [OF e(2) refl] reads_bindI [OF e(4) refl] reads_bindI [OF e(6) refl]
        reads_bindI [OF e(8) refl] reads_bindI [OF f(2) refl] reads_bindI [OF f(4) refl]
        reads_bindI [OF f(6) refl] reads_bind_lastI [OF f(8)])+
      (cases p, simp add: reads_return)
  with e(1,3,5,7) f(1,3,5,7)
  show "\<exists>enc. t' = t @ enc \<and> reads cursor_vless_profile enc p" by auto
  have "length (vl_short_id p) \<le> 16" "length (vl_spider_x p) = 1"
    using assms(2) by (auto simp: ok_vless_def validate_vless_def result_simps)
  then show "length t' \<le> length t + 730"
    using bounded_string_codec.put_width [OF s(1) utf(1)] bounded_string_codec.put_width [OF s(2) utf(2)]
      u16_codec.put_width [OF s(3)] bounded_string_codec.put_width [OF s(4) utf(3)]
      bounded_string_codec.put_width [OF s(5) utf(4)] bounded_string_codec.put_width [OF s(6) utf(5)]
      optional_string_codec.put_width [OF s(7) utf(6)] long_string_codec.put_width [OF s(8) utf(7)]
    by simp
qed

lemma put_vless_not_large: "put_vless_profile t p \<noteq> Inl TooLarge"
  by (auto simp: put_vless_profile_def result_simps bounded_string_codec.put_not_large
      u16_codec.put_not_large optional_string_codec.put_not_large long_string_codec.put_not_large)

interpretation vless_codec:
  bounded_codec put_vless_profile cursor_vless_profile ok_vless "\<lambda>_. 730"
  by unfold_locales (use put_vless_steps put_vless_not_large in auto)

section \<open>When a profile can be written\<close>

text \<open>
  Validation bounds neither the length of a network (its prefix may carry leading zeros) nor that of
  a numeric range, while a bounded string holds 253 bytes. \<open>fits\<close> states the missing bounds; with it
  the encoders succeed on every validated profile, and without it on none.
\<close>

definition short :: "string \<Rightarrow> bool" where
  "short v \<longleftrightarrow> length v \<le> 253"

definition fits_wireguard :: "wireguard_profile \<Rightarrow> bool" where
  "fits_wireguard p \<longleftrightarrow>
     list_all short (wg_addresses p) \<and> short (wg_endpoint_host p) \<and> list_all short (wg_allowed_ips p)"

definition fits_amneziawg :: "amneziawg_profile \<Rightarrow> bool" where
  "fits_amneziawg p \<longleftrightarrow>
     fits_wireguard (awg_wireguard p)
     \<and> list_all short
         [awg_transport_packet_magic_header p, awg_init_packet_magic_header_value p,
          awg_response_packet_magic_header_value p, awg_transport_packet_magic_header_value p]"

definition fits_vless :: "vless_profile \<Rightarrow> bool" where
  "fits_vless p \<longleftrightarrow> short (vl_endpoint_host p) \<and> short (vl_server_name p)"

lemma is_ok_and_then: "is_ok m \<Longrightarrow> (\<And>x. m = Inr x \<Longrightarrow> is_ok (f x)) \<Longrightarrow> is_ok (and_then m f)"
  by (cases m) auto

lemma as_bytes_no_nul: "list_all is_graphic v \<Longrightarrow> 0 \<notin> set (as_bytes v)"
proof
  assume g: "list_all is_graphic v" and "0 \<in> set (as_bytes v)"
  then obtain c where c: "c \<in> set v" "(word_of_nat (of_char c) :: u8) = 0" by (auto simp: as_bytes_def)
  from c(2) have "char_of (unat (0 :: u8)) = c" using char_of_byte [of c] by simp
  with g c(1) show False by (auto simp: list_all_iff is_graphic_def)
qed

lemma put_bounded_is_ok:
  "is_ok (put_bounded_string m t v) \<longleftrightarrow>
     v \<noteq> [] \<and> length v \<le> m \<and> length v < 256 \<and> 0 \<notin> set (as_bytes v)"
  by (auto simp: put_bounded_string_def try_u8_def)

lemma put_graphic_is_ok:
  "list_all is_graphic v \<Longrightarrow> v \<noteq> [] \<Longrightarrow> m \<le> 253 \<Longrightarrow>
   is_ok (put_bounded_string m t v) \<longleftrightarrow> length v \<le> m"
  using as_bytes_no_nul [of v] by (auto simp: put_bounded_is_ok)

lemma put_each_is_ok:
  "(\<And>t v. v \<in> set vs \<Longrightarrow> is_ok (put t v) \<longleftrightarrow> P v) \<Longrightarrow> is_ok (put_each put t vs) \<longleftrightarrow> list_all P vs"
proof (induction vs arbitrary: t)
  case (Cons v vs)
  have "is_ok (put_each put u vs) \<longleftrightarrow> list_all P vs" for u using Cons by simp
  moreover have "is_ok (put t v) \<longleftrightarrow> P v" using Cons.prems by simp
  ultimately show ?case by (cases "put t v") simp_all
qed simp

lemma put_string_list_is_ok:
  assumes "list_all (\<lambda>v. list_all is_graphic v \<and> v \<noteq> []) vs" "length vs < 256"
  shows "is_ok (put_string_list t vs) \<longleftrightarrow> list_all short vs"
proof -
  have "is_ok (put_each (put_bounded_string 253) u vs) \<longleftrightarrow> list_all short vs" for u
    using assms(1) by (intro put_each_is_ok) (auto simp: list_all_iff put_graphic_is_ok short_def)
  with assms(2) show ?thesis by (simp add: put_string_list_def try_u8_def)
qed

lemma put_ip_list_is_ok:
  assumes "length ips \<le> 8"
  shows "is_ok (put_ip_list t ips)"
proof -
  have "list_all is_graphic (show_ip a)" for a
    using show_ip_chars [of a] by (rule list_all_mono_strong) (rule ip_char_graphic)
  moreover have "short (show_ip a)" for a using length_show_ip [of a] by (simp add: short_def)
  ultimately show ?thesis
    using assms put_string_list_is_ok [of "map show_ip ips" t] show_ip_nonempty
    by (simp add: put_ip_list_def list_all_iff)
qed

lemma put_plain_is_ok [simp]:
  "is_ok (put_bytes t bs)" "is_ok (put_u16 t w)" "is_ok (put_option put_bytes t k)"
  "is_ok (put_option put_u16 t o16)"
  by (simp_all add: put_bytes_def put_u16_def put_option_def split: option.splits)

lemma is_ok_chain: "is_ok m \<Longrightarrow> (\<And>x. is_ok (f x) \<longleftrightarrow> b) \<Longrightarrow> is_ok (and_then m f) \<longleftrightarrow> b"
  by (cases m) auto

lemma is_ok_chain_if: "(is_ok m \<longleftrightarrow> a) \<Longrightarrow> (\<And>x. is_ok (f x) \<longleftrightarrow> b) \<Longrightarrow> is_ok (and_then m f) \<longleftrightarrow> a \<and> b"
  by (cases m) auto

lemma is_ok_chain_last: "(is_ok m \<longleftrightarrow> a) \<Longrightarrow> (\<And>x. is_ok (f x)) \<Longrightarrow> is_ok (and_then m f) \<longleftrightarrow> a"
  by (cases m) auto

lemma put_profile_is_ok:
  assumes "validate_wireguard p = Inr ()"
  shows "is_ok (put_profile t p) \<longleftrightarrow> fits_wireguard p"
proof -
  from assms have v: "validate_networks (wg_addresses p) 1 8 = Inr ()" "length (wg_dns_servers p) \<le> 8"
    "validate_endpoint_host (wg_endpoint_host p) = Inr ()" "validate_networks (wg_allowed_ips p) 1 32 = Inr ()"
    by (auto simp: validate_wireguard_def result_simps)
  note l = validate_networks_SomeD [OF v(1)] validate_networks_SomeD [OF v(4)]
  have host: "is_ok (put_bounded_string 253 t (wg_endpoint_host p)) \<longleftrightarrow> short (wg_endpoint_host p)" for t
    using validate_host_chars [OF v(3)] by (simp add: put_graphic_is_ok short_def)
  have lists: "is_ok (put_string_list t (wg_addresses p)) \<longleftrightarrow> list_all short (wg_addresses p)"
    "is_ok (put_string_list t (wg_allowed_ips p)) \<longleftrightarrow> list_all short (wg_allowed_ips p)" for t
    using l by (auto intro!: put_string_list_is_ok)
  show ?thesis
    unfolding put_profile_def fits_wireguard_def
    by (intro is_ok_chain [OF put_plain_is_ok(1)] is_ok_chain_if [OF lists(1)]
        is_ok_chain [OF put_ip_list_is_ok [OF v(2)]] is_ok_chain [OF put_plain_is_ok(3)]
        is_ok_chain_if [OF host] is_ok_chain [OF put_plain_is_ok(2)])
      (rule is_ok_chain_last [OF lists(2) put_plain_is_ok(4)])
qed

lemma put_range_is_ok:
  "validate_numeric_range v = Inr () \<Longrightarrow> is_ok (put_bounded_string 253 t v) \<longleftrightarrow> short v"
  using validate_numeric_range_chars [of v] graphic_of_digits_dash [of v]
  by (simp add: put_graphic_is_ok short_def)

lemma put_junk_is_ok:
  assumes "\<forall>v \<in> set vs. valid_junk v" "length vs \<le> 5"
  shows "is_ok (put_junk t vs)"
proof -
  have "is_ok (put_each put_long_string u vs) \<longleftrightarrow> list_all (\<lambda>v. True) vs" for u
    using assms(1) by (intro put_each_is_ok) (auto simp: put_long_string_def valid_junk_def try_u16_def)
  with assms(2) show ?thesis by (simp add: put_junk_def try_u8_def list_all_iff)
qed

lemma put_amneziawg_is_ok:
  assumes "validate_amneziawg p = Inr ()"
  shows "is_ok (put_amneziawg_profile t p) \<longleftrightarrow> fits_amneziawg p"
proof -
  let ?ranges = "[awg_transport_packet_magic_header p, awg_init_packet_magic_header_value p,
    awg_response_packet_magic_header_value p, awg_transport_packet_magic_header_value p]"
  from assms have v: "validate_wireguard (awg_wireguard p) = Inr ()" "validate_each_range ?ranges = Inr ()"
    "\<forall>s \<in> set (awg_special_junk p). valid_junk s" "length (awg_special_junk p) \<le> 5"
    by (auto simp: validate_amneziawg_def result_simps list_ex_iff simp del: validate_each_range.simps)
  have ranges: "is_ok (put_each (put_bounded_string 253) t ?ranges) \<longleftrightarrow> list_all short ?ranges" for t
    using v(2) unfolding validate_each_range_iff by (intro put_each_is_ok put_range_is_ok) blast
  have nums: "is_ok (put_each put_u16 t ws)" for t ws
    using put_each_is_ok [of ws put_u16 "\<lambda>_. True" t] by (simp add: list_all_iff)
  show ?thesis
    unfolding put_amneziawg_profile_def fits_amneziawg_def
    by (intro is_ok_chain_if [OF put_profile_is_ok [OF v(1)]] is_ok_chain [OF nums]
        is_ok_chain_last [OF ranges put_junk_is_ok [OF v(3,4)]])
qed

lemma identifier_char_list_graphic: "list_all identifier_char v \<Longrightarrow> list_all is_graphic v"
  by (erule list_all_mono_strong) (rule identifier_char_graphic)

lemma put_vless_is_ok:
  assumes "validate_vless p = Inr ()"
  shows "is_ok (put_vless_profile t p) \<longleftrightarrow> fits_vless p"
proof -
  from assms have v: "validate_uuid (vl_client_id p) = Inr ()"
    "validate_endpoint_host (vl_endpoint_host p) = Inr ()" "validate_endpoint_host (vl_server_name p) = Inr ()"
    "vl_fingerprint p = ''chrome''" "length (vl_reality_password p) = 43"
    "list_all identifier_char (vl_reality_password p)" "length (vl_short_id p) \<le> 16"
    "list_all is_ascii_hexdigit (vl_short_id p)" "vl_spider_x p = ''/''"
    by (auto simp: validate_vless_def result_simps)
  have hosts: "is_ok (put_bounded_string 253 t (vl_endpoint_host p)) \<longleftrightarrow> short (vl_endpoint_host p)"
    "is_ok (put_bounded_string 253 t (vl_server_name p)) \<longleftrightarrow> short (vl_server_name p)" for t
    using validate_host_chars [OF v(2)] validate_host_chars [OF v(3)]
    by (simp_all add: put_graphic_is_ok short_def)
  have id_chars: "list_all is_graphic (vl_client_id p)"
    using validate_uuid_chars(2) [OF v(1)]
    by (rule list_all_mono_strong) (auto intro: graphic_intros)
  have client: "is_ok (put_bounded_string 36 t (vl_client_id p))" for t
    using validate_uuid_chars(1) [OF v(1)] put_graphic_is_ok [OF id_chars, of 36 t]
    by (cases "vl_client_id p = []") simp_all
  have finger: "is_ok (put_bounded_string 32 t (vl_fingerprint p))" for t
    unfolding v(4) put_bounded_is_ok by (simp add: as_bytes_no_nul is_graphic_def)
  have password: "is_ok (put_bounded_string 128 t (vl_reality_password p))" for t
    using v(5) put_graphic_is_ok [OF identifier_char_list_graphic [OF v(6)], of 128 t]
    by (cases "vl_reality_password p = []") simp_all
  have "list_all is_graphic (vl_short_id p)"
    using v(8) by (rule list_all_mono_strong) (rule hexdigit_graphic)
  then have short_id: "is_ok (put_optional_bounded_string 16 t (vl_short_id p))" for t
    using v(7) as_bytes_no_nul by (simp add: put_optional_bounded_string_def try_u8_def)
  have spider: "is_ok (put_long_string t (vl_spider_x p))" for t
    unfolding v(9) by code_simp
  show ?thesis
    unfolding put_vless_profile_def fits_vless_def
    by (intro is_ok_chain [OF client] is_ok_chain_if [OF hosts(1)] is_ok_chain [OF put_plain_is_ok(2)]
        is_ok_chain_last [OF hosts(2)] is_ok_and_then finger password short_id spider)
qed

end
