(* ===== verification/Contract_Frame.thy ===== *)
theory Contract_Frame
  imports Contract_Profile
begin

text \<open>
  The frames of \<open>crates/vpn_contracts/src/lib.rs\<close>: the 12-byte header (\<open>declared_frame_size\<close>,
  \<open>encode_frame\<close>, \<open>decode_frame\<close>), requests (\<open>encode_request\<close>, \<open>decode_request\<close>,
  \<open>decode_command\<close>) and responses. The lemmas show round trips, what a decoder accepts, that
  valid requests and responses always fit \<open>MAX_FRAME_SIZE\<close>, and that a stream of frames is cut
  unambiguously.
\<close>

section \<open>The header\<close>

definition declared_frame_size :: "u8 list \<Rightarrow> frame_error + nat" where
  "declared_frame_size header =
     (if length header \<noteq> 12 then Inl TooShort
      else if take 4 header \<noteq> MAGIC then Inl InvalidMagic
      else if ucast (u16_from_le [header ! 4, header ! 5]) \<noteq> CONTRACT_VERSION
        then Inl UnsupportedVersion
      else if header ! 7 \<noteq> 0 then Inl UnknownOperation
      else and_then (ok_or TooLarge
          (checked_add (unat (u32_from_le [header ! 8, header ! 9, header ! 10, header ! 11])) 12))
        (\<lambda>total. if MAX_FRAME_SIZE < total then Inl TooLarge else Inr total))"

definition encode_frame :: "u8 \<Rightarrow> u8 list \<Rightarrow> frame_error + u8 list" where
  "encode_frame opcode body =
     (if MAX_FRAME_SIZE < length body + 12 then Inl TooLarge
      else and_then (ok_or UnsupportedVersion (try_u16 (unat CONTRACT_VERSION))) (\<lambda>wire_version.
        and_then (if length body < 2 ^ 32 then Inr (word_of_nat (length body)) else Inl TooLarge)
          (\<lambda>body_len.
            Inr (MAGIC @ u16_to_le wire_version @ [opcode] @ [0] @ u32_to_le body_len @ body))))"

definition decode_frame :: "u8 list \<Rightarrow> frame_error + u8 \<times> u32 \<times> u8 list" where
  "decode_frame frame =
     (if MAX_FRAME_SIZE < length frame then Inl TooLarge
      else if length frame < 12 then Inl TooShort
      else if take 4 frame \<noteq> MAGIC then Inl InvalidMagic
      else let version = ucast (u16_from_le [frame ! 4, frame ! 5]) in
        if version \<noteq> CONTRACT_VERSION then Inl UnsupportedVersion
        else if frame ! 7 \<noteq> 0 then Inl UnknownOperation
        else if unat (u32_from_le [frame ! 8, frame ! 9, frame ! 10, frame ! 11]) \<noteq> length frame - 12
          then Inl InvalidLength
        else Inr (frame ! 6, version, drop 12 frame))"

section \<open>Requests\<close>

fun protocol_byte :: "protocol \<Rightarrow> u8" where
  "protocol_byte WireGuard = 1"
| "protocol_byte AmneziaWg = 2"
| "protocol_byte VlessReality = 3"

text \<open>The \<open>match\<close> of \<open>encode_request\<close>: the opcode and the body with the command appended.\<close>

fun put_command :: "u8 list \<Rightarrow> control_command \<Rightarrow> frame_error + u8 \<times> u8 list" where
  "put_command t Status = Inr (1, t)"
| "put_command t (Connect connect) =
     and_then (validate_identifier (cr_operation_id connect)) (\<lambda>_.
     and_then (validate_identifier (cr_profile_id connect)) (\<lambda>_.
     and_then (put_string t (cr_operation_id connect)) (\<lambda>t.
     and_then (put_string t (cr_profile_id connect)) (\<lambda>t.
       Inr (2, t @ [protocol_byte (cr_protocol connect)] @ [if cr_kill_switch connect then 1 else 0])))))"
| "put_command t (Disconnect operation_id) =
     and_then (validate_identifier operation_id) (\<lambda>_.
     and_then (put_string t operation_id) (\<lambda>t. Inr (3, t)))"
| "put_command t Diagnostics = Inr (4, t)"
| "put_command t (ImportWireGuardProfile operation_id profile) =
     and_then (validate_identifier operation_id) (\<lambda>_.
     and_then (validate_wireguard profile) (\<lambda>_.
     and_then (put_string t operation_id) (\<lambda>t.
     and_then (put_profile t profile) (\<lambda>t. Inr (5, t)))))"
| "put_command t (DeleteProfile operation_id profile_id) =
     and_then (validate_identifier operation_id) (\<lambda>_.
     and_then (validate_identifier profile_id) (\<lambda>_.
     and_then (put_string t operation_id) (\<lambda>t.
     and_then (put_string t profile_id) (\<lambda>t. Inr (6, t)))))"
| "put_command t Statistics = Inr (7, t)"
| "put_command t (ImportAmneziaWgProfile operation_id profile) =
     and_then (validate_identifier operation_id) (\<lambda>_.
     and_then (validate_amneziawg profile) (\<lambda>_.
     and_then (put_string t operation_id) (\<lambda>t.
     and_then (put_amneziawg_profile t profile) (\<lambda>t. Inr (8, t)))))"
| "put_command t (ImportVlessRealityProfile operation_id profile) =
     and_then (validate_identifier operation_id) (\<lambda>_.
     and_then (validate_vless profile) (\<lambda>_.
     and_then (put_string t operation_id) (\<lambda>t.
     and_then (put_vless_profile t profile) (\<lambda>t. Inr (9, t)))))"

definition encode_request :: "request_envelope \<Rightarrow> frame_error + u8 list" where
  "encode_request request =
     and_then (validate_identifier (rq_request_id request)) (\<lambda>_.
       if rq_contract_version request \<noteq> CONTRACT_VERSION then Inl UnsupportedVersion
       else and_then (put_string [] (rq_request_id request)) (\<lambda>body.
         and_then (put_command body (rq_command request)) (\<lambda>(opcode, body).
           encode_frame opcode body)))"

definition decode_protocol :: "protocol decoder" where
  "decode_protocol c =
     and_then (cursor_byte c) (\<lambda>(b, c).
       if b = 1 then Inr (WireGuard, c)
       else if b = 2 then Inr (AmneziaWg, c)
       else if b = 3 then Inr (VlessReality, c)
       else Inl InvalidProtocol)"

definition decode_command :: "u8 \<Rightarrow> control_command decoder" where
  "decode_command opcode c =
     (if opcode = 1 then Inr (Status, c)
      else if opcode = 2 then
        and_then (cursor_string c) (\<lambda>(operation_id, c).
        and_then (cursor_string c) (\<lambda>(profile_id, c).
        and_then (validate_identifier operation_id) (\<lambda>_.
        and_then (validate_identifier profile_id) (\<lambda>_.
        and_then (decode_protocol c) (\<lambda>(protocol, c).
        and_then (cursor_bool c) (\<lambda>(kill_switch, c).
          Inr (Connect \<lparr>cr_operation_id = operation_id, cr_profile_id = profile_id,
                        cr_protocol = protocol, cr_kill_switch = kill_switch\<rparr>, c)))))))
      else if opcode = 3 then
        and_then (cursor_string c) (\<lambda>(operation_id, c).
        and_then (validate_identifier operation_id) (\<lambda>_. Inr (Disconnect operation_id, c)))
      else if opcode = 4 then Inr (Diagnostics, c)
      else if opcode = 5 then
        and_then (cursor_string c) (\<lambda>(operation_id, c).
        and_then (validate_identifier operation_id) (\<lambda>_.
        and_then (cursor_profile c) (\<lambda>(profile, c).
        and_then (validate_wireguard profile) (\<lambda>_.
          Inr (ImportWireGuardProfile operation_id profile, c)))))
      else if opcode = 6 then
        and_then (cursor_string c) (\<lambda>(operation_id, c).
        and_then (cursor_string c) (\<lambda>(profile_id, c).
        and_then (validate_identifier operation_id) (\<lambda>_.
        and_then (validate_identifier profile_id) (\<lambda>_.
          Inr (DeleteProfile operation_id profile_id, c)))))
      else if opcode = 7 then Inr (Statistics, c)
      else if opcode = 8 then
        and_then (cursor_string c) (\<lambda>(operation_id, c).
        and_then (validate_identifier operation_id) (\<lambda>_.
        and_then (cursor_amneziawg_profile c) (\<lambda>(profile, c).
        and_then (validate_amneziawg profile) (\<lambda>_.
          Inr (ImportAmneziaWgProfile operation_id profile, c)))))
      else if opcode = 9 then
        and_then (cursor_string c) (\<lambda>(operation_id, c).
        and_then (validate_identifier operation_id) (\<lambda>_.
        and_then (cursor_vless_profile c) (\<lambda>(profile, c).
        and_then (validate_vless profile) (\<lambda>_.
          Inr (ImportVlessRealityProfile operation_id profile, c)))))
      else Inl UnknownOperation)"

definition decode_request :: "u8 list \<Rightarrow> frame_error + request_envelope" where
  "decode_request frame =
     and_then (decode_frame frame) (\<lambda>(opcode, version, body).
     and_then (cursor_string (cursor_new body)) (\<lambda>(request_id, c).
     and_then (validate_identifier request_id) (\<lambda>_.
     and_then (decode_command opcode c) (\<lambda>(command, c).
       if \<not> cursor_finished c then Inl TrailingData
       else Inr \<lparr>rq_contract_version = version, rq_request_id = request_id, rq_command = command\<rparr>))))"

section \<open>Responses\<close>

fun phase_byte :: "connection_phase \<Rightarrow> u8" where
  "phase_byte Disconnected = 0"
| "phase_byte Validating = 1"
| "phase_byte Connecting = 2"
| "phase_byte Connected = 3"
| "phase_byte Reconnecting = 4"
| "phase_byte Disconnecting = 5"
| "phase_byte BlockedBySubscription = 6"
| "phase_byte NoNetwork = 7"
| "phase_byte ServerUnavailable = 8"
| "phase_byte Error = 9"

definition decode_phase :: "u8 \<Rightarrow> frame_error + connection_phase" where
  "decode_phase b =
     (if b = 0 then Inr Disconnected
      else if b = 1 then Inr Validating
      else if b = 2 then Inr Connecting
      else if b = 3 then Inr Connected
      else if b = 4 then Inr Reconnecting
      else if b = 5 then Inr Disconnecting
      else if b = 6 then Inr BlockedBySubscription
      else if b = 7 then Inr NoNetwork
      else if b = 8 then Inr ServerUnavailable
      else if b = 9 then Inr Error
      else Inl UnknownOperation)"

definition put_statistics :: "u8 list \<Rightarrow> tunnel_statistics \<Rightarrow> frame_error + u8 list" where
  "put_statistics t s =
     and_then (put_u64 t (ts_bytes_received s)) (\<lambda>t.
     and_then (put_u64 t (ts_bytes_sent s)) (\<lambda>t.
       put_option put_u64 t (ts_last_handshake_unix_ms s)))"

definition encode_response :: "response_envelope \<Rightarrow> frame_error + u8 list" where
  "encode_response response =
     (if rs_contract_version response \<noteq> CONTRACT_VERSION then Inl UnsupportedVersion
      else and_then (validate_identifier (rs_request_id response)) (\<lambda>_.
        and_then (validate_identifier (rs_code response)) (\<lambda>_.
        and_then (put_string [] (rs_request_id response)) (\<lambda>t.
        and_then (put_bytes t [phase_byte (rs_phase response)]) (\<lambda>t.
        and_then (put_option put_string t (rs_profile_id response)) (\<lambda>t.
        and_then (put_bool t (rs_kill_switch_active response)) (\<lambda>t.
        and_then (put_string t (rs_code response)) (\<lambda>t.
        and_then (put_option put_statistics t (rs_statistics response)) (\<lambda>body.
          encode_frame 0x81 body)))))))))"

text \<open>A string that must be an identifier: \<open>cursor.string()?\<close> then \<open>validate_identifier\<close>.\<close>

definition cursor_identifier :: "string decoder" where
  "cursor_identifier c =
     and_then (cursor_string c) (\<lambda>(s, c). and_then (validate_identifier s) (\<lambda>_. Inr (s, c)))"

definition cursor_phase :: "connection_phase decoder" where
  "cursor_phase c =
     and_then (cursor_byte c) (\<lambda>(b, c). and_then (decode_phase b) (\<lambda>phase. Inr (phase, c)))"

definition cursor_statistics :: "tunnel_statistics decoder" where
  "cursor_statistics c =
     and_then (cursor_u64 c) (\<lambda>(bytes_received, c).
     and_then (cursor_u64 c) (\<lambda>(bytes_sent, c).
     and_then (cursor_option cursor_i64 c) (\<lambda>(last_handshake, c).
       Inr (\<lparr>ts_bytes_received = bytes_received, ts_bytes_sent = bytes_sent,
             ts_last_handshake_unix_ms = last_handshake\<rparr>, c))))"

definition decode_response :: "u8 list \<Rightarrow> frame_error + response_envelope" where
  "decode_response frame =
     and_then (decode_frame frame) (\<lambda>(opcode, version, body).
       if opcode \<noteq> 0x81 then Inl UnknownOperation
       else
         and_then (cursor_identifier (cursor_new body)) (\<lambda>(request_id, c).
         and_then (cursor_phase c) (\<lambda>(phase, c).
         and_then (cursor_option cursor_identifier c) (\<lambda>(profile_id, c).
         and_then (cursor_bool c) (\<lambda>(kill_switch_active, c).
         and_then (cursor_identifier c) (\<lambda>(code_text, c).
         and_then (cursor_option cursor_statistics c) (\<lambda>(statistics, c).
           if \<not> cursor_finished c then Inl TrailingData
           else Inr \<lparr>rs_contract_version = version, rs_request_id = request_id, rs_phase = phase,
                     rs_profile_id = profile_id, rs_kill_switch_active = kill_switch_active,
                     rs_code = code_text, rs_statistics = statistics\<rparr>)))))))"

section \<open>Frames\<close>

lemma encode_frame_cases:
  "encode_frame opcode body =
     (if MAX_FRAME_SIZE < length body + 12 then Inl TooLarge
      else Inr (MAGIC @ [4, 0] @ [opcode, 0] @ u32_to_le (word_of_nat (length body)) @ body))"
proof -
  have "try_u16 (unat CONTRACT_VERSION) = Some 4" by (simp add: try_u16_def CONTRACT_VERSION_def)
  moreover have "u16_to_le 4 = [4, 0]" by code_simp
  moreover have "length body < 2 ^ 32" if "\<not> MAX_FRAME_SIZE < length body + 12"
    using that by (simp add: MAX_FRAME_SIZE_def)
  ultimately show ?thesis by (simp add: encode_frame_def)
qed

lemma length_magic [simp]: "length MAGIC = 4"
  by (simp add: MAGIC_def)

lemma length_4_cases: "length xs = 4 \<Longrightarrow> \<exists>a b c d. xs = [a, b, c, d]"
  by (auto simp: length_Suc_conv numeral_eq_Suc)

lemma frame_parts:
  assumes "encode_frame opcode body = Inr f"
  obtains l where "f = MAGIC @ [4, 0, opcode, 0] @ u32_to_le l @ body" "unat l = length body"
    "length f = 12 + length body" "length f \<le> MAX_FRAME_SIZE"
proof -
  have small: "\<not> MAX_FRAME_SIZE < length body + 12"
    using assms by (auto simp: encode_frame_cases split: if_splits)
  have n: "unat (word_of_nat (length body) :: u32) = length body"
    using small by (simp add: unat_of_nat MAX_FRAME_SIZE_def)
  have f: "f = MAGIC @ [4, 0, opcode, 0] @ u32_to_le (word_of_nat (length body)) @ body"
    using assms small by (simp add: encode_frame_cases)
  have "length f = 12 + length body" by (simp add: f)
  moreover have "length f \<le> MAX_FRAME_SIZE" using small by (simp add: f)
  ultimately show thesis using that [OF f n] by blast
qed

lemma header_fields:
  fixes l :: u32 and opcode :: u8
  defines "h \<equiv> MAGIC @ [4, 0, opcode, 0] @ u32_to_le l"
  shows "take 4 (h @ rest) = MAGIC" "(h @ rest) ! 4 = 4" "(h @ rest) ! 5 = 0"
    "(h @ rest) ! 6 = opcode" "(h @ rest) ! 7 = 0"
    "[(h @ rest) ! 8, (h @ rest) ! 9, (h @ rest) ! 10, (h @ rest) ! 11] = u32_to_le l"
    "drop 12 (h @ rest) = rest" "length h = 12"
proof -
  obtain m1 m2 m3 m4 where m: "MAGIC = [m1, m2, m3, m4]"
    using length_4_cases [of MAGIC] by auto
  obtain l1 l2 l3 l4 where l: "u32_to_le l = [l1, l2, l3, l4]"
    using length_4_cases [of "u32_to_le l"] by auto
  show "take 4 (h @ rest) = MAGIC" "(h @ rest) ! 4 = 4" "(h @ rest) ! 5 = 0"
    "(h @ rest) ! 6 = opcode" "(h @ rest) ! 7 = 0"
    "[(h @ rest) ! 8, (h @ rest) ! 9, (h @ rest) ! 10, (h @ rest) ! 11] = u32_to_le l"
    "drop 12 (h @ rest) = rest" "length h = 12"
    by (simp_all add: h_def m l nth_append numeral_eq_Suc)
qed

lemma wire_version: "(ucast (u16_from_le [4, 0]) :: u32) = CONTRACT_VERSION"
  by (simp add: u16_from_le_def CONTRACT_VERSION_def)

lemma decode_encode_frame:
  assumes "encode_frame opcode body = Inr f"
  shows "decode_frame f = Inr (opcode, CONTRACT_VERSION, body)"
proof -
  from assms obtain l where l: "f = (MAGIC @ [4, 0, opcode, 0] @ u32_to_le l) @ body"
    "unat l = length body" "length f = 12 + length body" "length f \<le> MAX_FRAME_SIZE"
    by (auto elim: frame_parts)
  show ?thesis
    using l(2-4) header_fields(1-7) [of opcode l body, folded l(1)]
    by (simp add: decode_frame_def Let_def wire_version)
qed

lemma declared_encode_frame:
  assumes "encode_frame opcode body = Inr f"
  shows "declared_frame_size (take 12 f) = Inr (length f)"
proof -
  from assms obtain l where l: "f = (MAGIC @ [4, 0, opcode, 0] @ u32_to_le l) @ body"
    "unat l = length body" "length f = 12 + length body" "length f \<le> MAX_FRAME_SIZE"
    by (auto elim: frame_parts)
  have "take 12 f = (MAGIC @ [4, 0, opcode, 0] @ u32_to_le l) @ []"
    using header_fields(8) [of opcode l] by (simp add: l(1))
  then show ?thesis
    using l(2-4) header_fields(1-7) [of opcode l "[]"] header_fields(8) [of opcode l] max_frame_below_usize
    by (simp add: declared_frame_size_def wire_version checked_add_def add.commute
        flip: append_assoc)
qed

text \<open>Bytes after the declared end, or missing before it, are refused by the header alone.\<close>

lemma decode_frame_extended:
  assumes "encode_frame opcode body = Inr f" "x \<noteq> []" "length (f @ x) \<le> MAX_FRAME_SIZE"
  shows "decode_frame (f @ x) = Inl InvalidLength"
proof -
  from assms(1) obtain l where l: "f = (MAGIC @ [4, 0, opcode, 0] @ u32_to_le l) @ body"
    "unat l = length body" "length f = 12 + length body"
    by (auto elim: frame_parts)
  have "f @ x = (MAGIC @ [4, 0, opcode, 0] @ u32_to_le l) @ (body @ x)" by (simp add: l(1))
  from header_fields(1-7) [of opcode l "body @ x", folded this] show ?thesis
    using l(2,3) assms(2,3) by (simp add: decode_frame_def Let_def wire_version)
qed

lemma decode_frame_truncated:
  assumes "encode_frame opcode body = Inr f" "n < length f"
  shows "decode_frame (take n f) = Inl (if n < 12 then TooShort else InvalidLength)"
proof -
  from assms(1) obtain l where l: "f = (MAGIC @ [4, 0, opcode, 0] @ u32_to_le l) @ body"
    "unat l = length body" "length f = 12 + length body" "length f \<le> MAX_FRAME_SIZE"
    by (auto elim: frame_parts)
  show ?thesis
  proof (cases "n < 12")
    case True
    with l(4) assms(2) show ?thesis by (simp add: decode_frame_def)
  next
    case False
    have "take n (h @ body) = h @ take (n - 12) body" if "length h = 12" for h :: "u8 list"
      using False that by simp
    from this [OF header_fields(8) [of opcode l]]
    have "take n f = (MAGIC @ [4, 0, opcode, 0] @ u32_to_le l) @ take (n - 12) body"
      by (simp only: l(1))
    from header_fields(1-7) [of opcode l "take (n - 12) body", folded this] show ?thesis
      using l(2-4) assms(2) False by (simp add: decode_frame_def Let_def wire_version)
  qed
qed

lemma decode_frame_SomeD:
  "decode_frame f = Inr (opcode, version, body) \<Longrightarrow>
   version = CONTRACT_VERSION \<and> length body < usize_limit"
  using max_frame_below_usize by (auto simp: decode_frame_def Let_def split: if_splits)

section \<open>Commands\<close>

lemma reads_check:
  "m = Inr u \<Longrightarrow> reads (h u) enc y \<Longrightarrow> reads (\<lambda>c. and_then m (\<lambda>u. h u c)) enc y"
  by simp

lemma reads_protocol: "reads decode_protocol [protocol_byte p] p"
  unfolding decode_protocol_def [abs_def]
  by (rule reads_flag) (cases p; simp add: reads_return)

lemma put_string_get:
  "put_string t s = Inr t' \<Longrightarrow> ident s \<and> (\<exists>enc. t' = t @ enc \<and> reads cursor_string enc s)
     \<and> length t' \<le> length t + 65"
  using string_codec.put_get [of t s t'] string_codec.put_width [of t s t'] identifier_utf8 [of s]
  by (auto simp: put_string_def result_simps ident_def)

lemma put_string_not_large: "put_string t s \<noteq> Inl TooLarge"
  by (rule string_codec.put_not_large)

lemma put_import_get:
  assumes "put_string t operation = Inr u" "put u p = Inr t'" "validate p = Inr ()"
    and "\<exists>enc. t' = u @ enc \<and> reads get enc p"
  shows "\<exists>enc. t' = t @ enc \<and> reads (\<lambda>c. and_then (cursor_string c) (\<lambda>(operation_id, c).
        and_then (validate_identifier operation_id) (\<lambda>_.
        and_then (get c) (\<lambda>(profile, c).
        and_then (validate profile) (\<lambda>_. Inr (C operation_id profile, c)))))) enc (C operation p)"
proof -
  from put_string_get [OF assms(1)] obtain e1 where
    e1: "ident operation" "u = t @ e1" "reads cursor_string e1 operation" by blast
  from assms(4) obtain e2 where e2: "t' = u @ e2" "reads get e2 p" by blast
  have "reads (\<lambda>c. and_then (cursor_string c) (\<lambda>(operation_id, c).
        and_then (validate_identifier operation_id) (\<lambda>_.
        and_then (get c) (\<lambda>(profile, c).
        and_then (validate profile) (\<lambda>_. Inr (C operation_id profile, c)))))) (e1 @ e2) (C operation p)"
    by (rule reads_bindI [OF e1(3) refl], rule reads_check, use e1(1) in simp,
        rule reads_bind_lastI [OF e2(2)]) (simp add: assms(3) reads_return)
  with e1(2) e2(1) show ?thesis by auto
qed

lemma put_ids_get:
  assumes "put_string t a = Inr u" "put_string u b = Inr t'"
    and "reads (h a b) enc y"
  shows "\<exists>e. t' = t @ e \<and> reads (\<lambda>c. and_then (cursor_string c) (\<lambda>(operation_id, c).
        and_then (cursor_string c) (\<lambda>(profile_id, c).
        and_then (validate_identifier operation_id) (\<lambda>_.
        and_then (validate_identifier profile_id) (\<lambda>_. h operation_id profile_id c))))) (e @ enc) y"
proof -
  from put_string_get [OF assms(1)] obtain e1 where
    e1: "ident a" "u = t @ e1" "reads cursor_string e1 a" by blast
  from put_string_get [OF assms(2)] obtain e2 where
    e2: "ident b" "t' = u @ e2" "reads cursor_string e2 b" by blast
  have "reads (\<lambda>c. and_then (cursor_string c) (\<lambda>(operation_id, c).
        and_then (cursor_string c) (\<lambda>(profile_id, c).
        and_then (validate_identifier operation_id) (\<lambda>_.
        and_then (validate_identifier profile_id) (\<lambda>_. h operation_id profile_id c))))) (e1 @ e2 @ enc) y"
    by (rule reads_bindI [OF e1(3) refl], rule reads_bindI [OF e2(3) refl])
      (simp add: e1(1) e2(1) assms(3))
  with e1(2) e2(2) show ?thesis by (intro exI [of _ "e1 @ e2"]) simp
qed

text \<open>A command that was put is read back, and how long it is at most.\<close>

lemma put_command_get:
  assumes "put_command t cmd = Inr (opcode, t')" "wt_command cmd"
  shows "\<exists>enc. t' = t @ enc \<and> reads (decode_command opcode) enc cmd"
proof (cases cmd)
  case (Connect connect)
  from assms(1) Connect obtain u v where
    s: "put_string t (cr_operation_id connect) = Inr u" "put_string u (cr_profile_id connect) = Inr v"
    and t': "t' = v @ [protocol_byte (cr_protocol connect)] @ [if cr_kill_switch connect then 1 else 0]"
    and op: "opcode = 2"
    by (auto simp: result_simps)
  have "reads (\<lambda>c. and_then (decode_protocol c) (\<lambda>(protocol, c).
        and_then (cursor_bool c) (\<lambda>(kill_switch, c).
          Inr (Connect \<lparr>cr_operation_id = cr_operation_id connect, cr_profile_id = cr_profile_id connect,
                        cr_protocol = protocol, cr_kill_switch = kill_switch\<rparr>, c))))
      ([protocol_byte (cr_protocol connect)] @ [if cr_kill_switch connect then 1 else 0]) cmd"
    by (rule reads_bindI [OF reads_protocol refl], rule reads_bind_lastI [OF reads_bool])
      (cases connect, simp add: Connect reads_return)
  from put_ids_get [OF s, of "\<lambda>operation_id profile_id c. and_then (decode_protocol c) (\<lambda>(protocol, c).
        and_then (cursor_bool c) (\<lambda>(kill_switch, c).
          Inr (Connect \<lparr>cr_operation_id = operation_id, cr_profile_id = profile_id,
                        cr_protocol = protocol, cr_kill_switch = kill_switch\<rparr>, c)))", OF this]
  show ?thesis
    unfolding t' op by (auto simp: decode_command_def [abs_def])
next
  case (Disconnect operation_id)
  from assms(1) Disconnect have s: "put_string t operation_id = Inr t'" and op: "opcode = 3"
    by (auto simp: result_simps)
  from put_string_get [OF s] obtain e where
    e: "ident operation_id" "t' = t @ e" "reads cursor_string e operation_id" by blast
  have "reads (decode_command opcode) e cmd"
    by (simp add: decode_command_def [abs_def] op, rule reads_bind_lastI [OF e(3)])
      (simp add: e(1) Disconnect reads_return)
  with e(2) show ?thesis by blast
next
  case (ImportWireGuardProfile operation_id p)
  from assms(1) ImportWireGuardProfile obtain u where
    s: "put_string t operation_id = Inr u" and q: "put_profile u p = Inr t'"
    and v: "validate_wireguard p = Inr ()" and op: "opcode = 5"
    by (auto simp: result_simps)
  have "ok_wireguard p" using v assms(2) ImportWireGuardProfile by (simp add: ok_wireguard_def)
  from put_import_get [where put = put_profile and get = cursor_profile and validate = validate_wireguard and C = ImportWireGuardProfile,
      OF s q v wireguard_codec.put_get [OF q this]] show ?thesis
    by (simp add: decode_command_def [abs_def] op ImportWireGuardProfile)
next
  case (ImportAmneziaWgProfile operation_id p)
  from assms(1) ImportAmneziaWgProfile obtain u where
    s: "put_string t operation_id = Inr u" and q: "put_amneziawg_profile u p = Inr t'"
    and v: "validate_amneziawg p = Inr ()" and op: "opcode = 8"
    by (auto simp: result_simps)
  have "ok_amneziawg p" using v assms(2) ImportAmneziaWgProfile by (simp add: ok_amneziawg_def)
  from put_import_get [where put = put_amneziawg_profile and get = cursor_amneziawg_profile and validate = validate_amneziawg and C = ImportAmneziaWgProfile,
      OF s q v amneziawg_codec.put_get [OF q this]] show ?thesis
    by (simp add: decode_command_def [abs_def] op ImportAmneziaWgProfile)
next
  case (ImportVlessRealityProfile operation_id p)
  from assms(1) ImportVlessRealityProfile obtain u where
    s: "put_string t operation_id = Inr u" and q: "put_vless_profile u p = Inr t'"
    and v: "validate_vless p = Inr ()" and op: "opcode = 9"
    by (auto simp: result_simps)
  have "ok_vless p" using v assms(2) ImportVlessRealityProfile by (simp add: ok_vless_def)
  from put_import_get [where put = put_vless_profile and get = cursor_vless_profile and validate = validate_vless and C = ImportVlessRealityProfile,
      OF s q v vless_codec.put_get [OF q this]] show ?thesis
    by (simp add: decode_command_def [abs_def] op ImportVlessRealityProfile)
next
  case (DeleteProfile operation_id profile_id)
  from assms(1) DeleteProfile obtain u where
    s: "put_string t operation_id = Inr u" "put_string u profile_id = Inr t'" and op: "opcode = 6"
    by (auto simp: result_simps)
  have "reads (\<lambda>c. Inr (DeleteProfile operation_id profile_id, c)) [] cmd"
    by (simp add: DeleteProfile reads_return)
  from put_ids_get [OF s, of "\<lambda>operation_id profile_id c. Inr (DeleteProfile operation_id profile_id, c)",
      OF this]
  show ?thesis by (simp add: decode_command_def [abs_def] op)
qed (use assms in \<open>auto simp: decode_command_def [abs_def] reads_return\<close>)

lemma put_command_width:
  assumes "put_command t cmd = Inr (opcode, t')" "wt_command cmd"
  shows "length t' \<le> length t + 32473"
proof (cases cmd)
  case (Connect connect)
  with assms put_string_get [of t "cr_operation_id connect"] put_string_get [of _ "cr_profile_id connect"]
  show ?thesis by (fastforce simp: result_simps)
next
  case (Disconnect operation_id)
  with assms put_string_get [of t operation_id] show ?thesis by (fastforce simp: result_simps)
next
  case (ImportWireGuardProfile operation_id p)
  with assms put_string_get [of t operation_id] wireguard_codec.put_width [of _ p t']
  show ?thesis by (fastforce simp: result_simps ok_wireguard_def)
next
  case (ImportAmneziaWgProfile operation_id p)
  with assms put_string_get [of t operation_id] amneziawg_codec.put_width [of _ p t']
  show ?thesis by (fastforce simp: result_simps ok_amneziawg_def)
next
  case (ImportVlessRealityProfile operation_id p)
  with assms put_string_get [of t operation_id] vless_codec.put_width [of _ p t']
  show ?thesis by (fastforce simp: result_simps ok_vless_def)
next
  case (DeleteProfile operation_id profile_id)
  with assms put_string_get [of t operation_id] put_string_get [of _ profile_id]
  show ?thesis by (fastforce simp: result_simps)
qed (use assms in auto)

lemma put_command_not_large: "put_command t cmd \<noteq> Inl TooLarge"
  by (cases cmd)
    (auto simp: result_simps put_string_not_large wireguard_codec.put_not_large
      amneziawg_codec.put_not_large vless_codec.put_not_large
      dest: validate_wireguard_Inl validate_amneziawg_Inl validate_vless_Inl)

section \<open>Requests: round trip, size and soundness of the decoder\<close>

lemma encode_request_parts:
  assumes "encode_request r = Inr f"
  obtains body body' opcode where
    "ident (rq_request_id r)" "rq_contract_version r = CONTRACT_VERSION"
    "put_string [] (rq_request_id r) = Inr body" "put_command body (rq_command r) = Inr (opcode, body')"
    "encode_frame opcode body' = Inr f"
  using assms by (auto simp: encode_request_def result_simps split: if_splits)

lemma decode_encode_request_lemma:
  assumes "wt_request r" "encode_request r = Inr f"
  shows "decode_request f = Inr r"
proof -
  from assms(2) obtain body body' opcode where
    e: "ident (rq_request_id r)" "rq_contract_version r = CONTRACT_VERSION"
      "put_string [] (rq_request_id r) = Inr body" "put_command body (rq_command r) = Inr (opcode, body')"
      "encode_frame opcode body' = Inr f"
    by (rule encode_request_parts)
  have wt: "wt_command (rq_command r)" using assms(1) by (simp add: wt_request_def)
  have frame: "decode_frame f = Inr (opcode, CONTRACT_VERSION, body')"
    using e(5) by (rule decode_encode_frame)
  obtain e1 where e1: "body = e1" "reads cursor_string e1 (rq_request_id r)"
    using put_string_get [OF e(3)] by auto
  obtain e2 where e2: "body' = body @ e2" "reads (decode_command opcode) e2 (rq_command r)"
    using put_command_get [OF e(4) wt] by blast
  have "at_bytes (cursor_new body') (e1 @ e2)"
    using decode_frame_SomeD [OF frame] e1(1) e2(1) by (simp add: at_bytes_new)
  from readsE [OF e1(2) this] obtain c1 where
    c1: "cursor_string (cursor_new body') = Inr (rq_request_id r, c1)" "at_bytes c1 (e2 @ [])" by auto
  from readsE [OF e2(2) c1(2)] obtain c2 where
    c2: "decode_command opcode c1 = Inr (rq_command r, c2)" "at_bytes c2 []" .
  show ?thesis
    using e(1,2) frame c1(1) c2(1) at_bytes_finished [OF c2(2)] by (simp add: decode_request_def)
qed

lemma encode_request_not_large: "wt_request r \<Longrightarrow> encode_request r \<noteq> Inl TooLarge"
proof
  assume wt: "wt_request r" and large: "encode_request r = Inl TooLarge"
  from large obtain body body' opcode where
    b: "put_string [] (rq_request_id r) = Inr body" "put_command body (rq_command r) = Inr (opcode, body')"
      "encode_frame opcode body' = Inl TooLarge"
    by (auto simp: encode_request_def result_simps put_string_not_large put_command_not_large
        split: if_splits)
  have "length body' \<le> 65 + 32473"
    using put_string_get [OF b(1)] put_command_width [OF b(2)] wt by (simp add: wt_request_def)
  with b(3) show False by (simp add: encode_frame_cases MAX_FRAME_SIZE_def)
qed

named_theorems decoded \<open>what a decoder guarantees of its result\<close>

lemma cursor_bytes_length [decoded]: "cursor_bytes n c = Inr (bs, c') \<Longrightarrow> length bs = n"
  by (auto simp: cursor_bytes_def result_simps checked_add_def slice_get_def split: if_splits)

lemma cursor_string_utf8 [decoded]: "cursor_string c = Inr (s, c') \<Longrightarrow> valid_utf8 s"
  by (auto simp: cursor_string_def result_simps dest: from_utf8_SomeD)

lemma cursor_bounded_string_utf8 [decoded]: "cursor_bounded_string c = Inr (s, c') \<Longrightarrow> valid_utf8 s"
  by (auto simp: cursor_bounded_string_def result_simps dest: cursor_string_utf8 split: if_splits)

lemma cursor_optional_string_utf8 [decoded]:
  "cursor_optional_bounded_string c = Inr (s, c') \<Longrightarrow> valid_utf8 s"
  by (auto simp: cursor_optional_bounded_string_def result_simps dest: from_utf8_SomeD)

lemma cursor_long_string_utf8 [decoded]: "cursor_long_string c = Inr (s, c') \<Longrightarrow> valid_utf8 s"
  by (auto simp: cursor_long_string_def result_simps dest: from_utf8_SomeD split: if_splits)

lemma cursor_repeat_all:
  assumes "\<And>c x c'. get c = Inr (x, c') \<Longrightarrow> P x"
  shows "cursor_repeat n get c = Inr (xs, c') \<Longrightarrow> list_all P xs"
  by (induction n arbitrary: c xs c') (auto simp: result_simps dest: assms)

lemma cursor_string_list_utf8 [decoded]:
  "cursor_string_list m c = Inr (vs, c') \<Longrightarrow> list_all valid_utf8 vs"
  by (auto simp: cursor_string_list_def result_simps split: if_splits
      intro: cursor_repeat_all [OF cursor_bounded_string_utf8])

lemma cursor_junk_utf8 [decoded]: "cursor_junk c = Inr (vs, c') \<Longrightarrow> list_all valid_utf8 vs"
  by (auto simp: cursor_junk_def result_simps split: if_splits
      intro: cursor_repeat_all [OF cursor_long_string_utf8])

lemma cursor_option_all:
  "cursor_option get c = Inr (v, c') \<Longrightarrow> (\<And>c x c'. get c = Inr (x, c') \<Longrightarrow> P x) \<Longrightarrow>
   (case v of None \<Rightarrow> True | Some x \<Rightarrow> P x)"
  by (auto simp: cursor_option_def result_simps split: if_splits)

lemma cursor_key: "cursor_bytes 32 c = Inr (k, c') \<Longrightarrow> wt_key k"
  by (auto simp: wt_key_def dest: cursor_bytes_length)

lemma cursor_option_key:
  "cursor_option (cursor_bytes 32) c = Inr (v, c') \<Longrightarrow> (case v of None \<Rightarrow> True | Some k \<Rightarrow> wt_key k)"
  by (rule cursor_option_all) (auto intro: cursor_key)

lemma cursor_profile_wt [decoded]: "cursor_profile c = Inr (p, c') \<Longrightarrow> wt_wireguard p"
  by (auto simp: cursor_profile_def result_simps wt_wireguard_def
      dest!: cursor_key cursor_option_key cursor_string_list_utf8 cursor_bounded_string_utf8)

lemma cursor_amneziawg_wt [decoded]: "cursor_amneziawg_profile c = Inr (p, c') \<Longrightarrow> wt_amneziawg p"
  by (auto simp: cursor_amneziawg_profile_def result_simps wt_amneziawg_def dest: decoded)

lemma cursor_vless_wt [decoded]: "cursor_vless_profile c = Inr (p, c') \<Longrightarrow> wt_vless p"
  by (auto simp: cursor_vless_profile_def result_simps wt_vless_def dest: decoded)

text \<open>What the checks of the boundary say of a command, whoever built it.\<close>

primrec valid_command :: "control_command \<Rightarrow> bool" where
  "valid_command Status = True"
| "valid_command (Connect c) = (ident (cr_operation_id c) \<and> ident (cr_profile_id c))"
| "valid_command (Disconnect operation) = ident operation"
| "valid_command Diagnostics = True"
| "valid_command (ImportWireGuardProfile operation p) = (ident operation \<and> validate_wireguard p = Inr ())"
| "valid_command (ImportAmneziaWgProfile operation p) = (ident operation \<and> validate_amneziawg p = Inr ())"
| "valid_command (ImportVlessRealityProfile operation p) = (ident operation \<and> validate_vless p = Inr ())"
| "valid_command (DeleteProfile operation profile) = (ident operation \<and> ident profile)"
| "valid_command Statistics = True"

lemma decode_command_valid:
  "decode_command opcode c = Inr (cmd, c') \<Longrightarrow> wt_command cmd \<and> valid_command cmd"
  by (auto simp: decode_command_def result_simps identifier_utf8 dest: decoded split: if_splits)

lemma decode_request_sound_lemma:
  assumes "decode_request f = Inr r"
  shows "rq_contract_version r = CONTRACT_VERSION" "ident (rq_request_id r)"
    "valid_command (rq_command r)" "wt_request r"
  using assms
  by (auto simp: decode_request_def result_simps wt_request_def identifier_utf8
      dest!: decode_command_valid decode_frame_SomeD split: if_splits)

lemma encode_request_valid:
  assumes "encode_request r = Inr f"
  shows "rq_contract_version r = CONTRACT_VERSION" "ident (rq_request_id r)" "valid_command (rq_command r)"
proof -
  from assms obtain body body' opcode where
    e: "ident (rq_request_id r)" "rq_contract_version r = CONTRACT_VERSION"
      "put_command body (rq_command r) = Inr (opcode, body')"
    by (rule encode_request_parts)
  then show "rq_contract_version r = CONTRACT_VERSION" "ident (rq_request_id r)" by simp_all
  show "valid_command (rq_command r)"
    using e(3) by (cases "rq_command r") (auto simp: result_simps)
qed

text \<open>Exactly the valid commands whose profile strings fit can be sent.\<close>

primrec fits_command :: "control_command \<Rightarrow> bool" where
  "fits_command Status = True"
| "fits_command (Connect c) = True"
| "fits_command (Disconnect operation) = True"
| "fits_command Diagnostics = True"
| "fits_command (ImportWireGuardProfile operation p) = fits_wireguard p"
| "fits_command (ImportAmneziaWgProfile operation p) = fits_amneziawg p"
| "fits_command (ImportVlessRealityProfile operation p) = fits_vless p"
| "fits_command (DeleteProfile operation profile) = True"
| "fits_command Statistics = True"

lemma put_string_is_ok: "is_ok (put_string t s) \<longleftrightarrow> ident s"
  by (auto simp: put_string_def is_ok_iff result_simps try_u8_def ident_def)

lemma put_import_is_ok:
  assumes "\<And>t. v = Inr () \<Longrightarrow> is_ok (put t) \<longleftrightarrow> b"
  shows "is_ok (and_then (validate_identifier a) (\<lambda>_. and_then v (\<lambda>_. and_then (put_string t a) (\<lambda>t.
      and_then (put t) (\<lambda>t. Inr (n, t)))))) \<longleftrightarrow> ident a \<and> v = Inr () \<and> b"
proof (cases "ident a \<and> v = Inr ()")
  case True
  then obtain u where u: "put_string t a = Inr u"
    using put_string_is_ok [of t a] by (auto simp: is_ok_iff)
  with True assms [of u] show ?thesis by (cases "put u") simp_all
next
  case False
  then show ?thesis by (cases v) (auto simp: is_ok_iff result_simps)
qed

lemma put_command_is_ok: "is_ok (put_command t cmd) \<longleftrightarrow> valid_command cmd \<and> fits_command cmd"
proof (cases cmd)
  case (Connect c)
  then show ?thesis
    using put_string_is_ok by (auto simp: is_ok_iff result_simps) blast+
next
  case (Disconnect i)
  then show ?thesis using put_string_is_ok by (auto simp: is_ok_iff result_simps)
next
  case (DeleteProfile i j)
  then show ?thesis using put_string_is_ok by (auto simp: is_ok_iff result_simps) blast+
next
  case (ImportWireGuardProfile i p)
  then show ?thesis by (simp add: put_import_is_ok [OF put_profile_is_ok])
next
  case (ImportAmneziaWgProfile i p)
  then show ?thesis by (simp add: put_import_is_ok [OF put_amneziawg_is_ok])
next
  case (ImportVlessRealityProfile i p)
  then show ?thesis by (simp add: put_import_is_ok [OF put_vless_is_ok])
qed simp_all

lemma encode_request_is_ok:
  assumes "wt_request r"
  shows "is_ok (encode_request r) \<longleftrightarrow>
    rq_contract_version r = CONTRACT_VERSION \<and> ident (rq_request_id r)
    \<and> valid_command (rq_command r) \<and> fits_command (rq_command r)"
proof
  assume "is_ok (encode_request r)"
  then obtain f where f: "encode_request r = Inr f" by (auto simp: is_ok_iff)
  from f obtain body body' opcode where "put_command body (rq_command r) = Inr (opcode, body')"
    by (rule encode_request_parts)
  with put_command_is_ok [of body "rq_command r"] encode_request_valid [OF f]
  show "rq_contract_version r = CONTRACT_VERSION \<and> ident (rq_request_id r)
    \<and> valid_command (rq_command r) \<and> fits_command (rq_command r)" by simp
next
  assume ok: "rq_contract_version r = CONTRACT_VERSION \<and> ident (rq_request_id r)
    \<and> valid_command (rq_command r) \<and> fits_command (rq_command r)"
  obtain body where b: "put_string [] (rq_request_id r) = Inr body"
    using ok put_string_is_ok [of "[]" "rq_request_id r"] by (auto simp: is_ok_iff)
  obtain opcode body' where c: "put_command body (rq_command r) = Inr (opcode, body')"
    using ok put_command_is_ok [of body "rq_command r"] by (auto simp: is_ok_iff)
  have "length body' \<le> 65 + 32473"
    using put_string_get [OF b] put_command_width [OF c] assms by (simp add: wt_request_def)
  with ok b c show "is_ok (encode_request r)"
    by (simp add: encode_request_def encode_frame_cases MAX_FRAME_SIZE_def)
qed

section \<open>Responses: round trip, totality and soundness of the decoder\<close>

lemma decode_phase_byte: "decode_phase (phase_byte p) = Inr p"
  by (cases p) (simp_all add: decode_phase_def)

lemma reads_phase: "reads cursor_phase [phase_byte p] p"
  unfolding cursor_phase_def [abs_def]
  by (rule reads_flag) (simp add: decode_phase_byte reads_return)

interpretation identifier_codec:
  bounded_codec put_string cursor_identifier "\<lambda>_. True" "\<lambda>_. 65"
proof
  fix t s t'
  assume p: "put_string t s = Inr t'"
  from put_string_get [OF p] obtain e where e: "ident s" "t' = t @ e" "reads cursor_string e s" by blast
  have "reads cursor_identifier e s"
    unfolding cursor_identifier_def [abs_def]
    by (rule reads_bind_lastI [OF e(3)]) (simp add: e(1) reads_return)
  with e(2) show "\<exists>e. t' = t @ e \<and> reads cursor_identifier e s" by blast
  show "length t' \<le> length t + 65" using put_string_get [OF p] by blast
qed (rule put_string_not_large)

lemma put_statistics_get:
  assumes "put_statistics t s = Inr t'"
  shows "\<exists>enc. t' = t @ enc \<and> reads cursor_statistics enc s" "length t' \<le> length t + 25"
proof -
  from assms obtain t1 t2 where
    s: "put_u64 t (ts_bytes_received s) = Inr t1" "put_u64 t1 (ts_bytes_sent s) = Inr t2"
      "put_option put_u64 t2 (ts_last_handshake_unix_ms s) = Inr t'"
    by (auto simp: put_statistics_def result_simps)
  obtain e1 e2 e3 where e: "t1 = t @ e1" "reads cursor_u64 e1 (ts_bytes_received s)"
    "t2 = t1 @ e2" "reads cursor_u64 e2 (ts_bytes_sent s)"
    "t' = t2 @ e3" "reads (cursor_option cursor_i64) e3 (ts_last_handshake_unix_ms s)"
    using u64_codec.put_get [OF s(1)] u64_codec.put_get [OF s(2)] i64_codec.put_option_get [OF s(3)]
    by blast
  have "reads cursor_statistics (e1 @ e2 @ e3) s"
    unfolding cursor_statistics_def [abs_def]
    by (rule reads_bindI [OF e(2) refl] reads_bindI [OF e(4) refl] reads_bind_lastI [OF e(6)])+
      (cases s, simp add: reads_return)
  with e(1,3,5) show "\<exists>enc. t' = t @ enc \<and> reads cursor_statistics enc s" by auto
  show "length t' \<le> length t + 25"
    using u64_codec.put_width [OF s(1)] u64_codec.put_width [OF s(2)] i64_codec.put_option_width [OF s(3)]
    by (simp split: option.splits)
qed

interpretation statistics_codec:
  bounded_codec put_statistics cursor_statistics "\<lambda>_. True" "\<lambda>_. 25"
  by unfold_locales
    (use put_statistics_get in
      \<open>auto simp: put_statistics_def result_simps u64_codec.put_not_large u64_codec.put_option_not_large\<close>)

lemma encode_response_parts:
  assumes "encode_response r = Inr f"
  obtains t1 t2 t3 t4 t5 body where
    "rs_contract_version r = CONTRACT_VERSION"
    "put_string [] (rs_request_id r) = Inr t1" "put_bytes t1 [phase_byte (rs_phase r)] = Inr t2"
    "put_option put_string t2 (rs_profile_id r) = Inr t3" "put_bool t3 (rs_kill_switch_active r) = Inr t4"
    "put_string t4 (rs_code r) = Inr t5" "put_option put_statistics t5 (rs_statistics r) = Inr body"
    "encode_frame 0x81 body = Inr f"
  using assms by (auto simp: encode_response_def result_simps split: if_splits)

lemma decode_encode_response_lemma:
  assumes "encode_response r = Inr f"
  shows "decode_response f = Inr r"
proof -
  from assms obtain t1 t2 t3 t4 t5 body where
    v: "rs_contract_version r = CONTRACT_VERSION" and
    s: "put_string [] (rs_request_id r) = Inr t1" "put_bytes t1 [phase_byte (rs_phase r)] = Inr t2"
    "put_option put_string t2 (rs_profile_id r) = Inr t3" "put_bool t3 (rs_kill_switch_active r) = Inr t4"
    "put_string t4 (rs_code r) = Inr t5" "put_option put_statistics t5 (rs_statistics r) = Inr body"
    and fr: "encode_frame 0x81 body = Inr f"
    by (rule encode_response_parts)
  have frame: "decode_frame f = Inr (0x81, CONTRACT_VERSION, body)"
    using fr by (rule decode_encode_frame)
  obtain e1 e3 e4 e5 e6 where e: "t1 = e1" "reads cursor_identifier e1 (rs_request_id r)"
    "t3 = t2 @ e3" "reads (cursor_option cursor_identifier) e3 (rs_profile_id r)"
    "t4 = t3 @ e4" "reads cursor_bool e4 (rs_kill_switch_active r)"
    "t5 = t4 @ e5" "reads cursor_identifier e5 (rs_code r)"
    "body = t5 @ e6" "reads (cursor_option cursor_statistics) e6 (rs_statistics r)"
    using identifier_codec.put_get [OF s(1)] identifier_codec.put_option_get [OF s(3)]
      bool_codec.put_get [OF s(4)] identifier_codec.put_get [OF s(5)]
      statistics_codec.put_option_get [OF s(6)] by auto
  have t2: "t2 = t1 @ [phase_byte (rs_phase r)]" using s(2) by (simp add: put_bytes_def)
  have body: "body = e1 @ [phase_byte (rs_phase r)] @ e3 @ e4 @ e5 @ e6 @ []"
    using e t2 by simp
  have "at_bytes (cursor_new body) body"
    using decode_frame_SomeD [OF frame] by (simp add: at_bytes_new)
  from readsE [OF e(2) this [unfolded body]] obtain c1 where
    c1: "cursor_identifier (cursor_new body) = Inr (rs_request_id r, c1)"
      "at_bytes c1 ([phase_byte (rs_phase r)] @ e3 @ e4 @ e5 @ e6 @ [])" by (auto simp: body)
  from readsE [OF reads_phase c1(2)] obtain c2 where
    c2: "cursor_phase c1 = Inr (rs_phase r, c2)" "at_bytes c2 (e3 @ e4 @ e5 @ e6 @ [])" .
  from readsE [OF e(4) c2(2)] obtain c3 where
    c3: "cursor_option cursor_identifier c2 = Inr (rs_profile_id r, c3)" "at_bytes c3 (e4 @ e5 @ e6 @ [])" .
  from readsE [OF e(6) c3(2)] obtain c4 where
    c4: "cursor_bool c3 = Inr (rs_kill_switch_active r, c4)" "at_bytes c4 (e5 @ e6 @ [])" .
  from readsE [OF e(8) c4(2)] obtain c5 where
    c5: "cursor_identifier c4 = Inr (rs_code r, c5)" "at_bytes c5 (e6 @ [])" .
  from readsE [OF e(10) c5(2)] obtain c6 where
    c6: "cursor_option cursor_statistics c5 = Inr (rs_statistics r, c6)" "at_bytes c6 []" .
  show ?thesis
    using v frame c1(1) c2(1) c3(1) c4(1) c5(1) c6(1) at_bytes_finished [OF c6(2)]
    by (simp add: decode_response_def)
qed

text \<open>A response whose identifiers are identifiers can always be sent.\<close>

definition sendable :: "response_envelope \<Rightarrow> bool" where
  "sendable r \<longleftrightarrow>
     rs_contract_version r = CONTRACT_VERSION \<and> ident (rs_request_id r) \<and> ident (rs_code r)
     \<and> (case rs_profile_id r of None \<Rightarrow> True | Some p \<Rightarrow> ident p)"

lemma put_string_ident: "ident s \<Longrightarrow> \<exists>t'. put_string t s = Inr t'"
  by (simp add: put_string_def result_simps try_u8_def ident_def)

lemma encode_response_sendable:
  assumes "sendable r"
  shows "\<exists>f. encode_response r = Inr f \<and> length f \<le> 248"
proof -
  note ok = assms [unfolded sendable_def]
  obtain t1 where t1: "put_string [] (rs_request_id r) = Inr t1"
    using ok put_string_ident by blast
  obtain t2 where t2: "put_bytes t1 [phase_byte (rs_phase r)] = Inr t2" by (simp add: put_bytes_def)
  obtain t3 where t3: "put_option put_string t2 (rs_profile_id r) = Inr t3"
    using ok put_string_ident by (cases "rs_profile_id r") (auto simp: put_option_def)
  obtain t4 where t4: "put_bool t3 (rs_kill_switch_active r) = Inr t4" by (simp add: put_bool_def)
  obtain t5 where t5: "put_string t4 (rs_code r) = Inr t5" using ok put_string_ident by blast
  obtain body where t6: "put_option put_statistics t5 (rs_statistics r) = Inr body"
    by (cases "rs_statistics r"; cases "ts_last_handshake_unix_ms (the (rs_statistics r))")
      (auto simp: put_option_def put_statistics_def put_u64_def)
  have len: "length body \<le> 236"
    using put_string_get [OF t1] t2 identifier_codec.put_option_width [OF t3] t4
      put_string_get [OF t5] statistics_codec.put_option_width [OF t6]
    by (auto simp: put_bytes_def put_bool_def split: option.splits)
  then obtain f where f: "encode_frame 0x81 body = Inr f"
    by (simp add: encode_frame_cases MAX_FRAME_SIZE_def)
  moreover have "encode_response r = encode_frame 0x81 body"
    using ok t1 t2 t3 t4 t5 t6 by (simp add: encode_response_def)
  moreover have "length f \<le> 248" using f len by (auto elim: frame_parts)
  ultimately show ?thesis by auto
qed

lemma encode_response_only_sendable: "encode_response r = Inr f \<Longrightarrow> sendable r"
  by (auto simp: encode_response_def sendable_def put_option_def result_simps
      dest: put_string_get split: if_splits option.splits)

lemma cursor_identifier_ident [decoded]: "cursor_identifier c = Inr (s, c') \<Longrightarrow> ident s"
  by (auto simp: cursor_identifier_def result_simps)

lemma cursor_option_ident:
  "cursor_option cursor_identifier c = Inr (v, c') \<Longrightarrow> (case v of None \<Rightarrow> True | Some s \<Rightarrow> ident s)"
  by (rule cursor_option_all) (auto intro: cursor_identifier_ident)

lemma decode_response_sendable: "decode_response f = Inr r \<Longrightarrow> sendable r"
  by (auto simp: decode_response_def result_simps sendable_def split: if_splits
      dest!: decode_frame_SomeD cursor_identifier_ident cursor_option_ident)

end
