(* ===== verification/Contract_Sealed.thy ===== *)
theory Contract_Sealed
  imports Contract_Frame
begin

text \<open>
  The sealed profile forms that the vault encrypts: \<open>encode_wireguard_profile\<close>,
  \<open>encode_amneziawg_profile\<close>, \<open>encode_vless_profile\<close> and their decoders. The source writes the same
  function three times over; here it is written once over the tag, the validator and the field
  codec, and one interface, interpreted three times, gives the properties of all.
\<close>

definition seal_profile ::
  "u8 list \<Rightarrow> ('a \<Rightarrow> frame_error + unit) \<Rightarrow> (u8 list \<Rightarrow> 'a \<Rightarrow> frame_error + u8 list) \<Rightarrow>
   'a \<Rightarrow> frame_error + u8 list" where
  "seal_profile tag validate put profile =
     and_then (validate profile) (\<lambda>_.
     and_then (put tag profile) (\<lambda>bytes.
       if MAX_FRAME_SIZE < length bytes then Inl TooLarge else Inr bytes))"

definition open_profile ::
  "u8 list \<Rightarrow> ('a \<Rightarrow> frame_error + unit) \<Rightarrow> 'a decoder \<Rightarrow> u8 list \<Rightarrow> frame_error + 'a" where
  "open_profile tag validate get bytes =
     (if MAX_FRAME_SIZE < length bytes then Inl TooLarge
      else if take (length tag) bytes \<noteq> tag then Inl InvalidMagic
      else and_then (get (cursor_new (drop 4 bytes))) (\<lambda>(profile, c).
        if \<not> cursor_finished c then Inl TrailingData
        else and_then (validate profile) (\<lambda>_. Inr profile)))"

definition encode_wireguard_profile :: "wireguard_profile \<Rightarrow> frame_error + u8 list" where
  "encode_wireguard_profile = seal_profile (as_bytes ''KWP1'') validate_wireguard put_profile"

definition decode_wireguard_profile :: "u8 list \<Rightarrow> frame_error + wireguard_profile" where
  "decode_wireguard_profile = open_profile (as_bytes ''KWP1'') validate_wireguard cursor_profile"

definition encode_amneziawg_profile :: "amneziawg_profile \<Rightarrow> frame_error + u8 list" where
  "encode_amneziawg_profile = seal_profile (as_bytes ''KAP1'') validate_amneziawg put_amneziawg_profile"

definition decode_amneziawg_profile :: "u8 list \<Rightarrow> frame_error + amneziawg_profile" where
  "decode_amneziawg_profile = open_profile (as_bytes ''KAP1'') validate_amneziawg cursor_amneziawg_profile"

definition encode_vless_profile :: "vless_profile \<Rightarrow> frame_error + u8 list" where
  "encode_vless_profile = seal_profile (as_bytes ''KXP1'') validate_vless put_vless_profile"

definition decode_vless_profile :: "u8 list \<Rightarrow> frame_error + vless_profile" where
  "decode_vless_profile = open_profile (as_bytes ''KXP1'') validate_vless cursor_vless_profile"

section \<open>The interface of a sealed form\<close>

locale sealed_form = bounded_codec put get typed width
  for put :: "u8 list \<Rightarrow> 'a \<Rightarrow> frame_error + u8 list" and get typed width +
  fixes tag :: "u8 list" and validate :: "'a \<Rightarrow> frame_error + unit" and wt :: "'a \<Rightarrow> bool"
    and fits :: "'a \<Rightarrow> bool"
  assumes typed_iff: "typed x \<longleftrightarrow> wt x \<and> validate x = Inr ()"
    and get_wt: "get c = Inr (x, c') \<Longrightarrow> wt x"
    and width_bound: "width x + 4 \<le> MAX_FRAME_SIZE"
    and length_tag: "length tag = 4"
    and validate_error: "validate x = Inl e \<Longrightarrow> e = InvalidProfile"
    and put_is_ok: "validate x = Inr () \<Longrightarrow> is_ok (put t x) \<longleftrightarrow> fits x"
begin

lemma seal_parts:
  assumes "seal_profile tag validate put x = Inr bs" "wt x"
  obtains enc where "bs = tag @ enc" "reads get enc x" "validate x = Inr ()" "length bs \<le> MAX_FRAME_SIZE"
proof -
  from assms(1) have v: "validate x = Inr ()" and p: "put tag x = Inr bs"
    and l: "length bs \<le> MAX_FRAME_SIZE"
    by (auto simp: seal_profile_def result_simps split: if_splits)
  from put_get [OF p] v assms(2) obtain enc where "bs = tag @ enc" "reads get enc x"
    by (auto simp: typed_iff)
  with v l show thesis by (rule that [rotated 2])
qed

lemma open_seal:
  assumes "seal_profile tag validate put x = Inr bs" "wt x"
  shows "open_profile tag validate get bs = Inr x"
proof -
  from assms obtain enc where e: "bs = tag @ enc" "reads get enc x" "validate x = Inr ()"
    "length bs \<le> MAX_FRAME_SIZE" by (rule seal_parts)
  have "at_bytes (cursor_new enc) (enc @ [])"
    using e(1,4) max_frame_below_usize by (simp add: at_bytes_new)
  from readsE [OF e(2) this] obtain c where "get (cursor_new enc) = Inr (x, c)" "at_bytes c []" .
  with e length_tag at_bytes_finished show ?thesis by (simp add: open_profile_def)
qed

lemma open_trailing:
  assumes "seal_profile tag validate put x = Inr bs" "wt x"
    and "extra \<noteq> []" "length (bs @ extra) \<le> MAX_FRAME_SIZE"
  shows "open_profile tag validate get (bs @ extra) = Inl TrailingData"
proof -
  from assms(1,2) obtain enc where e: "bs = tag @ enc" "reads get enc x" "validate x = Inr ()"
    "length bs \<le> MAX_FRAME_SIZE" by (rule seal_parts)
  have "at_bytes (cursor_new (enc @ extra)) (enc @ extra)"
    using e(1) assms(4) max_frame_below_usize by (simp add: at_bytes_new)
  from readsE [OF e(2) this] obtain c where c: "get (cursor_new (enc @ extra)) = Inr (x, c)" "at_bytes c extra" .
  have "\<not> cursor_finished c"
    using c(2) assms(3) by (cases extra) (auto dest: at_bytes_not_finished)
  with e(1) c(1) length_tag assms(4) show ?thesis by (simp add: open_profile_def)
qed

lemma open_sound:
  "open_profile tag validate get bs = Inr x \<Longrightarrow> wt x \<and> validate x = Inr () \<and> take 4 bs = tag"
  using length_tag by (auto simp: open_profile_def result_simps split: if_splits dest: get_wt)

lemma seal_not_large: "wt x \<Longrightarrow> seal_profile tag validate put x \<noteq> Inl TooLarge"
  using put_not_large put_width [of tag x] width_bound [of x] length_tag
  by (fastforce simp: seal_profile_def result_simps typed_iff dest: validate_error split: if_splits)

text \<open>Exactly the validated profiles whose strings fit can be sealed.\<close>

lemma seal_is_ok:
  assumes "wt x"
  shows "is_ok (seal_profile tag validate put x) \<longleftrightarrow> validate x = Inr () \<and> fits x"
proof (cases "validate x")
  case (Inr u)
  have "put tag x = Inr bs \<Longrightarrow> \<not> MAX_FRAME_SIZE < length bs" for bs
    using put_width [of tag x bs] width_bound [of x] length_tag Inr assms by (simp add: typed_iff)
  with Inr put_is_ok [of x tag] show ?thesis
    by (cases "put tag x") (simp_all add: seal_profile_def)
qed (simp add: seal_profile_def)

end

interpretation wireguard_form:
  sealed_form put_profile cursor_profile ok_wireguard "\<lambda>_. 10887" "as_bytes ''KWP1''"
    validate_wireguard wt_wireguard fits_wireguard
  by unfold_locales
    (auto simp: ok_wireguard_def MAX_FRAME_SIZE_def put_profile_is_ok
      intro: cursor_profile_wt validate_wireguard_Inl)

interpretation amneziawg_form:
  sealed_form put_amneziawg_profile cursor_amneziawg_profile ok_amneziawg "\<lambda>_. 32408" "as_bytes ''KAP1''"
    validate_amneziawg wt_amneziawg fits_amneziawg
  by unfold_locales
    (auto simp: ok_amneziawg_def MAX_FRAME_SIZE_def put_amneziawg_is_ok
      intro: cursor_amneziawg_wt validate_amneziawg_Inl)

interpretation vless_form:
  sealed_form put_vless_profile cursor_vless_profile ok_vless "\<lambda>_. 730" "as_bytes ''KXP1''"
    validate_vless wt_vless fits_vless
  by unfold_locales
    (auto simp: ok_vless_def MAX_FRAME_SIZE_def put_vless_is_ok intro: cursor_vless_wt validate_vless_Inl)

lemmas sealed_defs = encode_wireguard_profile_def decode_wireguard_profile_def
  encode_amneziawg_profile_def decode_amneziawg_profile_def
  encode_vless_profile_def decode_vless_profile_def

lemma sealed_roundtrips:
  "wt_wireguard p \<Longrightarrow> encode_wireguard_profile p = Inr bs \<Longrightarrow> decode_wireguard_profile bs = Inr p"
  "wt_amneziawg q \<Longrightarrow> encode_amneziawg_profile q = Inr bs \<Longrightarrow> decode_amneziawg_profile bs = Inr q"
  "wt_vless r \<Longrightarrow> encode_vless_profile r = Inr bs \<Longrightarrow> decode_vless_profile bs = Inr r"
  unfolding sealed_defs by (rule wireguard_form.open_seal amneziawg_form.open_seal vless_form.open_seal; assumption)+

end
