(* ===== verification/Contract_Theorems.thy ===== *)
theory Contract_Theorems
  imports Contract_Sealed
begin

text \<open>
  The properties of the wire contract (\<open>crates/vpn_contracts/src/lib.rs\<close>): requests, responses,
  framing, sealed profiles and validation, each with an instance on the values that the tests of the
  crate use.
\<close>

section \<open>Sample values\<close>

definition sample_wireguard :: wireguard_profile where
  "sample_wireguard =
     \<lparr>wg_private_key = replicate 32 7, wg_addresses = [''10.8.0.2/32'', ''fd00::2/128''],
      wg_dns_servers = [V4 (Ipv4 1 1 1 1)], wg_peer_public_key = replicate 32 9,
      wg_preshared_key = Some (replicate 32 11), wg_endpoint_host = ''vpn.example.test'',
      wg_endpoint_port = 51820, wg_allowed_ips = [''0.0.0.0/0'', ''::/0''],
      wg_persistent_keepalive = Some 25\<rparr>"

definition sample_amneziawg :: amneziawg_profile where
  "sample_amneziawg =
     \<lparr>awg_wireguard = sample_wireguard, awg_junk_packet_count = 4, awg_junk_packet_min_size = 64,
      awg_junk_packet_max_size = 128, awg_init_packet_junk_size = 1,
      awg_response_packet_junk_size = 2, awg_init_packet_magic_header = 3,
      awg_response_packet_magic_header = 4, awg_transport_packet_magic_header = ''100'',
      awg_init_packet_magic_header_value = ''200-210'', awg_response_packet_magic_header_value = ''300'',
      awg_transport_packet_magic_header_value = ''400'', awg_special_junk = [''<b 0x01>'']\<rparr>"

definition sample_vless :: vless_profile where
  "sample_vless =
     \<lparr>vl_client_id = ''aaaaaaaa-aaaa-aaaa-aaaa-aaaaaaaaaaaa'', vl_endpoint_host = ''vpn.example.test'',
      vl_endpoint_port = 443, vl_server_name = ''cover.example.test'', vl_fingerprint = ''chrome'',
      vl_reality_password = replicate 43 (CHR ''A''), vl_short_id = ''aabbccdd'', vl_spider_x = ''/''\<rparr>"

definition sample_request :: request_envelope where
  "sample_request =
     \<lparr>rq_contract_version = CONTRACT_VERSION, rq_request_id = ''import-1'',
      rq_command = ImportWireGuardProfile ''provision-1'' sample_wireguard\<rparr>"

definition sample_response :: response_envelope where
  "sample_response =
     \<lparr>rs_contract_version = CONTRACT_VERSION, rs_request_id = ''request-1'', rs_phase = Connected,
      rs_profile_id = Some ''profile-1'', rs_kill_switch_active = False, rs_code = ''CONNECTED'',
      rs_statistics = Some \<lparr>ts_bytes_received = 10, ts_bytes_sent = 20,
        ts_last_handshake_unix_ms = Some 30\<rparr>\<rparr>"

lemma sample_wt:
  "wt_request sample_request" "wt_wireguard sample_wireguard" "wt_amneziawg sample_amneziawg"
  "wt_vless sample_vless"
  by code_simp+

lemma sample_encodes:
  "is_ok (encode_request sample_request)" "is_ok (encode_wireguard_profile sample_wireguard)"
  "is_ok (encode_amneziawg_profile sample_amneziawg)" "is_ok (encode_vless_profile sample_vless)"
  by code_simp+

definition sample_frame :: "u8 list" where
  "sample_frame = projr (encode_request sample_request)"

lemma sample_frame: "encode_request sample_request = Inr sample_frame"
  unfolding sample_frame_def by (rule is_ok_projr [OF sample_encodes(1)])

section \<open>Requests\<close>

text \<open>
  C20. Request round trip: whatever \<open>encode_request\<close> writes, \<open>decode_request\<close> reads back as the same
  request, for all nine commands and every profile.
\<close>

theorem request_roundtrip:
  assumes "wt_request r" "encode_request r = Inr f"
  shows "decode_request f = Inr r"
  using assms by (rule decode_encode_request_lemma)

theorem request_roundtrip_witness:
  "encode_request sample_request = Inr sample_frame \<and> decode_request sample_frame = Inr sample_request"
  using request_roundtrip [OF sample_wt(1) sample_frame] sample_frame by blast

text \<open>
  C21. Soundness of the request decoder, for arbitrary bytes: an accepted frame is at most 32 KiB, has
  the contract version, carries identifiers of the allowed alphabet, and its profile, if it has one,
  has passed validation; no check is left to the service.
\<close>

theorem request_decoder_sound:
  assumes "decode_request f = Inr r"
  shows "rq_contract_version r = CONTRACT_VERSION \<and> ident (rq_request_id r)
    \<and> valid_command (rq_command r) \<and> wt_request r \<and> length f \<le> MAX_FRAME_SIZE"
proof -
  from assms have "length f \<le> MAX_FRAME_SIZE"
    by (auto simp: decode_request_def decode_frame_def result_simps split: if_splits)
  with decode_request_sound_lemma [OF assms] show ?thesis by blast
qed

theorem request_decoder_sound_witness:
  "valid_command (rq_command sample_request) \<and> length sample_frame \<le> MAX_FRAME_SIZE"
  using request_decoder_sound [OF decode_encode_request_lemma [OF sample_wt(1) sample_frame]] by blast

text \<open>
  C27. The request encoder succeeds exactly on the current contract version, allowed identifiers and
  validated commands whose strings fit a bounded string, and it never reports \<open>TooLarge\<close>: the largest
  valid command (an AmneziaWG profile with five junk packets) stays below \<open>MAX_FRAME_SIZE\<close>.
\<close>

theorem request_encoder_exact:
  assumes "wt_request r"
  shows "(is_ok (encode_request r) \<longleftrightarrow>
      rq_contract_version r = CONTRACT_VERSION \<and> ident (rq_request_id r)
      \<and> valid_command (rq_command r) \<and> fits_command (rq_command r))
    \<and> encode_request r \<noteq> Inl TooLarge"
  using encode_request_is_ok [OF assms] encode_request_not_large [OF assms] by blast

theorem request_encoder_exact_witness:
  "valid_command (rq_command sample_request) \<and> fits_command (rq_command sample_request)"
  using request_encoder_exact [OF sample_wt(1)] sample_encodes(1) by blast

section \<open>Framing\<close>

text \<open>
  C28. Frames delimit themselves: the twelve header bytes of an encoded request declare its exact
  length, no proper prefix of it decodes, and nothing decodes that continues it.
\<close>

theorem frame_self_delimiting:
  assumes "encode_request r = Inr f"
  shows "declared_frame_size (take 12 f) = Inr (length f)
    \<and> (\<forall>n. n < length f \<longrightarrow> decode_request (take n f) = Inl (if n < 12 then TooShort else InvalidLength))
    \<and> (\<forall>x. x \<noteq> [] \<longrightarrow> \<not> is_ok (decode_request (f @ x)))"
proof -
  from assms obtain opcode body where e: "encode_frame opcode body = Inr f"
    by (rule encode_request_parts)
  have "decode_request (take n f) = Inl (if n < 12 then TooShort else InvalidLength)" if "n < length f" for n
    using decode_frame_truncated [OF e that] by (simp add: decode_request_def)
  moreover have "\<not> is_ok (decode_request (f @ x))" if "x \<noteq> []" for x
  proof (cases "length (f @ x) \<le> MAX_FRAME_SIZE")
    case True
    with decode_frame_extended [OF e that] show ?thesis by (simp add: decode_request_def)
  next
    case False
    then show ?thesis by (simp add: decode_request_def decode_frame_def)
  qed
  ultimately show ?thesis using declared_encode_frame [OF e] by blast
qed

theorem frame_self_delimiting_witness:
  "declared_frame_size (take 12 sample_frame) = Inr (length sample_frame)
   \<and> \<not> is_ok (decode_request (sample_frame @ [0]))"
  using frame_self_delimiting [OF sample_frame] by blast

section \<open>Responses\<close>

text \<open>
  C29. The response encoder is total on sendable responses (contract version, identifiers of the
  allowed alphabet): there it writes at most 248 bytes that decode to the same response. On every
  other response it fails.
\<close>

theorem response_encoder_exact:
  "case encode_response r of
     Inr f \<Rightarrow> sendable r \<and> length f \<le> 248 \<and> decode_response f = Inr r
   | Inl e \<Rightarrow> \<not> sendable r"
proof (cases "sendable r")
  case True
  from encode_response_sendable [OF True] obtain f where "encode_response r = Inr f" "length f \<le> 248"
    by blast
  with True decode_encode_response_lemma [of r f] show ?thesis by simp
next
  case False
  with encode_response_only_sendable [of r] show ?thesis by (auto split: sum.splits)
qed

text \<open>
  Soundness of the response decoder: what the client accepts has the contract version and only
  identifiers of the allowed alphabet in its request, profile and code fields, so it could be sent
  again.
\<close>

theorem response_decoder_sound:
  assumes "decode_response f = Inr r"
  shows "sendable r \<and> is_ok (encode_response r)"
  using decode_response_sendable [OF assms] encode_response_sendable [of r] by (auto simp: is_ok_iff)

theorem response_decoder_sound_witness:
  "sendable sample_response \<and> is_ok (encode_response sample_response)"
proof -
  have "is_ok (encode_response sample_response)" by code_simp
  from decode_encode_response_lemma [OF is_ok_projr [OF this]] show ?thesis
    by (rule response_decoder_sound)
qed

section \<open>Sealed profiles\<close>

text \<open>
  C31. The sealed forms that the vault encrypts round-trip for all three protocols, and they exist
  exactly for the validated profiles whose strings fit a bounded string.
\<close>

theorem sealed_profiles_roundtrip:
  assumes "wt_wireguard w" "wt_amneziawg a" "wt_vless v"
  shows "(case encode_wireguard_profile w of
       Inr bs \<Rightarrow> validate_wireguard w = Inr () \<and> fits_wireguard w \<and> decode_wireguard_profile bs = Inr w
     | Inl e \<Rightarrow> \<not> (validate_wireguard w = Inr () \<and> fits_wireguard w))
    \<and> (case encode_amneziawg_profile a of
       Inr bs \<Rightarrow> validate_amneziawg a = Inr () \<and> fits_amneziawg a \<and> decode_amneziawg_profile bs = Inr a
     | Inl e \<Rightarrow> \<not> (validate_amneziawg a = Inr () \<and> fits_amneziawg a))
    \<and> (case encode_vless_profile v of
       Inr bs \<Rightarrow> validate_vless v = Inr () \<and> fits_vless v \<and> decode_vless_profile bs = Inr v
     | Inl e \<Rightarrow> \<not> (validate_vless v = Inr () \<and> fits_vless v))"
  using wireguard_form.seal_is_ok [OF assms(1)] amneziawg_form.seal_is_ok [OF assms(2)]
    vless_form.seal_is_ok [OF assms(3)] sealed_roundtrips(1) [OF assms(1)]
    sealed_roundtrips(2) [OF assms(2)] sealed_roundtrips(3) [OF assms(3)]
  by (auto simp: sealed_defs split: sum.splits)

theorem sealed_profiles_roundtrip_witness:
  "\<exists>bs. encode_amneziawg_profile sample_amneziawg = Inr bs
     \<and> decode_amneziawg_profile bs = Inr sample_amneziawg"
  using sealed_profiles_roundtrip [OF sample_wt(2-4)] is_ok_projr [OF sample_encodes(3)]
  by (auto split: sum.splits)

text \<open>
  A sealed profile is opened only as what it is: the three decoders accept disjoint sets of byte
  strings, and what one accepts is a validated profile of its kind.
\<close>

theorem sealed_profiles_disjoint:
  "(case decode_wireguard_profile bs of
      Inr w \<Rightarrow> wt_wireguard w \<and> validate_wireguard w = Inr ()
        \<and> \<not> is_ok (decode_amneziawg_profile bs) \<and> \<not> is_ok (decode_vless_profile bs)
    | Inl e \<Rightarrow> True)
   \<and> (case decode_amneziawg_profile bs of
      Inr a \<Rightarrow> wt_amneziawg a \<and> validate_amneziawg a = Inr () \<and> \<not> is_ok (decode_vless_profile bs)
    | Inl e \<Rightarrow> True)
   \<and> (case decode_vless_profile bs of
      Inr v \<Rightarrow> wt_vless v \<and> validate_vless v = Inr ()
    | Inl e \<Rightarrow> True)"
  using wireguard_form.open_sound [of bs] amneziawg_form.open_sound [of bs] vless_form.open_sound [of bs]
  by (auto simp: sealed_defs is_ok_iff split: sum.splits)

text \<open>
  Bytes appended to a sealed profile are reported as \<open>TrailingData\<close>: no suffix goes unnoticed.
\<close>

theorem sealed_profile_trailing:
  assumes "wt_amneziawg a" "encode_amneziawg_profile a = Inr bs" "extra \<noteq> []"
    "length (bs @ extra) \<le> MAX_FRAME_SIZE"
  shows "decode_amneziawg_profile (bs @ extra) = Inl TrailingData"
  using amneziawg_form.open_trailing [OF assms(2) [unfolded sealed_defs] assms(1,3,4)]
  by (simp add: sealed_defs)

theorem sealed_profile_trailing_witness:
  "decode_amneziawg_profile (projr (encode_amneziawg_profile sample_amneziawg) @ [0]) = Inl TrailingData"
proof (rule sealed_profile_trailing [OF sample_wt(3) is_ok_projr [OF sample_encodes(3)]])
  show "length (projr (encode_amneziawg_profile sample_amneziawg) @ [0]) \<le> MAX_FRAME_SIZE"
    by code_simp
qed simp

section \<open>Validation\<close>

text \<open>
  Every string of a validated AmneziaWG profile that reaches a configuration file is free of blanks,
  line breaks and other control characters, except that a junk packet description may hold
  printable characters of any kind; none of them is empty.
\<close>

theorem validated_strings_printable:
  assumes "validate_amneziawg p = Inr ()"
  shows "list_all (\<lambda>v. list_all is_graphic v \<and> v \<noteq> [])
      (wg_endpoint_host (awg_wireguard p) # wg_addresses (awg_wireguard p) @ wg_allowed_ips (awg_wireguard p)
       @ [awg_transport_packet_magic_header p, awg_init_packet_magic_header_value p,
          awg_response_packet_magic_header_value p, awg_transport_packet_magic_header_value p])
    \<and> list_all (\<lambda>v. v \<noteq> [] \<and> \<not> list_ex is_control (chars v)) (awg_special_junk p)"
proof -
  let ?w = "awg_wireguard p"
  let ?ranges = "[awg_transport_packet_magic_header p, awg_init_packet_magic_header_value p,
    awg_response_packet_magic_header_value p, awg_transport_packet_magic_header_value p]"
  from assms have w: "validate_wireguard ?w = Inr ()" and r: "validate_each_range ?ranges = Inr ()"
    and j: "list_all valid_junk (awg_special_junk p)"
    by (auto simp: validate_amneziawg_def result_simps list_ex_iff list_all_iff simp del: validate_each_range.simps)
  from w have v: "validate_networks (wg_addresses ?w) 1 8 = Inr ()"
    "validate_networks (wg_allowed_ips ?w) 1 32 = Inr ()" "validate_endpoint_host (wg_endpoint_host ?w) = Inr ()"
    by (auto simp: validate_wireguard_def result_simps)
  have ranges: "list_all (\<lambda>v. list_all is_graphic v \<and> v \<noteq> []) ?ranges"
    using r unfolding validate_each_range_iff list_all_iff [of _ ?ranges]
    by (auto intro: graphic_of_digits_dash dest: validate_numeric_range_chars simp del: list.set)
  have junk: "list_all (\<lambda>v. v \<noteq> [] \<and> \<not> list_ex is_control (chars v)) (awg_special_junk p)"
    using j by (rule list_all_mono_strong) (simp add: valid_junk_def)
  show ?thesis
    using ranges junk validate_networks_SomeD [OF v(1)] validate_networks_SomeD [OF v(2)]
      validate_host_chars [OF v(3)] by simp
qed

theorem validated_strings_printable_witness:
  "list_all is_graphic (wg_endpoint_host (awg_wireguard sample_amneziawg))"
proof -
  have "validate_amneziawg sample_amneziawg = Inr ()" by code_simp
  from validated_strings_printable [OF this] show ?thesis by simp
qed

text \<open>
  A profile whose only address has a prefix length with leading zeros.
\<close>

definition padded_network :: string where
  "padded_network = ''10.8.0.2/'' @ replicate 243 (CHR ''0'') @ ''32''"

definition padded_wireguard :: wireguard_profile where
  "padded_wireguard = sample_wireguard\<lparr>wg_addresses := [padded_network]\<rparr>"

lemma padded_network_read: "reads cursor_bounded_string (254 # as_bytes padded_network) padded_network"
proof -
  have g: "list_all is_graphic padded_network"
    by (auto simp: padded_network_def is_graphic_def list_all_iff)
  show ?thesis
    using valid_utf8_graphic [OF g] as_bytes_no_nul [OF g]
    by (intro reads_bounded_string) (simp_all add: padded_network_def)
qed

text \<open>
  C32. Validation does not imply that a profile can be stored: a network of 254 bytes with a zero-padded
  prefix length is read from the wire and passes \<open>validate\<close>, but the sealed form holds 253 bytes per
  network, so the store that follows an accepted import fails.
\<close>

theorem validated_profile_not_sealable:
  "reads (cursor_string_list 8) (1 # 254 # as_bytes padded_network) (wg_addresses padded_wireguard)
   \<and> validate_wireguard padded_wireguard = Inr ()
   \<and> encode_wireguard_profile padded_wireguard = Inl InvalidProfile"
proof (intro conjI)
  have "reads (\<lambda>c. and_then (cursor_bounded_string c) (\<lambda>(x, c). Inr ([x], c)))
      (254 # as_bytes padded_network) [padded_network]"
    by (rule reads_map [OF padded_network_read])
  then show "reads (cursor_string_list 8) (1 # 254 # as_bytes padded_network) (wg_addresses padded_wireguard)"
    unfolding cursor_string_list_def [abs_def] by (intro reads_flag) (simp add: padded_wireguard_def)
  show "validate_wireguard padded_wireguard = Inr ()" by code_simp
  show "encode_wireguard_profile padded_wireguard = Inl InvalidProfile" by code_simp
qed

end
