(* ===== verification/Transition_System.thy ===== *)
theory Transition_System
  imports Prelude
begin

text \<open>
  Components as reactive systems. A component's operations form one total function from an input
  and a state to an answer and the next state; \<open>run_all\<close> feeds it a sequence of inputs. The locales
  state the contracts the components share (an invariant, a promise on each answer, a
  simulation by an abstract system) and lift each of them from one operation to every run. The
  components interpret them on their own operations.
\<close>

primrec run_all :: "('i \<Rightarrow> 's \<Rightarrow> 'o \<times> 's) \<Rightarrow> 'i list \<Rightarrow> 's \<Rightarrow> 'o list \<times> 's" where
  "run_all step [] s = ([], s)"
| "run_all step (i # inputs) s =
     (case step i s of (answer, t) \<Rightarrow>
        (case run_all step inputs t of (answers, u) \<Rightarrow> (answer # answers, u)))"

text \<open>The two components of a run; proofs use these equations, evaluation the definition.\<close>

lemma run_all_Cons_fst [simp]:
  "fst (run_all step (i # inputs) s) = fst (step i s) # fst (run_all step inputs (snd (step i s)))"
  by (simp add: case_prod_beta)

lemma run_all_Cons_snd [simp]:
  "snd (run_all step (i # inputs) s) = snd (run_all step inputs (snd (step i s)))"
  by (simp add: case_prod_beta)

declare run_all.simps(2) [simp del]

lemma run_all_state: "snd (run_all step inputs s) = fold (\<lambda>i s. snd (step i s)) inputs s"
  by (induction inputs arbitrary: s) simp_all

lemma length_run_all [simp]: "length (fst (run_all step inputs s)) = length inputs"
  by (induction inputs arbitrary: s) simp_all

lemma run_all_append:
  "snd (run_all step (xs @ ys) s) = snd (run_all step ys (snd (run_all step xs s)))"
  by (simp add: run_all_state)

lemma run_all_answers_append:
  "fst (run_all step (xs @ ys) s) = fst (run_all step xs s) @ fst (run_all step ys (snd (run_all step xs s)))"
  by (induction xs arbitrary: s) simp_all

text \<open>If each operation of one system is a run of another, so is each of its runs.\<close>

lemma run_expands:
  fixes step :: "'i \<Rightarrow> 's \<Rightarrow> 'a list \<times> 's" and big :: "'j \<Rightarrow> 's \<Rightarrow> 'a list \<times> 's"
  assumes "\<And>j s. \<exists>xs. snd (run_all step xs s) = snd (big j s) \<and> concat (fst (run_all step xs s)) = fst (big j s)"
  shows "\<exists>xs. snd (run_all step xs s) = snd (run_all big js s)
    \<and> concat (fst (run_all step xs s)) = concat (fst (run_all big js s))"
proof (induction js arbitrary: s)
  case Nil
  show ?case by (intro exI [of _ "[]"]) simp
next
  case (Cons j js)
  obtain xs where xs: "snd (run_all step xs s) = snd (big j s)" "concat (fst (run_all step xs s)) = fst (big j s)"
    using assms by blast
  obtain ys where "snd (run_all step ys (snd (big j s))) = snd (run_all big js (snd (big j s)))"
    "concat (fst (run_all step ys (snd (big j s)))) = concat (fst (run_all big js (snd (big j s))))"
    using Cons.IH by blast
  with xs show ?case by (intro exI [of _ "xs @ ys"]) (simp add: run_all_append run_all_answers_append)
qed

lemma run_all_filter:
  assumes "\<And>i s. \<not> P i \<Longrightarrow> snd (step i s) = s"
  shows "snd (run_all step (filter P inputs) s) = snd (run_all step inputs s)"
  by (induction inputs arbitrary: s) (simp_all add: assms)

section \<open>Reachable states\<close>

inductive reachable :: "('i \<Rightarrow> 's \<Rightarrow> 'o \<times> 's) \<Rightarrow> ('i \<Rightarrow> bool) \<Rightarrow> 's \<Rightarrow> 's \<Rightarrow> bool"
  for step admissible start where
  initial [intro]: "reachable step admissible start start"
| step: "reachable step admissible start s \<Longrightarrow> admissible i \<Longrightarrow>
    reachable step admissible start (snd (step i s))"

lemma reachable_run:
  "reachable step admissible start s \<Longrightarrow> list_all admissible inputs \<Longrightarrow>
   reachable step admissible start (snd (run_all step inputs s))"
  by (induction inputs arbitrary: s) (auto intro: reachable.step)

lemma reachable_iff_run:
  "reachable step admissible start s \<longleftrightarrow>
     (\<exists>inputs. list_all admissible inputs \<and> s = snd (run_all step inputs start))"
proof
  assume "reachable step admissible start s"
  then show "\<exists>inputs. list_all admissible inputs \<and> s = snd (run_all step inputs start)"
  proof induction
    case initial
    show ?case by (rule exI [of _ "[]"]) simp
  next
    case (step s i)
    then obtain inputs where "list_all admissible inputs" "s = snd (run_all step inputs start)" by blast
    with step.hyps(2) show ?case
      by (intro exI [of _ "inputs @ [i]"]) (simp add: run_all_state)
  qed
qed (auto intro: reachable_run)

section \<open>Contracts\<close>

text \<open>An invariant that every admissible operation keeps.\<close>

locale stable_system =
  fixes step :: "'i \<Rightarrow> 's \<Rightarrow> 'o \<times> 's"
    and admissible :: "'i \<Rightarrow> bool"
    and inv :: "'s \<Rightarrow> bool"
  assumes stable: "admissible i \<Longrightarrow> inv s \<Longrightarrow> inv (snd (step i s))"
begin

lemma run_stable: "list_all admissible inputs \<Longrightarrow> inv s \<Longrightarrow> inv (snd (run_all step inputs s))"
  by (induction inputs arbitrary: s) (simp_all add: stable)

lemma reachable_stable: "reachable step admissible start s \<Longrightarrow> inv start \<Longrightarrow> inv s"
  by (induction rule: reachable.induct) (auto intro: stable)

end

text \<open>An operation answers as promised in every state of the invariant.\<close>

locale answering_system = stable_system step admissible inv
  for step :: "'i \<Rightarrow> 's \<Rightarrow> 'o \<times> 's" and admissible inv +
  fixes promised :: "'i \<Rightarrow> 'o \<Rightarrow> bool"
  assumes answers: "admissible i \<Longrightarrow> inv s \<Longrightarrow> promised i (fst (step i s))"
begin

lemma run_answers:
  "list_all admissible inputs \<Longrightarrow> inv s \<Longrightarrow> list_all2 promised inputs (fst (run_all step inputs s))"
proof (induction inputs arbitrary: s)
  case Nil
  then show ?case by simp
next
  case (Cons i inputs)
  with stable [of i s] have "list_all2 promised inputs (fst (run_all step inputs (snd (step i s))))"
    by simp
  with Cons.prems answers [of i s] show ?case by simp
qed

lemma run_answers_all:
  "list_all admissible inputs \<Longrightarrow> inv s \<Longrightarrow> (\<And>i a. promised i a \<Longrightarrow> P a) \<Longrightarrow>
   list_all P (fst (run_all step inputs s))"
  using run_answers [of inputs s] by (auto simp: list_all2_conv_all_nth list_all_length)

end

text \<open>A simulation: an abstract system that answers nothing follows the concrete one.\<close>

locale simulated_system = stable_system step admissible inv
  for step :: "'i \<Rightarrow> 's \<Rightarrow> 'o \<times> 's" and admissible inv +
  fixes astep :: "'i \<Rightarrow> 'a \<Rightarrow> 'a" and models :: "'s \<Rightarrow> 'a \<Rightarrow> bool"
  assumes simulates:
    "admissible i \<Longrightarrow> inv s \<Longrightarrow> models s a \<Longrightarrow> models (snd (step i s)) (astep i a)"
begin

lemma run_simulates:
  "list_all admissible inputs \<Longrightarrow> inv s \<Longrightarrow> models s a \<Longrightarrow>
   models (snd (run_all step inputs s)) (fold astep inputs a)"
  by (induction inputs arbitrary: s a) (simp_all add: stable simulates)

end

end
