(* ===== verification/State_Machine.thy ===== *)
theory State_Machine
  imports Contract_Validate Transition_System
begin

text \<open>
  The connection state machine of \<open>crates/vpn_service_core/src/lib.rs\<close> (\<open>ConnectionStateMachine\<close>):
  its guarded operations on the state event, the life cycle the architecture documents draw, the
  refinement between the two, and the invariant of the event.
\<close>

datatype command_error =
    Busy
  | DuplicateRequest
  | EmptyOperationId
  | EmptyProfileId
  | InvalidFailurePhase
  | UnauthorizedCaller
  | InvalidProfile
  | ProfileNotFound
  | ProfileStoreUnavailable

section \<open>The operations\<close>

text \<open>
  \<open>ConnectionStateMachine\<close> holds nothing but its \<open>StateEvent\<close>, so the event is its state; each
  method on \<open>mut self\<close> returns its \<open>Result\<close> and the event it leaves.
\<close>

type_synonym 'a machine_op = "state_event \<Rightarrow> (command_error + 'a) \<times> state_event"

definition begin_connect :: "connect_request \<Rightarrow> unit machine_op" where
  "begin_connect request s =
     (if trim (cr_operation_id request) = [] then (Inl EmptyOperationId, s)
      else if trim (cr_profile_id request) = [] then (Inl EmptyProfileId, s)
      else if se_phase s \<noteq> Disconnected then (Inl Busy, s)
      else (Inr (),
        \<lparr>se_contract_version = CONTRACT_VERSION, se_phase = Validating,
         se_profile_id = Some (cr_profile_id request), se_kill_switch_active = False,
         se_error_code = None\<rparr>))"

definition mark_validated :: "unit machine_op" where
  "mark_validated s =
     (if se_phase s \<noteq> Validating then (Inl Busy, s) else (Inr (), s\<lparr>se_phase := Connecting\<rparr>))"

definition mark_connected :: "bool \<Rightarrow> unit machine_op" where
  "mark_connected kill_switch_active s =
     (if se_phase s \<noteq> Connecting \<and> se_phase s \<noteq> Reconnecting then (Inl Busy, s)
      else (Inr (),
        s\<lparr>se_phase := Connected, se_kill_switch_active := kill_switch_active,
          se_error_code := None\<rparr>))"

definition begin_reconnect :: "unit machine_op" where
  "begin_reconnect s =
     (if se_phase s \<noteq> Connected then (Inl Busy, s) else (Inr (), s\<lparr>se_phase := Reconnecting\<rparr>))"

definition begin_disconnect :: "string \<Rightarrow> unit machine_op" where
  "begin_disconnect operation_id s =
     (if trim operation_id = [] then (Inl EmptyOperationId, s)
      else if se_phase s \<noteq> Connected \<and> se_phase s \<noteq> Reconnecting then (Inl Busy, s)
      else (Inr (), s\<lparr>se_phase := Disconnecting\<rparr>))"

definition mark_disconnected :: "unit machine_op" where
  "mark_disconnected s =
     (if se_phase s \<noteq> Disconnecting then (Inl Busy, s) else (Inr (), default_state_event))"

definition reconcile_disconnected :: "state_event \<Rightarrow> state_event" where
  "reconcile_disconnected s = default_state_event"

definition fail :: "connection_phase \<Rightarrow> string \<Rightarrow> unit machine_op" where
  "fail phase error_code s =
     (if \<not> is_failure phase then (Inl InvalidFailurePhase, s)
      else (Inr (),
        s\<lparr>se_phase := phase, se_kill_switch_active := False, se_error_code := Some error_code\<rparr>))"

definition reset_failure :: "unit machine_op" where
  "reset_failure s =
     (if \<not> is_failure (se_phase s) then (Inl Busy, s) else (Inr (), default_state_event))"

lemmas machine_defs = begin_connect_def mark_validated_def mark_connected_def begin_reconnect_def
  begin_disconnect_def mark_disconnected_def reconcile_disconnected_def fail_def reset_failure_def

text \<open>The public operations as one system, for statements about every sequence of calls.\<close>

datatype machine_call =
    BeginConnect connect_request
  | MarkValidated
  | MarkConnected bool
  | BeginReconnect
  | BeginDisconnect string
  | MarkDisconnected
  | ReconcileDisconnected
  | Fail connection_phase string
  | ResetFailure

primrec machine_step :: "machine_call \<Rightarrow> unit machine_op" where
  "machine_step (BeginConnect request) = begin_connect request"
| "machine_step MarkValidated = mark_validated"
| "machine_step (MarkConnected kill_switch_active) = mark_connected kill_switch_active"
| "machine_step BeginReconnect = begin_reconnect"
| "machine_step (BeginDisconnect operation_id) = begin_disconnect operation_id"
| "machine_step MarkDisconnected = mark_disconnected"
| "machine_step ReconcileDisconnected = (\<lambda>s. (Inr (), reconcile_disconnected s))"
| "machine_step (Fail phase error_code) = fail phase error_code"
| "machine_step ResetFailure = reset_failure"

section \<open>The documented life cycle\<close>

text \<open>
  The life cycle of \<open>docs/architecture/0002-stage-1-scaffold.md\<close>: the two chains of the diagram, the
  failure states reachable from anywhere, and the two ways back to the idle state that the code
  adds (the reset of a failure and the reconciliation with a tunnel that stopped by itself).
\<close>

inductive lifecycle :: "connection_phase \<Rightarrow> machine_call \<Rightarrow> connection_phase \<Rightarrow> bool" where
  validate: "lifecycle Disconnected (BeginConnect request) Validating"
| start: "lifecycle Validating MarkValidated Connecting"
| established: "lifecycle Connecting (MarkConnected k) Connected"
| interrupted: "lifecycle Connected BeginReconnect Reconnecting"
| restored: "lifecycle Reconnecting (MarkConnected k) Connected"
| stop_connected: "lifecycle Connected (BeginDisconnect operation_id) Disconnecting"
| stop_reconnecting: "lifecycle Reconnecting (BeginDisconnect operation_id) Disconnecting"
| stopped: "lifecycle Disconnecting MarkDisconnected Disconnected"
| failed: "is_failure q \<Longrightarrow> lifecycle p (Fail q error_code) q"
| reset: "is_failure p \<Longrightarrow> lifecycle p ResetFailure Disconnected"
| reconciled: "lifecycle p ReconcileDisconnected Disconnected"

inductive_simps lifecycle_call_simps [simp]:
  "lifecycle p (BeginConnect request) q"
  "lifecycle p MarkValidated q"
  "lifecycle p (MarkConnected k) q"
  "lifecycle p BeginReconnect q"
  "lifecycle p (BeginDisconnect operation_id) q"
  "lifecycle p MarkDisconnected q"
  "lifecycle p (Fail r error_code) q"
  "lifecycle p ResetFailure q"
  "lifecycle p ReconcileDisconnected q"

inductive_cases lifecycle_from_idle: "lifecycle Disconnected c q"

text \<open>The identifiers a call needs before the phase is looked at.\<close>

primrec identified :: "machine_call \<Rightarrow> bool" where
  "identified (BeginConnect request) =
     (trim (cr_operation_id request) \<noteq> [] \<and> trim (cr_profile_id request) \<noteq> [])"
| "identified MarkValidated = True"
| "identified (MarkConnected k) = True"
| "identified BeginReconnect = True"
| "identified (BeginDisconnect operation_id) = (trim operation_id \<noteq> [])"
| "identified MarkDisconnected = True"
| "identified ReconcileDisconnected = True"
| "identified (Fail phase error_code) = True"
| "identified ResetFailure = True"

lemma machine_step_error: "machine_step c s = (Inl e, t) \<Longrightarrow> t = s"
  by (cases c) (auto simp: machine_defs split: if_splits)

lemma machine_step_move: "machine_step c s = (Inr u, t) \<Longrightarrow> lifecycle (se_phase s) c (se_phase t)"
  by (cases c; cases "se_phase s")
    (auto simp: machine_defs default_state_event_def split: if_splits)

lemma machine_step_enabled:
  "is_ok (fst (machine_step c s)) \<longleftrightarrow> identified c \<and> (\<exists>q. lifecycle (se_phase s) c q)"
  by (cases c; cases "se_phase s") (auto simp: machine_defs)

section \<open>The invariant of the state event\<close>

definition machine_ok :: "state_event \<Rightarrow> bool" where
  "machine_ok s \<longleftrightarrow>
     se_contract_version s = CONTRACT_VERSION
     \<and> (se_phase s = Disconnected \<longrightarrow> s = default_state_event)
     \<and> (is_failure (se_phase s) \<longleftrightarrow> se_error_code s \<noteq> None)
     \<and> (se_kill_switch_active s \<longrightarrow> se_phase s \<in> {Connected, Reconnecting, Disconnecting})
     \<and> (se_phase s \<in> {Validating, Connecting, Connected, Reconnecting, Disconnecting} \<longrightarrow>
          (\<exists>p. se_profile_id s = Some p \<and> trim p \<noteq> []))"

lemma default_simps [simp]:
  "se_contract_version default_state_event = CONTRACT_VERSION"
  "se_phase default_state_event = Disconnected"
  "se_profile_id default_state_event = None"
  "se_kill_switch_active default_state_event = False"
  "se_error_code default_state_event = None"
  by (simp_all add: default_state_event_def)

lemma machine_ok_default [simp]: "machine_ok default_state_event"
  by (simp add: machine_ok_def)

text \<open>What holds in the phases of a running life cycle, and what a state needs to be in one.\<close>

definition cycle_ok :: "state_event \<Rightarrow> bool" where
  "cycle_ok s \<longleftrightarrow>
     se_contract_version s = CONTRACT_VERSION \<and> se_error_code s = None
     \<and> (\<exists>p. se_profile_id s = Some p \<and> trim p \<noteq> [])"

lemma machine_ok_cycle:
  "machine_ok s \<Longrightarrow> se_phase s \<in> {Validating, Connecting, Connected, Reconnecting, Disconnecting} \<Longrightarrow>
   cycle_ok s"
  by (cases "se_phase s") (simp_all add: machine_ok_def cycle_ok_def)

lemma cycle_machine_ok:
  "cycle_ok s \<Longrightarrow> se_phase s \<in> {Connected, Reconnecting, Disconnecting} \<Longrightarrow> machine_ok s"
  by (cases "se_phase s") (simp_all add: machine_ok_def cycle_ok_def)

lemma machine_ok_ops:
  assumes "machine_ok s"
  shows "machine_ok (snd (begin_connect request s))" "machine_ok (snd (mark_validated s))"
    "machine_ok (snd (mark_connected k s))" "machine_ok (snd (begin_reconnect s))"
    "machine_ok (snd (begin_disconnect operation_id s))" "machine_ok (snd (mark_disconnected s))"
    "machine_ok (reconcile_disconnected s)" "machine_ok (snd (fail p error_code s))"
    "machine_ok (snd (reset_failure s))"
proof -
  show "machine_ok (snd (begin_connect request s))"
    using assms by (simp add: begin_connect_def) (simp add: machine_ok_def)
  show "machine_ok (snd (mark_validated s))"
    using assms by (simp add: mark_validated_def) (auto simp: machine_ok_def)
  show "machine_ok (snd (mark_connected k s))"
    using assms machine_ok_cycle [OF assms]
    by (simp add: mark_connected_def) (auto intro!: cycle_machine_ok simp: cycle_ok_def)
  show "machine_ok (snd (begin_reconnect s))"
    using assms machine_ok_cycle [OF assms]
    by (simp add: begin_reconnect_def) (auto intro!: cycle_machine_ok simp: cycle_ok_def)
  show "machine_ok (snd (begin_disconnect operation_id s))"
    using assms machine_ok_cycle [OF assms]
    by (simp add: begin_disconnect_def) (auto intro!: cycle_machine_ok simp: cycle_ok_def)
  show "machine_ok (snd (mark_disconnected s))"
    using assms by (simp add: mark_disconnected_def)
  show "machine_ok (reconcile_disconnected s)" by (simp add: reconcile_disconnected_def)
  show "machine_ok (snd (fail p error_code s))"
    using assms by (cases p) (simp_all add: fail_def, simp_all add: machine_ok_def)
  show "machine_ok (snd (reset_failure s))"
    using assms by (simp add: reset_failure_def)
qed

lemma machine_ok_step: "machine_ok s \<Longrightarrow> machine_ok (snd (machine_step c s))"
  by (cases c) (simp_all add: machine_ok_ops)

interpretation machine: stable_system machine_step "\<lambda>_. True" machine_ok
  by unfold_locales (rule machine_ok_step)

section \<open>One life cycle at a time\<close>

text \<open>The calls that end a life cycle.\<close>

primrec ends_cycle :: "machine_call \<Rightarrow> bool" where
  "ends_cycle (BeginConnect request) = False"
| "ends_cycle MarkValidated = False"
| "ends_cycle (MarkConnected k) = False"
| "ends_cycle BeginReconnect = False"
| "ends_cycle (BeginDisconnect operation_id) = False"
| "ends_cycle MarkDisconnected = True"
| "ends_cycle ReconcileDisconnected = True"
| "ends_cycle (Fail phase error_code) = False"
| "ends_cycle ResetFailure = True"

fun refuses_connect :: "machine_call \<Rightarrow> (command_error + unit) \<Rightarrow> bool" where
  "refuses_connect (BeginConnect request) (Inr u) = False"
| "refuses_connect _ _ = True"

lemma refuses_connect_iff:
  "refuses_connect c r \<longleftrightarrow> (\<forall>request. c = BeginConnect request \<longrightarrow> \<not> is_ok r)"
  by (cases "(c, r)" rule: refuses_connect.cases) auto

interpretation busy: answering_system machine_step "\<lambda>c. \<not> ends_cycle c"
  "\<lambda>s. se_phase s \<noteq> Disconnected" refuses_connect
proof
  fix c and s :: state_event
  assume "\<not> ends_cycle c" "se_phase s \<noteq> Disconnected"
  then show "se_phase (snd (machine_step c s)) \<noteq> Disconnected"
    by (cases c) (auto simp: machine_defs)
  show "refuses_connect c (fst (machine_step c s))"
    using \<open>se_phase s \<noteq> Disconnected\<close> by (cases c) (auto simp: machine_defs refuses_connect_iff)
qed

end
