(* ===== verification/Processor.thy ===== *)
theory Processor
  imports State_Machine
begin

text \<open>
  The command processor of \<open>crates/vpn_service_core/src/lib.rs\<close>: the backend and vault traits as
  records of their methods, the caller check, the replay window, and \<open>process\<close> with all its
  handlers. The state of a trait implementation is a type parameter; the theorems hold for every
  implementation, and for every change the environment makes to it between two requests.
\<close>

section \<open>The traits and their default implementations\<close>

text \<open>
  Three constructors of \<open>BackendFailure\<close> carry a prefix here, because the connection phases and the
  command errors use the same words.
\<close>

datatype backend_failure =
    EngineUnavailable
  | BackendNoNetwork
  | BackendServerUnavailable
  | BackendInvalidProfile
  | UnsupportedFeature
  | Internal

record 'b vpn_backend =
  be_connect :: "string \<Rightarrow> wireguard_profile \<Rightarrow> bool \<Rightarrow> 'b \<Rightarrow> (backend_failure + unit) \<times> 'b"
  be_connect_amneziawg :: "string \<Rightarrow> amneziawg_profile \<Rightarrow> bool \<Rightarrow> 'b \<Rightarrow> (backend_failure + unit) \<times> 'b"
  be_connect_vless :: "string \<Rightarrow> vless_profile \<Rightarrow> bool \<Rightarrow> 'b \<Rightarrow> (backend_failure + unit) \<times> 'b"
  be_disconnect :: "'b \<Rightarrow> (backend_failure + unit) \<times> 'b"
  be_is_connected :: "'b \<Rightarrow> backend_failure + bool"
  be_statistics :: "'b \<Rightarrow> backend_failure + tunnel_statistics"

definition default_connect_amneziawg ::
  "string \<Rightarrow> amneziawg_profile \<Rightarrow> bool \<Rightarrow> 'b \<Rightarrow> (backend_failure + unit) \<times> 'b" where
  "default_connect_amneziawg profile_id profile kill_switch b = (Inl UnsupportedFeature, b)"

definition default_connect_vless ::
  "string \<Rightarrow> vless_profile \<Rightarrow> bool \<Rightarrow> 'b \<Rightarrow> (backend_failure + unit) \<times> 'b" where
  "default_connect_vless profile_id profile kill_switch b = (Inl UnsupportedFeature, b)"

definition UnavailableVpnBackend :: "unit vpn_backend" where
  "UnavailableVpnBackend =
     \<lparr>be_connect = (\<lambda>profile_id profile kill_switch b. (Inl EngineUnavailable, b)),
      be_connect_amneziawg = default_connect_amneziawg,
      be_connect_vless = default_connect_vless,
      be_disconnect = (\<lambda>b. (Inr (), b)),
      be_is_connected = (\<lambda>b. Inr False),
      be_statistics = (\<lambda>b. Inl EngineUnavailable)\<rparr>"

record 'v profile_vault =
  va_store_wireguard :: "wireguard_profile \<Rightarrow> 'v \<Rightarrow> (command_error + string) \<times> 'v"
  va_load_wireguard :: "string \<Rightarrow> 'v \<Rightarrow> command_error + wireguard_profile"
  va_store_amneziawg :: "amneziawg_profile \<Rightarrow> 'v \<Rightarrow> (command_error + string) \<times> 'v"
  va_load_amneziawg :: "string \<Rightarrow> 'v \<Rightarrow> command_error + amneziawg_profile"
  va_store_vless :: "vless_profile \<Rightarrow> 'v \<Rightarrow> (command_error + string) \<times> 'v"
  va_load_vless :: "string \<Rightarrow> 'v \<Rightarrow> command_error + vless_profile"
  va_delete :: "string \<Rightarrow> 'v \<Rightarrow> (command_error + unit) \<times> 'v"

definition default_store :: "'p \<Rightarrow> 'v \<Rightarrow> (command_error + string) \<times> 'v" where
  "default_store profile v = (Inl ProfileStoreUnavailable, v)"

definition default_load :: "string \<Rightarrow> 'v \<Rightarrow> command_error + 'p" where
  "default_load profile_id v = Inl ProfileStoreUnavailable"

definition UnavailableProfileVault :: "unit profile_vault" where
  "UnavailableProfileVault =
     \<lparr>va_store_wireguard = (\<lambda>profile v. (Inl ProfileStoreUnavailable, v)),
      va_load_wireguard = (\<lambda>profile_id v. Inl ProfileStoreUnavailable),
      va_store_amneziawg = default_store, va_load_amneziawg = default_load,
      va_store_vless = default_store, va_load_vless = default_load,
      va_delete = (\<lambda>profile_id v. (Inl ProfileStoreUnavailable, v))\<rparr>"

section \<open>Callers, outcomes and the processor's state\<close>

record authorization_context =
  au_is_local :: bool
  au_is_authenticated :: bool
  au_client_session_id :: u32
  au_allowed_session_id :: u32

definition is_allowed :: "authorization_context \<Rightarrow> bool" where
  "is_allowed c \<longleftrightarrow>
     au_is_local c \<and> au_is_authenticated c \<and> au_client_session_id c \<noteq> 0
     \<and> au_client_session_id c = au_allowed_session_id c"

record command_outcome =
  oc_request_id :: string
  oc_state :: state_event
  oc_code :: string
  oc_statistics :: "tunnel_statistics option"

record ('v, 'b) processor =
  pr_machine :: state_event
  pr_recent_ids :: "string list"
  pr_recent_id_set :: "string set"
  pr_vault :: 'v
  pr_backend :: 'b

definition MAX_RECENT_REQUESTS :: nat where
  "MAX_RECENT_REQUESTS = 256"

definition with_backend :: "'v \<Rightarrow> 'b \<Rightarrow> ('v, 'b) processor" where
  "with_backend vault backend =
     \<lparr>pr_machine = default_state_event, pr_recent_ids = [], pr_recent_id_set = {},
      pr_vault = vault, pr_backend = backend\<rparr>"

definition default_processor :: "(unit, unit) processor" where
  "default_processor = with_backend () ()"

definition backend_failure_state :: "backend_failure \<Rightarrow> connection_phase \<times> string" where
  "backend_failure_state failure =
     (case failure of
        EngineUnavailable \<Rightarrow> (Error, ''ENGINE_NOT_INSTALLED'')
      | BackendNoNetwork \<Rightarrow> (NoNetwork, ''NO_NETWORK'')
      | BackendServerUnavailable \<Rightarrow> (ServerUnavailable, ''SERVER_UNAVAILABLE'')
      | BackendInvalidProfile \<Rightarrow> (Error, ''INVALID_PROFILE'')
      | UnsupportedFeature \<Rightarrow> (Error, ''UNSUPPORTED_FEATURE'')
      | Internal \<Rightarrow> (Error, ''ENGINE_FAILED''))"

definition validate_import :: "string \<Rightarrow> frame_error + unit \<Rightarrow> command_error + unit" where
  "validate_import operation_id validation =
     (if trim operation_id = [] then Inl EmptyOperationId
      else map_err (\<lambda>_. command_error.InvalidProfile) validation)"

definition valid_profile_id :: "string \<Rightarrow> bool" where
  "valid_profile_id value \<longleftrightarrow>
     value \<noteq> [] \<and> length value \<le> 64
     \<and> list_all (\<lambda>c. is_ascii_alphanumeric c \<or> c = CHR ''-'' \<or> c = CHR ''_'') value"

definition validate_stored_id :: "string \<Rightarrow> command_error + string" where
  "validate_stored_id profile_id =
     (if valid_profile_id profile_id then Inr profile_id else Inl ProfileStoreUnavailable)"

section \<open>The handlers\<close>

text \<open>A handler reaches the machine, the vault and the backend through these three liftings.\<close>

type_synonym ('v, 'b, 'a) handler =
  "('v, 'b) processor \<Rightarrow> (command_error + 'a) \<times> ('v, 'b) processor"

definition on_machine :: "'a machine_op \<Rightarrow> ('v, 'b, 'a) handler" where
  "on_machine operation p =
     (case operation (pr_machine p) of (r, m) \<Rightarrow> (r, p\<lparr>pr_machine := m\<rparr>))"

definition on_vault :: "('v \<Rightarrow> (command_error + 'a) \<times> 'v) \<Rightarrow> ('v, 'b, 'a) handler" where
  "on_vault operation p = (case operation (pr_vault p) of (r, v) \<Rightarrow> (r, p\<lparr>pr_vault := v\<rparr>))"

definition on_backend :: "('b \<Rightarrow> 'r \<times> 'b) \<Rightarrow> ('v, 'b, 'r) handler" where
  "on_backend operation p =
     (case operation (pr_backend p) of (r, b) \<Rightarrow> (Inr r, p\<lparr>pr_backend := b\<rparr>))"

definition remember :: "string \<Rightarrow> ('v, 'b) processor \<Rightarrow> ('v, 'b) processor" where
  "remember request_id p =
     (let q = (if length (pr_recent_ids p) = MAX_RECENT_REQUESTS then
                 (case pr_recent_ids p of
                    [] \<Rightarrow> p
                  | expired # rest \<Rightarrow>
                      p\<lparr>pr_recent_ids := rest,
                        pr_recent_id_set := pr_recent_id_set p - {expired}\<rparr>)
               else p)
      in q\<lparr>pr_recent_id_set := insert request_id (pr_recent_id_set q),
           pr_recent_ids := pr_recent_ids q @ [request_id]\<rparr>)"

text \<open>The profile is loaded for the protocol asked for and handed to the matching engine.\<close>

definition start_engine ::
  "'v profile_vault \<Rightarrow> 'b vpn_backend \<Rightarrow> connect_request \<Rightarrow> ('v, 'b, backend_failure + unit) handler" where
  "start_engine V B c =
     (case cr_protocol c of
        WireGuard \<Rightarrow>
          try_then (\<lambda>p. (va_load_wireguard V (cr_profile_id c) (pr_vault p), p))
            (\<lambda>profile. on_backend (be_connect B (cr_profile_id c) profile (cr_kill_switch c)))
      | AmneziaWg \<Rightarrow>
          try_then (\<lambda>p. (va_load_amneziawg V (cr_profile_id c) (pr_vault p), p))
            (\<lambda>profile. on_backend (be_connect_amneziawg B (cr_profile_id c) profile (cr_kill_switch c)))
      | VlessReality \<Rightarrow>
          try_then (\<lambda>p. (va_load_vless V (cr_profile_id c) (pr_vault p), p))
            (\<lambda>profile. on_backend (be_connect_vless B (cr_profile_id c) profile (cr_kill_switch c))))"

definition record_failure :: "backend_failure \<Rightarrow> ('v, 'b, string) handler" where
  "record_failure failure =
     try_then (on_machine (fail (fst (backend_failure_state failure)) (snd (backend_failure_state failure))))
       (\<lambda>_ p. (Inr (snd (backend_failure_state failure)), p))"

definition clear_failure :: "('v, 'b, unit) handler" where
  "clear_failure p =
     (if is_failure (se_phase (pr_machine p)) then on_machine reset_failure p else (Inr (), p))"

definition processor_connect_request ::
  "'v profile_vault \<Rightarrow> 'b vpn_backend \<Rightarrow> connect_request \<Rightarrow> ('v, 'b, string) handler" where
  "processor_connect_request V B c =
     try_then clear_failure (\<lambda>_.
     try_then (on_machine (begin_connect c)) (\<lambda>_.
     try_then (on_machine mark_validated) (\<lambda>_.
     try_then (start_engine V B c) (\<lambda>result.
       (case result of
          Inr _ \<Rightarrow> try_then (on_machine (mark_connected False)) (\<lambda>_ p. (Inr ''CONNECTED'', p))
        | Inl failure \<Rightarrow> record_failure failure)))))"

definition stop_engine :: "'b vpn_backend \<Rightarrow> ('v, 'b, unit) handler" where
  "stop_engine B =
     try_then (on_backend (be_disconnect B))
       (\<lambda>result p. (map_err (\<lambda>_. ProfileStoreUnavailable) result, p))"

definition processor_disconnect_request ::
  "'b vpn_backend \<Rightarrow> string \<Rightarrow> ('v, 'b, string) handler" where
  "processor_disconnect_request B operation_id p =
     (if is_failure (se_phase (pr_machine p)) then
        try_then (stop_engine B) (\<lambda>_.
        try_then (on_machine reset_failure) (\<lambda>_ p. (Inr ''DISCONNECTED'', p))) p
      else
        try_then (on_machine (begin_disconnect operation_id)) (\<lambda>_.
        try_then (stop_engine B) (\<lambda>_.
        try_then (on_machine mark_disconnected) (\<lambda>_ p. (Inr ''DISCONNECTED'', p)))) p)"

definition import_wireguard ::
  "'v profile_vault \<Rightarrow> string \<Rightarrow> wireguard_profile \<Rightarrow> ('v, 'b, string) handler" where
  "import_wireguard V operation_id profile =
     try_then (\<lambda>p. (validate_import operation_id (validate_wireguard profile), p)) (\<lambda>_.
     try_then (on_vault (va_store_wireguard V profile)) (\<lambda>stored p. (validate_stored_id stored, p)))"

definition import_amneziawg ::
  "'v profile_vault \<Rightarrow> string \<Rightarrow> amneziawg_profile \<Rightarrow> ('v, 'b, string) handler" where
  "import_amneziawg V operation_id profile =
     try_then (\<lambda>p. (validate_import operation_id (validate_amneziawg profile), p)) (\<lambda>_.
     try_then (on_vault (va_store_amneziawg V profile)) (\<lambda>stored p. (validate_stored_id stored, p)))"

definition import_vless ::
  "'v profile_vault \<Rightarrow> string \<Rightarrow> vless_profile \<Rightarrow> ('v, 'b, string) handler" where
  "import_vless V operation_id profile =
     try_then (\<lambda>p. (validate_import operation_id (validate_vless profile), p)) (\<lambda>_.
     try_then (on_vault (va_store_vless V profile)) (\<lambda>stored p. (validate_stored_id stored, p)))"

definition delete_profile ::
  "'v profile_vault \<Rightarrow> string \<Rightarrow> string \<Rightarrow> ('v, 'b, unit) handler" where
  "delete_profile V operation_id profile_id p =
     (if trim operation_id = [] then (Inl EmptyOperationId, p)
      else if trim profile_id = [] then (Inl EmptyProfileId, p)
      else on_vault (va_delete V profile_id) p)"

definition reconcile_status :: "'b vpn_backend \<Rightarrow> ('v, 'b, string) handler" where
  "reconcile_status B p =
     (if se_phase (pr_machine p) \<noteq> Connected \<and> se_phase (pr_machine p) \<noteq> Reconnecting
      then (Inr ''OK'', p)
      else (case be_is_connected B (pr_backend p) of
              Inr True \<Rightarrow> (Inr ''OK'', p)
            | Inr False \<Rightarrow>
                (Inr ''TUNNEL_STOPPED'',
                 p\<lparr>pr_machine := reconcile_disconnected (pr_machine p)\<rparr>)
            | Inl failure \<Rightarrow> record_failure failure p))"

text \<open>The dispatch of \<open>process\<close>: code, profile identifier to return, statistics.\<close>

definition answer ::
  "('v, 'b, 'a) handler \<Rightarrow> ('a \<Rightarrow> string \<times> string option \<times> tunnel_statistics option) \<Rightarrow>
   ('v, 'b, string \<times> string option \<times> tunnel_statistics option) handler" where
  "answer h f = try_then h (\<lambda>x p. (Inr (f x), p))"

primrec dispatch ::
  "'v profile_vault \<Rightarrow> 'b vpn_backend \<Rightarrow> control_command \<Rightarrow>
   ('v, 'b, string \<times> string option \<times> tunnel_statistics option) handler" where
  "dispatch V B Status = answer (reconcile_status B) (\<lambda>c. (c, None, None))"
| "dispatch V B Diagnostics = (\<lambda>p. (Inr (''DIAGNOSTICS_REDACTED'', None, None), p))"
| "dispatch V B (Connect c) = answer (processor_connect_request V B c) (\<lambda>c. (c, None, None))"
| "dispatch V B (Disconnect operation_id) =
     answer (processor_disconnect_request B operation_id) (\<lambda>c. (c, None, None))"
| "dispatch V B (ImportWireGuardProfile operation_id profile) =
     answer (import_wireguard V operation_id profile) (\<lambda>i. (''PROFILE_STORED'', Some i, None))"
| "dispatch V B (ImportAmneziaWgProfile operation_id profile) =
     answer (import_amneziawg V operation_id profile) (\<lambda>i. (''PROFILE_STORED'', Some i, None))"
| "dispatch V B (ImportVlessRealityProfile operation_id profile) =
     answer (import_vless V operation_id profile) (\<lambda>i. (''PROFILE_STORED'', Some i, None))"
| "dispatch V B (DeleteProfile operation_id profile_id) =
     answer (delete_profile V operation_id profile_id) (\<lambda>_. (''PROFILE_DELETED'', None, None))"
| "dispatch V B Statistics =
     (\<lambda>p. (Inr (case be_statistics B (pr_backend p) of
                   Inr statistics \<Rightarrow> (''OK'', None, Some statistics)
                 | Inl failure \<Rightarrow> (snd (backend_failure_state failure), None, None)), p))"

definition process ::
  "'v profile_vault \<Rightarrow> 'b vpn_backend \<Rightarrow> authorization_context \<Rightarrow> request_envelope \<Rightarrow>
   ('v, 'b, command_outcome) handler" where
  "process V B context request p =
     (if \<not> is_allowed context then (Inl UnauthorizedCaller, p)
      else if rq_request_id request \<in> pr_recent_id_set p then (Inl DuplicateRequest, p)
      else try_then (dispatch V B (rq_command request)) (\<lambda>(code, returned_profile_id, statistics) q.
        (Inr
          (let state = pr_machine q in
           \<lparr>oc_request_id = rq_request_id request,
            oc_state = (case returned_profile_id of
                          None \<Rightarrow> state
                        | Some i \<Rightarrow> state\<lparr>se_profile_id := Some i\<rparr>),
            oc_code = code, oc_statistics = statistics\<rparr>), q))
        (remember (rq_request_id request) p))"


section \<open>What the handlers do\<close>

lemma on_machine_eq [simp]:
  "operation (pr_machine p) = (r, m) \<Longrightarrow> on_machine operation p = (r, p\<lparr>pr_machine := m\<rparr>)"
  by (simp add: on_machine_def)

lemma is_failure_backend [simp]: "is_failure (fst (backend_failure_state f))"
  by (cases f) (simp_all add: backend_failure_state_def)

text \<open>An engine start touches the backend only.\<close>

lemma start_engine_frame:
  "start_engine V B c p = (r, q) \<Longrightarrow> q = p\<lparr>pr_backend := pr_backend q\<rparr>"
  by (auto simp: start_engine_def try_then_def on_backend_def split: protocol.splits sum.splits prod.splits)

definition with_phase :: "connection_phase \<Rightarrow> state_event \<Rightarrow> state_event" where
  "with_phase q m = m\<lparr>se_phase := q\<rparr>"

definition started :: "connection_phase \<Rightarrow> string \<Rightarrow> state_event" where
  "started q profile_id = default_state_event\<lparr>se_phase := q, se_profile_id := Some profile_id\<rparr>"

definition failed_state :: "backend_failure \<Rightarrow> state_event \<Rightarrow> state_event" where
  "failed_state f m =
     m\<lparr>se_phase := fst (backend_failure_state f), se_kill_switch_active := False,
       se_error_code := Some (snd (backend_failure_state f))\<rparr>"

text \<open>The phases in which a new life cycle may start.\<close>

definition idle :: "connection_phase \<Rightarrow> bool" where
  "idle q \<longleftrightarrow> q = Disconnected \<or> is_failure q"

lemma clear_failure_eq:
  "clear_failure p =
     (Inr (), if is_failure (se_phase (pr_machine p)) then p\<lparr>pr_machine := default_state_event\<rparr> else p)"
  by (simp add: clear_failure_def reset_failure_def on_machine_def)

lemma record_failure_eq:
  "record_failure f p =
     (Inr (snd (backend_failure_state f)), p\<lparr>pr_machine := failed_state f (pr_machine p)\<rparr>)"
  by (simp add: record_failure_def try_then_def on_machine_def fail_def failed_state_def)

text \<open>The connect handler, branch by branch.\<close>

lemma connect_blank_operation:
  assumes "trim (cr_operation_id c) = []"
  shows "processor_connect_request V B c p = (Inl EmptyOperationId, snd (clear_failure p))"
  using assms
  by (simp add: processor_connect_request_def clear_failure_eq try_then_def on_machine_def begin_connect_def)

lemma connect_blank_profile:
  assumes "trim (cr_operation_id c) \<noteq> []" "trim (cr_profile_id c) = []"
  shows "processor_connect_request V B c p = (Inl EmptyProfileId, snd (clear_failure p))"
  using assms
  by (simp add: processor_connect_request_def clear_failure_eq try_then_def on_machine_def begin_connect_def)

lemma connect_busy:
  assumes "trim (cr_operation_id c) \<noteq> []" "trim (cr_profile_id c) \<noteq> []"
    "\<not> idle (se_phase (pr_machine p))"
  shows "processor_connect_request V B c p = (Inl Busy, p)"
  using assms
  by (simp add: processor_connect_request_def clear_failure_eq try_then_def on_machine_def
      begin_connect_def idle_def)

lemma connect_idle:
  assumes "trim (cr_operation_id c) \<noteq> []" "trim (cr_profile_id c) \<noteq> []"
    "idle (se_phase (pr_machine p))"
  shows "processor_connect_request V B c p =
    (case start_engine V B c (p\<lparr>pr_machine := started Connecting (cr_profile_id c)\<rparr>) of
       (Inl e, q) \<Rightarrow> (Inl e, q)
     | (Inr (Inr _), q) \<Rightarrow>
         (Inr ''CONNECTED'', q\<lparr>pr_machine := started Connected (cr_profile_id c)\<rparr>)
     | (Inr (Inl f), q) \<Rightarrow>
         (Inr (snd (backend_failure_state f)),
          q\<lparr>pr_machine := failed_state f (started Connecting (cr_profile_id c))\<rparr>))"
proof -
  let ?q = "p\<lparr>pr_machine := started Connecting (cr_profile_id c)\<rparr>"
  obtain r q where s: "start_engine V B c ?q = (r, q)" by (cases "start_engine V B c ?q")
  have m: "pr_machine q = started Connecting (cr_profile_id c)"
    by (subst start_engine_frame [OF s]) simp
  have "processor_connect_request V B c p =
      try_then (start_engine V B c) (\<lambda>result.
        (case result of
           Inr _ \<Rightarrow> try_then (on_machine (mark_connected False)) (\<lambda>_ p. (Inr ''CONNECTED'', p))
         | Inl failure \<Rightarrow> record_failure failure)) ?q"
    using assms
    by (auto simp: processor_connect_request_def clear_failure_eq try_then_def on_machine_def
        begin_connect_def mark_validated_def idle_def started_def default_state_event_def)
  then show ?thesis
    using s m
    by (auto simp: try_then_def record_failure_eq on_machine_def mark_connected_def started_def
        split: sum.splits)
qed

text \<open>The disconnect handler, branch by branch.\<close>

lemma disconnect_failed:
  assumes "is_failure (se_phase (pr_machine p))"
  shows "processor_disconnect_request B operation_id p =
    (case be_disconnect B (pr_backend p) of
       (Inl f, b) \<Rightarrow> (Inl ProfileStoreUnavailable, p\<lparr>pr_backend := b\<rparr>)
     | (Inr _, b) \<Rightarrow>
         (Inr ''DISCONNECTED'', p\<lparr>pr_machine := default_state_event, pr_backend := b\<rparr>))"
  using assms
  by (simp add: processor_disconnect_request_def stop_engine_def try_then_def on_backend_def
      on_machine_def reset_failure_def split: prod.splits sum.splits)

lemma disconnect_blank:
  assumes "\<not> is_failure (se_phase (pr_machine p))" "trim operation_id = []"
  shows "processor_disconnect_request B operation_id p = (Inl EmptyOperationId, p)"
  using assms
  by (simp add: processor_disconnect_request_def try_then_def on_machine_def begin_disconnect_def)

lemma disconnect_busy:
  assumes "\<not> is_failure (se_phase (pr_machine p))" "trim operation_id \<noteq> []"
    "se_phase (pr_machine p) \<noteq> Connected" "se_phase (pr_machine p) \<noteq> Reconnecting"
  shows "processor_disconnect_request B operation_id p = (Inl Busy, p)"
  using assms
  by (simp add: processor_disconnect_request_def try_then_def on_machine_def begin_disconnect_def)

lemma disconnect_active:
  assumes "se_phase (pr_machine p) = Connected \<or> se_phase (pr_machine p) = Reconnecting"
    "trim operation_id \<noteq> []"
  shows "processor_disconnect_request B operation_id p =
    (case be_disconnect B (pr_backend p) of
       (Inl f, b) \<Rightarrow>
         (Inl ProfileStoreUnavailable,
          p\<lparr>pr_machine := with_phase Disconnecting (pr_machine p), pr_backend := b\<rparr>)
     | (Inr _, b) \<Rightarrow>
         (Inr ''DISCONNECTED'', p\<lparr>pr_machine := default_state_event, pr_backend := b\<rparr>))"
  using assms
  by (auto simp: processor_disconnect_request_def stop_engine_def try_then_def on_backend_def
      on_machine_def begin_disconnect_def mark_disconnected_def with_phase_def split: prod.splits sum.splits)

text \<open>Status reconciles the machine with the engine.\<close>

lemma reconcile_eq:
  "reconcile_status B p =
     (if se_phase (pr_machine p) = Connected \<or> se_phase (pr_machine p) = Reconnecting then
        (case be_is_connected B (pr_backend p) of
           Inr True \<Rightarrow> (Inr ''OK'', p)
         | Inr False \<Rightarrow> (Inr ''TUNNEL_STOPPED'', p\<lparr>pr_machine := default_state_event\<rparr>)
         | Inl f \<Rightarrow> (Inr (snd (backend_failure_state f)),
             p\<lparr>pr_machine := failed_state f (pr_machine p)\<rparr>))
      else (Inr ''OK'', p))"
  by (auto simp: reconcile_status_def reconcile_disconnected_def record_failure_eq
      split: sum.splits bool.splits)

text \<open>Imports and deletions touch the vault only.\<close>

lemma on_vault_frame: "on_vault f p = (r, q) \<Longrightarrow> q = p\<lparr>pr_vault := pr_vault q\<rparr>"
  by (auto simp: on_vault_def split: prod.splits)

lemma import_frame:
  "import_wireguard V operation_id w p = (r, q) \<Longrightarrow> q = p\<lparr>pr_vault := pr_vault q\<rparr>"
  "import_amneziawg V operation_id a p = (r, q) \<Longrightarrow> q = p\<lparr>pr_vault := pr_vault q\<rparr>"
  "import_vless V operation_id x p = (r, q) \<Longrightarrow> q = p\<lparr>pr_vault := pr_vault q\<rparr>"
  "delete_profile V operation_id i p = (s, q) \<Longrightarrow> q = p\<lparr>pr_vault := pr_vault q\<rparr>"
  by (auto simp: import_wireguard_def import_amneziawg_def import_vless_def delete_profile_def
      try_then_def dest: on_vault_frame split: sum.splits prod.splits if_splits)

end
