(* ===== verification/Processor_Laws.thy ===== *)
theory Processor_Laws
  imports Processor
begin

text \<open>
  The laws of the command processor: which part of its state each handler may change, the
  behaviour a client observes between requests, the replay window, and the answers it gives.
  The processor is seen as a reactive system whose inputs are requests and changes that the
  environment makes to vault and engine on its own (a tunnel that stops, a file that disappears).
\<close>

section \<open>Frame conditions\<close>

lemma answer_state [simp]: "snd (answer h f p) = snd (h p)"
  by (simp add: answer_def try_then_def split: prod.splits sum.splits)

text \<open>
  A part of the processor's state that a handler leaves alone. The locales say which of the three
  components do not belong to the part, and derive which handlers keep it.
\<close>

locale frame_field =
  fixes field :: "('v, 'b) processor \<Rightarrow> 'x"
begin

definition keeps :: "('v, 'b, 'a) handler \<Rightarrow> bool" where
  "keeps h \<longleftrightarrow> (\<forall>p. field (snd (h p)) = field p)"

lemma keeps_try_then: "keeps h \<Longrightarrow> (\<And>x. keeps (f x)) \<Longrightarrow> keeps (try_then h f)"
  unfolding keeps_def try_then_def by (auto split: prod.splits sum.splits) (metis snd_conv)+

lemma keeps_pure: "keeps (\<lambda>p. (g p, p))"
  by (simp add: keeps_def)

lemma keeps_if: "keeps h \<Longrightarrow> keeps g \<Longrightarrow> keeps (\<lambda>p. if P p then h p else g p)"
  by (simp add: keeps_def)

lemma keeps_answer: "keeps h \<Longrightarrow> keeps (answer h f)"
  unfolding answer_def by (intro keeps_try_then keeps_pure)

end

locale machine_frame = frame_field field
  for field :: "('v, 'b) processor \<Rightarrow> 'x" +
  assumes machine_update [simp]: "field (p\<lparr>pr_machine := m\<rparr>) = field p"
begin

lemma keeps_machine: "keeps (on_machine m)"
  by (simp add: keeps_def on_machine_def split: prod.splits)

lemma keeps_reconcile: "keeps (reconcile_status B)"
  unfolding keeps_def reconcile_eq by (auto split: sum.splits bool.splits)

end

text \<open>Connect and disconnect keep what is neither machine nor backend.\<close>

locale engine_frame = machine_frame field
  for field :: "('v, 'b) processor \<Rightarrow> 'x" +
  assumes backend_update [simp]: "field (p\<lparr>pr_backend := b\<rparr>) = field p"
begin

lemma keeps_backend: "keeps (on_backend b)"
  by (simp add: keeps_def on_backend_def split: prod.splits)

lemma keeps_connect: "keeps (processor_connect_request V B c)"
  unfolding processor_connect_request_def clear_failure_def [abs_def] start_engine_def record_failure_def
  by (auto intro!: keeps_try_then keeps_pure keeps_machine keeps_backend keeps_if
      split: protocol.splits sum.splits)

lemma keeps_disconnect: "keeps (processor_disconnect_request B operation_id)"
  unfolding processor_disconnect_request_def [abs_def] stop_engine_def
  by (intro keeps_if keeps_try_then keeps_pure keeps_machine keeps_backend)

end

text \<open>Imports and deletions keep what is not the vault.\<close>

locale vault_frame = machine_frame field
  for field :: "('v, 'b) processor \<Rightarrow> 'x" +
  assumes vault_update [simp]: "field (p\<lparr>pr_vault := v\<rparr>) = field p"
begin

lemma keeps_vault: "keeps (on_vault v)"
  by (simp add: keeps_def on_vault_def split: prod.splits)

lemma keeps_import:
  "keeps (import_wireguard V operation_id w)" "keeps (import_amneziawg V operation_id a)"
  "keeps (import_vless V operation_id x)" "keeps (delete_profile V operation_id i)"
  unfolding import_wireguard_def import_amneziawg_def import_vless_def delete_profile_def [abs_def]
  by (intro keeps_if keeps_try_then keeps_pure keeps_vault)+

end

locale untouched_field = engine_frame field + vault_frame field
  for field :: "('v, 'b) processor \<Rightarrow> 'x"
begin

lemma keeps_dispatch: "keeps (dispatch V B cmd)"
  by (cases cmd)
    (auto intro!: keeps_answer keeps_pure keeps_reconcile keeps_connect keeps_disconnect keeps_import)

lemma dispatch_field: "field (snd (dispatch V B cmd p)) = field p"
  using keeps_dispatch by (simp add: keeps_def)

end

interpretation ids: untouched_field pr_recent_ids
  by unfold_locales simp_all

interpretation id_set: untouched_field pr_recent_id_set
  by unfold_locales simp_all

interpretation vault_part: engine_frame pr_vault
  by unfold_locales simp_all

interpretation backend_part: vault_frame pr_backend
  by unfold_locales simp_all

text \<open>Which commands may change the engine, and which the store.\<close>

primrec drives_engine :: "control_command \<Rightarrow> bool" where
  "drives_engine Status = False"
| "drives_engine (Connect c) = True"
| "drives_engine (Disconnect i) = True"
| "drives_engine Diagnostics = False"
| "drives_engine (ImportWireGuardProfile i w) = False"
| "drives_engine (ImportAmneziaWgProfile i a) = False"
| "drives_engine (ImportVlessRealityProfile i x) = False"
| "drives_engine (DeleteProfile i j) = False"
| "drives_engine Statistics = False"

primrec drives_store :: "control_command \<Rightarrow> bool" where
  "drives_store Status = False"
| "drives_store (Connect c) = False"
| "drives_store (Disconnect i) = False"
| "drives_store Diagnostics = False"
| "drives_store (ImportWireGuardProfile i w) = True"
| "drives_store (ImportAmneziaWgProfile i a) = True"
| "drives_store (ImportVlessRealityProfile i x) = True"
| "drives_store (DeleteProfile i j) = True"
| "drives_store Statistics = False"

lemmas vault_kept = vault_part.keeps_connect [unfolded vault_part.keeps_def, rule_format]
  vault_part.keeps_disconnect [unfolded vault_part.keeps_def, rule_format]
  vault_part.keeps_reconcile [unfolded vault_part.keeps_def, rule_format]

lemmas backend_kept = backend_part.keeps_import [unfolded backend_part.keeps_def, rule_format]
  backend_part.keeps_reconcile [unfolded backend_part.keeps_def, rule_format]

lemma dispatch_vault: "\<not> drives_store cmd \<Longrightarrow> pr_vault (snd (dispatch V B cmd p)) = pr_vault p"
  by (cases cmd) (simp_all add: vault_kept)

lemma dispatch_backend: "\<not> drives_engine cmd \<Longrightarrow> pr_backend (snd (dispatch V B cmd p)) = pr_backend p"
  by (cases cmd) (simp_all add: backend_kept)

section \<open>What a request does, from outside\<close>

lemma remember_fields [simp]:
  "pr_machine (remember i p) = pr_machine p" "pr_vault (remember i p) = pr_vault p"
  "pr_backend (remember i p) = pr_backend p"
  by (auto simp: remember_def Let_def split: list.splits)

lemma process_unauthorized:
  "\<not> is_allowed context \<Longrightarrow> process V B context request p = (Inl UnauthorizedCaller, p)"
  by (simp add: process_def)

lemma process_duplicate:
  "is_allowed context \<Longrightarrow> rq_request_id request \<in> pr_recent_id_set p \<Longrightarrow>
   process V B context request p = (Inl DuplicateRequest, p)"
  by (simp add: process_def)

definition accepts :: "authorization_context \<Rightarrow> request_envelope \<Rightarrow> ('v, 'b) processor \<Rightarrow> bool" where
  "accepts context request p \<longleftrightarrow>
     is_allowed context \<and> rq_request_id request \<notin> pr_recent_id_set p"

lemma process_state:
  "snd (process V B context request p) =
     (if accepts context request p
      then snd (dispatch V B (rq_command request) (remember (rq_request_id request) p)) else p)"
  by (auto simp: process_def accepts_def try_then_def split: prod.splits sum.splits)

lemma process_answer:
  "fst (process V B context request p) = Inr outcome \<Longrightarrow>
   accepts context request p \<and>
   (\<exists>code returned stats q.
      dispatch V B (rq_command request) (remember (rq_request_id request) p) =
        (Inr (code, returned, stats), q)
      \<and> outcome = \<lparr>oc_request_id = rq_request_id request,
            oc_state = (case returned of None \<Rightarrow> pr_machine q
                        | Some i \<Rightarrow> (pr_machine q)\<lparr>se_profile_id := Some i\<rparr>),
            oc_code = code, oc_statistics = stats\<rparr>)"
  by (auto simp: process_def accepts_def try_then_def Let_def split: prod.splits sum.splits if_splits)

section \<open>The behaviour observed between requests\<close>

text \<open>
  \<open>observed m cmd m'\<close>: a request with command \<open>cmd\<close> may take the event a client sees from \<open>m\<close> to
  \<open>m'\<close>. \<open>Validating\<close> and \<open>Reconnecting\<close> are inner states of one request; \<open>Connecting\<close> and
  \<open>Disconnecting\<close> are left behind only by a request that failed half-way, and no rule leaves them.
\<close>

definition active :: "connection_phase \<Rightarrow> bool" where
  "active q \<longleftrightarrow> q = Connected \<or> q = Reconnecting"

inductive observed :: "state_event \<Rightarrow> control_command \<Rightarrow> state_event \<Rightarrow> bool" where
  same: "observed m cmd m"
| connected: "idle (se_phase m) \<Longrightarrow> trim (cr_profile_id c) \<noteq> [] \<Longrightarrow>
    observed m (Connect c) (started Connected (cr_profile_id c))"
| refused: "idle (se_phase m) \<Longrightarrow> trim (cr_profile_id c) \<noteq> [] \<Longrightarrow>
    observed m (Connect c) (failed_state f (started Connecting (cr_profile_id c)))"
| abandoned: "idle (se_phase m) \<Longrightarrow> trim (cr_profile_id c) \<noteq> [] \<Longrightarrow>
    observed m (Connect c) (started Connecting (cr_profile_id c))"
| cleared: "is_failure (se_phase m) \<Longrightarrow> observed m (Connect c) default_state_event"
| stopped: "active (se_phase m) \<or> is_failure (se_phase m) \<Longrightarrow>
    observed m (Disconnect operation_id) default_state_event"
| stranded: "active (se_phase m) \<Longrightarrow>
    observed m (Disconnect operation_id) (with_phase Disconnecting m)"
| gone: "active (se_phase m) \<Longrightarrow> observed m Status default_state_event"
| lost: "active (se_phase m) \<Longrightarrow> observed m Status (failed_state f m)"

inductive_cases observed_cases: "observed m cmd m'"

lemma connect_observed:
  "observed (pr_machine p) (Connect c) (pr_machine (snd (processor_connect_request V B c p)))"
proof -
  consider "trim (cr_operation_id c) = []" | "trim (cr_operation_id c) \<noteq> []" "trim (cr_profile_id c) = []"
    | "trim (cr_operation_id c) \<noteq> []" "trim (cr_profile_id c) \<noteq> []" "\<not> idle (se_phase (pr_machine p))"
    | "trim (cr_operation_id c) \<noteq> []" "trim (cr_profile_id c) \<noteq> []" "idle (se_phase (pr_machine p))"
    by blast
  then show ?thesis
  proof cases
    case 4
    obtain r q where s: "start_engine V B c (p\<lparr>pr_machine := started Connecting (cr_profile_id c)\<rparr>) = (r, q)"
      by fastforce
    have "pr_machine q = started Connecting (cr_profile_id c)"
      by (subst start_engine_frame [OF s]) simp
    with 4 s show ?thesis by (auto simp: connect_idle split: sum.splits intro: observed.intros)
  qed (auto simp: connect_blank_operation connect_blank_profile connect_busy clear_failure_eq
      intro: observed.intros)
qed

lemma disconnect_observed:
  "observed (pr_machine p) (Disconnect i) (pr_machine (snd (processor_disconnect_request B i p)))"
proof -
  consider "is_failure (se_phase (pr_machine p))"
    | "\<not> is_failure (se_phase (pr_machine p))" "trim i = []"
    | "\<not> is_failure (se_phase (pr_machine p))" "trim i \<noteq> []" "\<not> active (se_phase (pr_machine p))"
    | "trim i \<noteq> []" "active (se_phase (pr_machine p))"
    by blast
  then show ?thesis
    by cases (auto simp: disconnect_failed disconnect_blank disconnect_busy disconnect_active active_def
        intro: observed.intros split: prod.splits sum.splits)
qed

lemma import_machine:
  "pr_machine (snd (import_wireguard V i w p)) = pr_machine p"
  "pr_machine (snd (import_amneziawg V i a p)) = pr_machine p"
  "pr_machine (snd (import_vless V i x p)) = pr_machine p"
  "pr_machine (snd (delete_profile V i j p)) = pr_machine p"
  by (auto simp: import_wireguard_def import_amneziawg_def import_vless_def delete_profile_def
      try_then_def on_vault_def split: sum.splits prod.splits)

lemma dispatch_observed: "observed (pr_machine p) cmd (pr_machine (snd (dispatch V B cmd p)))"
proof (cases cmd)
  case Status
  then show ?thesis
    by (auto simp: reconcile_eq active_def split: sum.splits bool.splits intro: observed.intros)
next
  case (Connect c)
  then show ?thesis using connect_observed by simp
next
  case (Disconnect i)
  then show ?thesis using disconnect_observed by simp
qed (simp_all add: same import_machine)

lemma process_observed:
  "pr_machine (snd (process V B context request p)) = pr_machine p
   \<or> accepts context request p
     \<and> observed (pr_machine p) (rq_command request) (pr_machine (snd (process V B context request p)))"
  using dispatch_observed [of "remember (rq_request_id request) p" "rq_command request" V B]
  by (simp add: process_state)

section \<open>The processor as a reactive system\<close>

text \<open>An input is a request of a caller, or a change that happens outside of the service.\<close>

datatype ('v, 'b) event =
    Request authorization_context request_envelope
  | Outside "'v \<Rightarrow> 'v" "'b \<Rightarrow> 'b"

primrec processor_step ::
  "'v profile_vault \<Rightarrow> 'b vpn_backend \<Rightarrow> ('v, 'b) event \<Rightarrow> ('v, 'b) processor \<Rightarrow>
   (command_error + command_outcome) option \<times> ('v, 'b) processor" where
  "processor_step V B (Request context request) p =
     (case process V B context request p of (r, q) \<Rightarrow> (Some r, q))"
| "processor_step V B (Outside f g) p =
     (None, p\<lparr>pr_vault := f (pr_vault p), pr_backend := g (pr_backend p)\<rparr>)"

lemma request_step [simp]:
  "fst (processor_step V B (Request context request) p) = Some (fst (process V B context request p))"
  "snd (processor_step V B (Request context request) p) = snd (process V B context request p)"
  by (simp_all split: prod.splits)

declare processor_step.simps(1) [simp del]

subsection \<open>The invariant of the machine between requests\<close>

definition resting :: "state_event \<Rightarrow> bool" where
  "resting m \<longleftrightarrow>
     machine_ok m \<and> \<not> se_kill_switch_active m
     \<and> se_phase m \<in> {Disconnected, Connecting, Connected, Disconnecting, NoNetwork,
          ServerUnavailable, Error}"

lemma failed_state_fields [simp]:
  "se_phase (failed_state f m) = fst (backend_failure_state f)"
  "se_error_code (failed_state f m) = Some (snd (backend_failure_state f))"
  "se_kill_switch_active (failed_state f m) = False"
  "se_profile_id (failed_state f m) = se_profile_id m"
  "se_contract_version (failed_state f m) = se_contract_version m"
  by (simp_all add: failed_state_def)

lemma resting_default [simp]: "resting default_state_event"
  by (simp add: resting_def)

lemma resting_started:
  "trim i \<noteq> [] \<Longrightarrow> q = Connecting \<or> q = Connected \<Longrightarrow> resting (started q i)"
  by (auto simp: resting_def machine_ok_def started_def)

lemma resting_failed: "machine_ok m \<Longrightarrow> resting (failed_state f m)"
  by (cases f) (simp_all add: resting_def machine_ok_def failed_state_def backend_failure_state_def)

lemma resting_stranded:
  assumes "resting m" "active (se_phase m)"
  shows "resting (with_phase Disconnecting m)"
proof -
  have "se_contract_version m = CONTRACT_VERSION" "se_error_code m = None"
    "\<exists>p. se_profile_id m = Some p \<and> trim p \<noteq> []" "\<not> se_kill_switch_active m"
    using assms by (cases "se_phase m"; simp add: resting_def machine_ok_def active_def)+
  then show ?thesis by (simp add: resting_def machine_ok_def with_phase_def)
qed

lemma resting_observed: "observed m cmd m' \<Longrightarrow> resting m \<Longrightarrow> resting m'"
proof (induction rule: observed.induct)
  case (refused m c f)
  then have "machine_ok (started Connecting (cr_profile_id c))"
    using resting_started [of "cr_profile_id c"] by (simp add: resting_def)
  then show ?case by (rule resting_failed)
next
  case (stranded m i)
  then show ?case by (intro resting_stranded)
next
  case (lost m f)
  then show ?case by (intro resting_failed) (simp add: resting_def)
qed (auto intro: resting_started)

definition processor_ok :: "('v, 'b) processor \<Rightarrow> bool" where
  "processor_ok p \<longleftrightarrow> resting (pr_machine p)"

interpretation processor: stable_system "processor_step V B" "\<lambda>_. True" processor_ok
proof
  fix i and p :: "('a, 'b) processor"
  assume ok: "processor_ok p"
  show "processor_ok (snd (processor_step V B i p))"
  proof (cases i)
    case (Request ctx request)
    from process_observed [of V B ctx request p] ok show ?thesis
      by (auto simp: processor_ok_def Request dest: resting_observed)
  qed (use ok in \<open>simp add: processor_ok_def\<close>)
qed

subsection \<open>States nothing leaves\<close>

text \<open>
  A request that fails between two transitions of the machine leaves it in \<open>Connecting\<close> or
  \<open>Disconnecting\<close>. No later request and no outside change leads out of these two phases.
\<close>

definition stuck :: "connection_phase \<Rightarrow> bool" where
  "stuck q \<longleftrightarrow> q = Connecting \<or> q = Disconnecting"

lemma stuck_not [simp]: "stuck q \<Longrightarrow> \<not> idle q" "stuck q \<Longrightarrow> \<not> active q" "stuck q \<Longrightarrow> \<not> is_failure q"
  by (auto simp: stuck_def idle_def active_def)

lemma observed_stuck: "observed m cmd m' \<Longrightarrow> stuck (se_phase m) \<Longrightarrow> m' = m"
  by (induction rule: observed.induct) auto

text \<open>What a connect or disconnect command is told there.\<close>

definition refused_control ::
  "('v, 'b) event \<Rightarrow> (command_error + command_outcome) option \<Rightarrow> bool" where
  "refused_control e r \<longleftrightarrow>
     (case e of
        Request ctx request \<Rightarrow> drives_engine (rq_command request) \<longrightarrow> (\<exists>err. r = Some (Inl err))
      | Outside f g \<Rightarrow> True)"

lemma stuck_connect:
  "stuck (se_phase (pr_machine p)) \<Longrightarrow>
   \<exists>err. processor_connect_request V B c p = (Inl err, p) \<and> err \<in> {EmptyOperationId, EmptyProfileId, Busy}"
  by (cases "trim (cr_operation_id c) = []"; cases "trim (cr_profile_id c) = []")
    (simp_all add: connect_blank_operation connect_blank_profile connect_busy clear_failure_eq)

lemma stuck_disconnect:
  "stuck (se_phase (pr_machine p)) \<Longrightarrow>
   \<exists>err. processor_disconnect_request B i p = (Inl err, p) \<and> err \<in> {EmptyOperationId, Busy}"
  by (cases "trim i = []") (auto simp: disconnect_blank disconnect_busy stuck_def)

lemma answer_Inl: "h p = (Inl e, q) \<Longrightarrow> answer h f p = (Inl e, q)"
  by (simp add: answer_def)

lemma stuck_process:
  assumes "stuck (se_phase (pr_machine p))" "drives_engine (rq_command request)"
  shows "\<exists>err. fst (process V B ctx request p) = Inl err"
proof -
  let ?p = "remember (rq_request_id request) p"
  from assms(1) have st: "stuck (se_phase (pr_machine ?p))" by simp
  have "\<exists>err. dispatch V B (rq_command request) ?p = (Inl err, ?p)"
  proof (cases "rq_command request")
    case (Connect c)
    with stuck_connect [OF st, of V B c] show ?thesis by (auto intro: answer_Inl)
  next
    case (Disconnect i)
    with stuck_disconnect [OF st, of B i] show ?thesis by (auto intro: answer_Inl)
  qed (use assms(2) in simp_all)
  then show ?thesis by (auto simp: process_def)
qed

interpretation wedged: answering_system "processor_step V B" "\<lambda>_. True"
  "\<lambda>p. stuck (se_phase (pr_machine p)) \<and> pr_machine p = m" refused_control
proof
  fix i and p :: "('a, 'b) processor"
  assume st: "stuck (se_phase (pr_machine p)) \<and> pr_machine p = m"
  show "stuck (se_phase (pr_machine (snd (processor_step V B i p))))
      \<and> pr_machine (snd (processor_step V B i p)) = m"
  proof (cases i)
    case (Request ctx request)
    from process_observed [of V B ctx request p] st have "pr_machine (snd (process V B ctx request p)) = m"
      by (auto dest: observed_stuck)
    with st Request show ?thesis by auto
  qed (use st in auto)
  show "refused_control i (fst (processor_step V B i p))"
    using st stuck_process [of p _ V B] by (cases i) (auto simp: refused_control_def)
qed

subsection \<open>The replay window\<close>

definition last_n :: "nat \<Rightarrow> 'a list \<Rightarrow> 'a list" where
  "last_n n xs = drop (length xs - n) xs"

text \<open>
  The specification: the history of all requests that were taken, in order. A request is taken when
  its caller is allowed and its identifier is not among the last 256 taken ones.
\<close>

primrec window_step :: "('v, 'b) event \<Rightarrow> string list \<Rightarrow> string list" where
  "window_step (Request ctx request) taken =
     (if is_allowed ctx \<and> rq_request_id request \<notin> set (last_n MAX_RECENT_REQUESTS taken)
      then taken @ [rq_request_id request] else taken)"
| "window_step (Outside f g) taken = taken"

definition window_ok :: "('v, 'b) processor \<Rightarrow> bool" where
  "window_ok p \<longleftrightarrow>
     distinct (pr_recent_ids p) \<and> length (pr_recent_ids p) \<le> MAX_RECENT_REQUESTS
     \<and> pr_recent_id_set p = set (pr_recent_ids p)"

definition remembers :: "('v, 'b) processor \<Rightarrow> string list \<Rightarrow> bool" where
  "remembers p taken \<longleftrightarrow> pr_recent_ids p = last_n MAX_RECENT_REQUESTS taken"

lemma MAX_RECENT_pos [simp]: "MAX_RECENT_REQUESTS \<noteq> 0" "Suc 0 \<le> MAX_RECENT_REQUESTS"
  by (simp_all add: MAX_RECENT_REQUESTS_def)

lemma remember_ids:
  "pr_recent_ids (remember i p) =
     (if length (pr_recent_ids p) = MAX_RECENT_REQUESTS then tl (pr_recent_ids p)
      else pr_recent_ids p) @ [i]"
  by (auto simp: remember_def Let_def split: list.splits)

lemma remember_set:
  "distinct (pr_recent_ids p) \<Longrightarrow> pr_recent_id_set p = set (pr_recent_ids p) \<Longrightarrow>
   pr_recent_id_set (remember i p) = set (pr_recent_ids (remember i p))"
  by (auto simp: remember_def Let_def split: list.splits)

lemma window_remember:
  assumes "window_ok p" "i \<notin> pr_recent_id_set p"
  shows "window_ok (remember i p)"
  using assms
  by (cases "pr_recent_ids p")
    (auto simp: window_ok_def remember_ids remember_set distinct_tl dest: list.set_sel(2))

lemma last_n_append:
  "last_n n (xs @ [x]) = (if n = 0 then [] else if length xs < n then xs @ [x] else tl (last_n n xs) @ [x])"
  by (cases n) (auto simp: last_n_def drop_Suc [symmetric] Suc_diff_Suc tl_drop)

lemma length_last_n: "length (last_n n xs) = min n (length xs)"
  by (simp add: last_n_def)

lemma remembers_remember:
  assumes "remembers p taken"
  shows "remembers (remember i p) (taken @ [i])"
  using assms
  by (auto simp: remembers_def remember_ids last_n_append length_last_n)
    (simp add: last_n_def)

lemma process_ids:
  "pr_recent_ids (snd (process V B ctx request p)) =
     (if accepts ctx request p then pr_recent_ids (remember (rq_request_id request) p) else pr_recent_ids p)"
  "pr_recent_id_set (snd (process V B ctx request p)) =
     (if accepts ctx request p then pr_recent_id_set (remember (rq_request_id request) p)
      else pr_recent_id_set p)"
  by (simp_all add: process_state ids.dispatch_field id_set.dispatch_field)

interpretation window: simulated_system "processor_step V B" "\<lambda>_. True" window_ok window_step remembers
proof
  fix i and p :: "('a, 'b) processor" and taken
  assume ok: "window_ok p"
  show "window_ok (snd (processor_step V B i p))"
  proof (cases i)
    case (Request ctx request)
    with ok window_remember [OF ok, of "rq_request_id request"] show ?thesis
      by (auto simp: window_ok_def process_ids accepts_def)
  qed (use ok in \<open>simp add: window_ok_def\<close>)
  assume rem: "remembers p taken"
  show "remembers (snd (processor_step V B i p)) (window_step i taken)"
  proof (cases i)
    case (Request ctx request)
    have "pr_recent_id_set p = set (last_n MAX_RECENT_REQUESTS taken)"
      using ok rem by (simp add: window_ok_def remembers_def)
    with Request rem remembers_remember [OF rem, of "rq_request_id request"] show ?thesis
      by (simp add: remembers_def process_ids accepts_def)
  qed (use rem in \<open>simp add: remembers_def\<close>)
qed

subsection \<open>The answers\<close>

definition failure_codes :: "string list" where
  "failure_codes =
     [''ENGINE_NOT_INSTALLED'', ''NO_NETWORK'', ''SERVER_UNAVAILABLE'', ''INVALID_PROFILE'',
      ''UNSUPPORTED_FEATURE'', ''ENGINE_FAILED'']"

definition outcome_codes :: "string list" where
  "outcome_codes =
     [''OK'', ''TUNNEL_STOPPED'', ''DIAGNOSTICS_REDACTED'', ''CONNECTED'', ''DISCONNECTED'',
      ''PROFILE_STORED'', ''PROFILE_DELETED''] @ failure_codes"

lemma failure_code [simp]:
  "snd (backend_failure_state f) \<in> set failure_codes" "snd (backend_failure_state f) \<in> set outcome_codes"
  "snd (backend_failure_state f) \<noteq> ''CONNECTED''"
  by (cases f; simp add: backend_failure_state_def failure_codes_def outcome_codes_def)+

lemma fixed_codes [simp]:
  "''OK'' \<in> set outcome_codes" "''TUNNEL_STOPPED'' \<in> set outcome_codes"
  "''DIAGNOSTICS_REDACTED'' \<in> set outcome_codes" "''CONNECTED'' \<in> set outcome_codes"
  "''DISCONNECTED'' \<in> set outcome_codes" "''PROFILE_STORED'' \<in> set outcome_codes"
  "''PROFILE_DELETED'' \<in> set outcome_codes"
  by (simp_all add: outcome_codes_def)

lemma valid_profile_id_iff: "valid_profile_id i \<longleftrightarrow> ident i"
  by (simp add: valid_profile_id_def ident_def identifier_char_def [abs_def])

lemma answer_Inr: "answer h f p = (Inr y, q) \<longleftrightarrow> (\<exists>x. h p = (Inr x, q) \<and> y = f x)"
  by (auto simp: answer_def try_then_def split: prod.splits sum.splits)

lemma import_ident:
  "import_wireguard V i w p = (Inr j, q) \<Longrightarrow> ident j"
  "import_amneziawg V i a p = (Inr j, q) \<Longrightarrow> ident j"
  "import_vless V i x p = (Inr j, q) \<Longrightarrow> ident j"
  by (auto simp: import_wireguard_def import_amneziawg_def import_vless_def try_then_def
      validate_stored_id_def valid_profile_id_iff split: prod.splits sum.splits if_splits)

text \<open>A connect command that answers, and what it says.\<close>

lemma connect_answer:
  assumes "processor_connect_request V B c p = (Inr reply, q)"
  shows "reply = ''CONNECTED'' \<and> se_phase (pr_machine q) = Connected
     \<and> fst (start_engine V B c (p\<lparr>pr_machine := started Connecting (cr_profile_id c)\<rparr>)) = Inr (Inr ())
   \<or> reply \<in> set failure_codes \<and> reply \<noteq> ''CONNECTED'' \<and> is_failure (se_phase (pr_machine q))"
proof -
  have ids: "trim (cr_operation_id c) \<noteq> []" "trim (cr_profile_id c) \<noteq> []"
    using assms connect_blank_operation [of c V B p] connect_blank_profile [of c V B p] by auto
  have "idle (se_phase (pr_machine p))"
    using assms connect_busy [OF ids, of p V B] by auto
  from assms [unfolded connect_idle [OF ids this]] show ?thesis
    by (auto simp: started_def split: prod.splits sum.splits)
qed

lemma disconnect_answer: "processor_disconnect_request B i p = (Inr reply, q) \<Longrightarrow> reply = ''DISCONNECTED''"
  by (auto simp: processor_disconnect_request_def try_then_def split: prod.splits sum.splits if_splits)

lemma reconcile_answer:
  "reconcile_status B p = (Inr reply, q) \<Longrightarrow> reply \<in> set outcome_codes \<and> reply \<noteq> ''CONNECTED''"
  by (auto simp: reconcile_eq split: sum.splits bool.splits if_splits)

definition well_answered ::
  "control_command \<Rightarrow> string \<times> string option \<times> tunnel_statistics option \<Rightarrow> connection_phase \<Rightarrow> bool" where
  "well_answered cmd a phase =
     (case a of (reply, returned, stats) \<Rightarrow>
        reply \<in> set outcome_codes
        \<and> (case returned of None \<Rightarrow> True | Some i \<Rightarrow> ident i)
        \<and> (stats = None \<or> cmd = Statistics)
        \<and> (reply = ''CONNECTED'' \<longrightarrow> phase = Connected \<and> (\<exists>c. cmd = Connect c)))"

lemma failure_code_outcome: "c \<in> set failure_codes \<Longrightarrow> c \<in> set outcome_codes"
  by (simp add: outcome_codes_def)

lemma dispatch_answer:
  assumes "dispatch V B cmd p = (Inr a, q)"
  shows "well_answered cmd a (se_phase (pr_machine q))"
proof (cases cmd)
  case Status
  with assms show ?thesis by (auto simp: well_answered_def answer_Inr dest!: reconcile_answer)
next
  case (Connect c)
  with assms show ?thesis
    by (auto simp: well_answered_def answer_Inr failure_code_outcome dest!: connect_answer)
next
  case (Disconnect i)
  with assms show ?thesis by (auto simp: well_answered_def answer_Inr dest!: disconnect_answer)
next
  case Statistics
  with assms show ?thesis by (auto simp: well_answered_def split: sum.splits)
qed (use assms in \<open>auto simp: well_answered_def answer_Inr dest!: import_ident\<close>)

lemma process_outcome:
  assumes "fst (process V B ctx request p) = Inr outcome"
  shows "oc_request_id outcome = rq_request_id request" "oc_code outcome \<in> set outcome_codes"
    "oc_statistics outcome = None \<or> rq_command request = Statistics"
    "oc_code outcome = ''CONNECTED'' \<Longrightarrow>
       se_phase (oc_state outcome) = Connected \<and> (\<exists>c. rq_command request = Connect c)"
    "se_phase (oc_state outcome) = se_phase (pr_machine (snd (process V B ctx request p)))"
    "se_kill_switch_active (oc_state outcome) =
       se_kill_switch_active (pr_machine (snd (process V B ctx request p)))"
    "se_profile_id (oc_state outcome) = se_profile_id (pr_machine (snd (process V B ctx request p)))
     \<or> (\<exists>i. se_profile_id (oc_state outcome) = Some i \<and> ident i)"
proof -
  from process_answer [OF assms] obtain reply returned stats q where
    a: "accepts ctx request p" and
    d: "dispatch V B (rq_command request) (remember (rq_request_id request) p) = (Inr (reply, returned, stats), q)" and
    o: "outcome = \<lparr>oc_request_id = rq_request_id request,
            oc_state = (case returned of None \<Rightarrow> pr_machine q
                        | Some i \<Rightarrow> (pr_machine q)\<lparr>se_profile_id := Some i\<rparr>),
            oc_code = reply, oc_statistics = stats\<rparr>" by blast
  have q: "snd (process V B ctx request p) = q" using a d by (simp add: process_state)
  note w = dispatch_answer [OF d, unfolded well_answered_def prod.case]
  show "oc_request_id outcome = rq_request_id request" "oc_code outcome \<in> set outcome_codes"
    "oc_statistics outcome = None \<or> rq_command request = Statistics"
    "oc_code outcome = ''CONNECTED'' \<Longrightarrow>
       se_phase (oc_state outcome) = Connected \<and> (\<exists>c. rq_command request = Connect c)"
    "se_phase (oc_state outcome) = se_phase (pr_machine (snd (process V B ctx request p)))"
    "se_kill_switch_active (oc_state outcome) =
       se_kill_switch_active (pr_machine (snd (process V B ctx request p)))"
    "se_profile_id (oc_state outcome) = se_profile_id (pr_machine (snd (process V B ctx request p)))
     \<or> (\<exists>i. se_profile_id (oc_state outcome) = Some i \<and> ident i)"
    using w by (simp_all add: o q split: option.splits)
qed

subsection \<open>Reaching \<open>Connected\<close>\<close>

text \<open>The processor as the connect handler finds it when it starts the engine.\<close>

definition connecting :: "request_envelope \<Rightarrow> connect_request \<Rightarrow> ('v, 'b) processor \<Rightarrow> ('v, 'b) processor" where
  "connecting request c p =
     (remember (rq_request_id request) p)\<lparr>pr_machine := started Connecting (cr_profile_id c)\<rparr>"

lemma failure_not_connected [simp]: "fst (backend_failure_state f) \<noteq> Connected"
  by (cases f) (simp_all add: backend_failure_state_def)

lemma connect_reaches:
  assumes "se_phase (pr_machine p) \<noteq> Connected"
    "se_phase (pr_machine (snd (processor_connect_request V B c p))) = Connected"
  shows "fst (start_engine V B c (p\<lparr>pr_machine := started Connecting (cr_profile_id c)\<rparr>)) = Inr (Inr ())
    \<and> fst (processor_connect_request V B c p) = Inr ''CONNECTED''"
proof -
  have ids: "trim (cr_operation_id c) \<noteq> []" "trim (cr_profile_id c) \<noteq> []"
    using assms connect_blank_operation [of c V B p] connect_blank_profile [of c V B p]
    by (cases "trim (cr_operation_id c) = []"; auto simp: clear_failure_eq split: if_splits)+
  have idle: "idle (se_phase (pr_machine p))"
    using assms connect_busy [OF ids, of p V B] by (cases "idle (se_phase (pr_machine p))") auto
  obtain r q where s: "start_engine V B c (p\<lparr>pr_machine := started Connecting (cr_profile_id c)\<rparr>) = (r, q)"
    by fastforce
  have q: "pr_machine q = started Connecting (cr_profile_id c)"
    by (subst start_engine_frame [OF s]) simp
  from assms(2) s q show ?thesis
    unfolding connect_idle [OF ids idle] by (auto simp: started_def split: sum.splits)
qed

lemma observed_connected:
  "observed m cmd m' \<Longrightarrow> se_phase m' = Connected \<Longrightarrow> m' = m \<or> (\<exists>c. cmd = Connect c)"
  by (induction rule: observed.induct) (auto simp: with_phase_def)

lemma process_reaches:
  assumes "se_phase (pr_machine p) \<noteq> Connected"
    "se_phase (pr_machine (snd (process V B ctx request p))) = Connected"
  shows "\<exists>c outcome. rq_command request = Connect c \<and> accepts ctx request p
    \<and> fst (start_engine V B c (connecting request c p)) = Inr (Inr ())
    \<and> fst (process V B ctx request p) = Inr outcome \<and> oc_code outcome = ''CONNECTED''"
proof -
  let ?p = "remember (rq_request_id request) p"
  from assms process_observed [of V B ctx request p] have acc: "accepts ctx request p"
    and "\<exists>c. rq_command request = Connect c"
    by (auto dest: observed_connected)
  then obtain c where c: "rq_command request = Connect c" by blast
  have "se_phase (pr_machine (snd (processor_connect_request V B c ?p))) = Connected"
    using assms(2) acc c by (simp add: process_state)
  with connect_reaches [of ?p V B c] assms(1) obtain q where
    s: "fst (start_engine V B c (connecting request c p)) = Inr (Inr ())" and
    r: "processor_connect_request V B c ?p = (Inr ''CONNECTED'', q)"
    by (cases "processor_connect_request V B c ?p") (auto simp: connecting_def)
  have "\<exists>outcome. fst (process V B ctx request p) = Inr outcome \<and> oc_code outcome = ''CONNECTED''"
    using acc c r by (auto simp: process_def accepts_def answer_def try_then_def)
  with s c acc show ?thesis by blast
qed

end
