(* ===== verification/Core_Theorems.thy ===== *)
theory Core_Theorems
  imports Processor_Laws
begin

text \<open>
  The properties of \<open>crates/vpn_service_core/src/lib.rs\<close>: the connection state machine against the
  documented life cycle, and the command processor for every backend, every vault and every
  sequence of requests and outside changes.
\<close>

section \<open>The state machine\<close>

text \<open>
  C23. Every operation of the state machine follows the documented life cycle: where it succeeds its
  phases are an edge of the life cycle for this call, and where it fails the event is unchanged and
  the life cycle has no edge for the call, or a required identifier is blank.
\<close>

theorem machine_refines_lifecycle:
  "case machine_step c s of
     (Inr u, t) \<Rightarrow> lifecycle (se_phase s) c (se_phase t)
   | (Inl e, t) \<Rightarrow> t = s \<and> \<not> (identified c \<and> (\<exists>q. lifecycle (se_phase s) c q))"
  using machine_step_move [of c s] machine_step_error [of c s] machine_step_enabled [of c s]
  by (auto split: prod.splits sum.splits)

text \<open>
  The state event is well-formed after any sequence of calls: it has the contract version, the idle
  phase carries no data, an error code is present exactly in a failure phase, the kill switch is
  reported only while a tunnel runs, and a running life cycle names its profile.
\<close>

theorem machine_always_well_formed: "machine_ok (snd (run_all machine_step calls default_state_event))"
  by (rule machine.run_stable) (simp_all add: list_all_iff)

text \<open>
  One life cycle at a time: while a life cycle runs, no sequence of calls makes \<open>begin_connect\<close>
  succeed again before it is ended by a finished disconnect, a reset or a reconciliation.
\<close>

theorem one_lifecycle_at_a_time:
  assumes "se_phase s \<noteq> Disconnected" "list_all (\<lambda>c. \<not> ends_cycle c) calls"
  shows "list_all2 refuses_connect calls (fst (run_all machine_step calls s))"
  using busy.run_answers [OF assms(2)] assms(1) by blast

definition sample_connect :: connect_request where
  "sample_connect =
     \<lparr>cr_operation_id = ''connect-1'', cr_profile_id = ''profile-1'', cr_protocol = WireGuard,
      cr_kill_switch = True\<rparr>"

theorem one_lifecycle_at_a_time_witness:
  "list_all2 refuses_connect [MarkValidated, MarkConnected False, BeginConnect sample_connect]
     (fst (run_all machine_step [MarkValidated, MarkConnected False, BeginConnect sample_connect]
        (snd (begin_connect sample_connect default_state_event))))"
proof (rule one_lifecycle_at_a_time)
  show "se_phase (snd (begin_connect sample_connect default_state_event)) \<noteq> Disconnected" by code_simp
qed simp

section \<open>The processor\<close>

text \<open>
  C24. Between requests the processor rests: after any sequence of requests and outside changes, for any
  backend and vault, its event is well-formed, never reports an active kill switch, and is neither
  \<open>Validating\<close> nor \<open>Reconnecting\<close> nor \<open>BlockedBySubscription\<close>.
\<close>

theorem processor_always_resting:
  "resting (pr_machine (snd (run_all (processor_step V B) events (with_backend vault backend))))"
  using processor.run_stable [of events "with_backend vault backend" V B]
  by (simp add: processor_ok_def with_backend_def list_all_iff)

text \<open>
  C3. The processor refines the observed behaviour: one request changes the event by a rule of
  \<open>observed\<close> for its command, and only if the caller is allowed and the request identifier is new.
\<close>

theorem processor_refines_observed:
  "pr_machine (snd (process V B ctx request p)) = pr_machine p
   \<or> is_allowed ctx \<and> rq_request_id request \<notin> pr_recent_id_set p
     \<and> observed (pr_machine p) (rq_command request) (pr_machine (snd (process V B ctx request p)))"
  using process_observed [of V B ctx request p] by (simp add: accepts_def)

text \<open>
  C4. \<open>Connected\<close> is reached only through an engine that reported success: a request that takes the
  processor to \<open>Connected\<close> is a connect command of an allowed caller, the profile was loaded and the
  matching engine returned \<open>Ok\<close> for it, and the answer says so.
\<close>

theorem connected_only_after_engine:
  assumes "se_phase (pr_machine p) \<noteq> Connected"
    "se_phase (pr_machine (snd (process V B ctx request p))) = Connected"
  shows "is_allowed ctx \<and> (\<exists>c outcome. rq_command request = Connect c
    \<and> fst (start_engine V B c (connecting request c p)) = Inr (Inr ())
    \<and> fst (process V B ctx request p) = Inr outcome \<and> oc_code outcome = ''CONNECTED'')"
  using process_reaches [OF assms] by (auto simp: accepts_def)

text \<open>A vault with one profile and an engine that starts and stops on demand, for the instances.\<close>

definition sample_vault :: "wireguard_profile profile_vault" where
  "sample_vault =
     \<lparr>va_store_wireguard = (\<lambda>p v. (Inr ''stored-1'', p)), va_load_wireguard = (\<lambda>i v. Inr v),
      va_store_amneziawg = default_store, va_load_amneziawg = default_load,
      va_store_vless = default_store, va_load_vless = default_load, va_delete = (\<lambda>i v. (Inr (), v))\<rparr>"

definition sample_backend :: "bool vpn_backend" where
  "sample_backend =
     \<lparr>be_connect = (\<lambda>i p k b. (Inr (), True)), be_connect_amneziawg = default_connect_amneziawg,
      be_connect_vless = default_connect_vless, be_disconnect = (\<lambda>b. (Inr (), False)),
      be_is_connected = (\<lambda>b. Inr b), be_statistics = (\<lambda>b. Inl EngineUnavailable)\<rparr>"

definition plain_profile :: wireguard_profile where
  "plain_profile =
     \<lparr>wg_private_key = replicate 32 7, wg_addresses = [''10.8.0.2/32''], wg_dns_servers = [],
      wg_peer_public_key = replicate 32 9, wg_preshared_key = None, wg_endpoint_host = ''vpn.example.test'',
      wg_endpoint_port = 51820, wg_allowed_ips = [''0.0.0.0/0''], wg_persistent_keepalive = None\<rparr>"

definition sample_caller :: authorization_context where
  "sample_caller =
     \<lparr>au_is_local = True, au_is_authenticated = True, au_client_session_id = 3,
      au_allowed_session_id = 3\<rparr>"

definition sample_envelope :: "string \<Rightarrow> control_command \<Rightarrow> request_envelope" where
  "sample_envelope i cmd = \<lparr>rq_contract_version = 4, rq_request_id = i, rq_command = cmd\<rparr>"

theorem connected_only_after_engine_witness:
  "is_allowed sample_caller \<and> fst (start_engine sample_vault sample_backend sample_connect
     (connecting (sample_envelope ''r1'' (Connect sample_connect)) sample_connect
       (with_backend plain_profile False))) = Inr (Inr ())"
proof -
  have "se_phase (pr_machine (with_backend plain_profile False)) \<noteq> Connected" by code_simp
  moreover have "se_phase (pr_machine (snd (process sample_vault sample_backend sample_caller
      (sample_envelope ''r1'' (Connect sample_connect)) (with_backend plain_profile False)))) = Connected"
    by code_simp
  ultimately show ?thesis
    using connected_only_after_engine
      [of "with_backend plain_profile False" sample_vault sample_backend sample_caller
        "sample_envelope ''r1'' (Connect sample_connect)"]
    by (auto simp: sample_envelope_def)
qed

section \<open>Replay protection and isolation\<close>

text \<open>
  C22. The replay window: after any run the processor's identifier queue is exactly the last 256
  identifiers of the history of taken requests, without duplicates, and its lookup set agrees with it.
\<close>

theorem replay_window_refines_history:
  "pr_recent_ids (snd (run_all (processor_step V B) events (with_backend vault backend)))
     = last_n MAX_RECENT_REQUESTS (fold window_step events [])
   \<and> window_ok (snd (run_all (processor_step V B) events (with_backend vault backend)))"
proof
  have start: "window_ok (with_backend vault backend)" "remembers (with_backend vault backend) []"
    by (simp_all add: window_ok_def remembers_def with_backend_def last_n_def)
  have all: "list_all (\<lambda>_. True) events" by (simp add: list_all_iff)
  show "pr_recent_ids (snd (run_all (processor_step V B) events (with_backend vault backend)))
     = last_n MAX_RECENT_REQUESTS (fold window_step events [])"
    using window.run_simulates [OF all start] by (simp add: remembers_def)
  show "window_ok (snd (run_all (processor_step V B) events (with_backend vault backend)))"
    using window.run_stable [OF all start(1)] .
qed

text \<open>
  Replays are refused without effect: in any state that keeps the window invariant, a request
  whose identifier is among the remembered ones is answered with \<open>DuplicateRequest\<close> and nothing
  changes, for every command.
\<close>

theorem replay_refused:
  assumes "window_ok p" "is_allowed ctx" "rq_request_id request \<in> set (pr_recent_ids p)"
  shows "process V B ctx request p = (Inl DuplicateRequest, p)"
  using assms by (intro process_duplicate) (simp_all add: window_ok_def)

theorem replay_refused_witness:
  "process sample_vault sample_backend sample_caller (sample_envelope ''r1'' Status)
     (remember ''r1'' (with_backend plain_profile False))
   = (Inl DuplicateRequest, remember ''r1'' (with_backend plain_profile False))"
proof (rule replay_refused)
  show "window_ok (remember ''r1'' (with_backend plain_profile False))"
    "is_allowed sample_caller"
    "rq_request_id (sample_envelope ''r1'' Status)
       \<in> set (pr_recent_ids (remember ''r1'' (with_backend plain_profile False)))"
    by code_simp+
qed

lemma window_steps_distinct:
  assumes "is_allowed ctx"
  shows "distinct (taken @ ids) \<Longrightarrow>
    fold window_step (map (\<lambda>i. Request ctx (sample_envelope i Status)) ids) taken = taken @ ids"
proof (induction ids arbitrary: taken)
  case (Cons i ids)
  have "i \<notin> set (last_n MAX_RECENT_REQUESTS taken)"
    using Cons.prems by (auto simp: last_n_def dest: in_set_dropD)
  with assms Cons show ?case by (simp add: sample_envelope_def)
qed simp

text \<open>
  C33. The window is bounded, so the uniqueness of request identifiers is too: once more than 256
  requests with distinct identifiers were taken, the first of them is taken again.
\<close>

theorem replay_after_window:
  assumes "is_allowed ctx" "distinct ids" "MAX_RECENT_REQUESTS < length ids"
  shows "accepts ctx (sample_envelope (hd ids) cmd)
    (snd (run_all (processor_step V B)
       (map (\<lambda>i. Request ctx (sample_envelope i Status)) ids) (with_backend vault backend)))"
proof -
  let ?events = "map (\<lambda>i. Request ctx (sample_envelope i Status)) ids :: ('a, 'b) event list"
  have start: "window_ok (with_backend vault backend)" "remembers (with_backend vault backend) []"
    by (simp_all add: window_ok_def remembers_def with_backend_def last_n_def)
  have all: "list_all (\<lambda>_. True) ?events" by (simp add: list_all_iff)
  have "fold window_step ?events [] = ids"
    using window_steps_distinct [OF assms(1), of "[]" ids] assms(2) by simp
  with window.run_simulates [OF all start, of V B] window.run_stable [OF all start(1), of V B]
  have set: "pr_recent_id_set (snd (run_all (processor_step V B) ?events (with_backend vault backend)))
      = set (last_n MAX_RECENT_REQUESTS ids)"
    by (simp add: remembers_def window_ok_def)
  have "hd ids \<notin> set (last_n MAX_RECENT_REQUESTS ids)"
    using assms(2,3) by (cases ids) (auto simp: last_n_def Suc_diff_le dest: in_set_dropD)
  with assms(1) set show ?thesis by (simp add: accepts_def sample_envelope_def)
qed

theorem replay_after_window_witness:
  "accepts sample_caller (sample_envelope (show_nat 0) (Connect sample_connect))
    (snd (run_all (processor_step sample_vault sample_backend)
       (map (\<lambda>i. Request sample_caller (sample_envelope i Status)) (map show_nat [0..<257]))
       (with_backend plain_profile False)))"
proof -
  have "is_allowed sample_caller" by code_simp
  moreover have "distinct (map show_nat [0..<257])"
    by (simp add: distinct_map inj_on_def)
  ultimately show ?thesis
    using replay_after_window [of sample_caller "map show_nat [0..<257]" "Connect sample_connect"
        sample_vault sample_backend plain_profile False]
    by (simp add: MAX_RECENT_REQUESTS_def hd_map)
qed

primrec from_allowed :: "('v, 'b) event \<Rightarrow> bool" where
  "from_allowed (Request ctx request) = is_allowed ctx"
| "from_allowed (Outside f g) = True"

text \<open>
  Callers that are not allowed have no influence: removing all their requests from a run changes
  nothing in the state it ends in, the replay window included.
\<close>

theorem unauthorized_no_influence:
  "snd (run_all (processor_step V B) (filter from_allowed events) p)
   = snd (run_all (processor_step V B) events p)"
proof (rule run_all_filter)
  fix e :: "('a, 'b) event" and p
  assume "\<not> from_allowed e"
  then show "snd (processor_step V B e p) = p" by (cases e) (simp_all add: process_unauthorized)
qed

text \<open>
  Commands keep to their component: whatever the implementations of vault and backend do, a
  request leaves the vault as it was unless it imports or deletes a profile, and leaves the backend
  as it was unless it is a connect or disconnect command.
\<close>

theorem commands_isolated:
  "(drives_store (rq_command request) \<or> pr_vault (snd (process V B ctx request p)) = pr_vault p)
   \<and> (drives_engine (rq_command request) \<or> pr_backend (snd (process V B ctx request p)) = pr_backend p)"
  using dispatch_vault [of "rq_command request" V B "remember (rq_request_id request) p"]
    dispatch_backend [of "rq_command request" V B "remember (rq_request_id request) p"]
  by (auto simp: process_state)

text \<open>
  An import stores only what was validated and returns only a usable handle: on success the profile
  is valid, the handle the vault returned is an allowed identifier, and without validity the vault is
  not even called.
\<close>

theorem import_stores_validated:
  "case import_amneziawg V operation_id profile p of
     (Inr handle, q) \<Rightarrow>
       validate_amneziawg profile = Inr () \<and> ident handle \<and> trim operation_id \<noteq> []
       \<and> va_store_amneziawg V profile (pr_vault p) = (Inr handle, pr_vault q)
   | (Inl e, q) \<Rightarrow> validate_amneziawg profile = Inr () \<or> q = p \<and> e \<in> {EmptyOperationId, command_error.InvalidProfile}"
  by (auto simp: import_amneziawg_def try_then_def on_vault_def validate_import_def validate_stored_id_def
      valid_profile_id_iff result_simps split: prod.splits sum.splits if_splits)

section \<open>Failures, recovery and dead ends\<close>

text \<open>
  A status answer never claims a tunnel that the engine denies: when an accepted status request
  reports \<open>Connected\<close>, the engine was asked now and said yes.
\<close>

theorem status_reports_engine:
  assumes "rq_command request = Status" "fst (process V B ctx request p) = Inr outcome"
    "se_phase (oc_state outcome) = Connected"
  shows "be_is_connected B (pr_backend p) = Inr True"
proof -
  from process_outcome(5) [OF assms(2)] assms(3)
  have c: "se_phase (pr_machine (snd (process V B ctx request p))) = Connected" by simp
  from process_answer [OF assms(2)] have "accepts ctx request p" by blast
  with c assms(1) show ?thesis
    by (auto simp: process_state reconcile_eq split: sum.splits bool.splits if_splits)
qed

definition tunnel_up :: "(wireguard_profile, bool) processor" where
  "tunnel_up = (with_backend plain_profile True)\<lparr>pr_machine := started Connected ''profile-1''\<rparr>"

theorem status_reports_engine_witness: "be_is_connected sample_backend (pr_backend tunnel_up) = Inr True"
proof (rule status_reports_engine)
  show "rq_command (sample_envelope ''r1'' Status) = Status" by (simp add: sample_envelope_def)
  show "fst (process sample_vault sample_backend sample_caller (sample_envelope ''r1'' Status) tunnel_up)
      = Inr \<lparr>oc_request_id = ''r1'', oc_state = started Connected ''profile-1'', oc_code = ''OK'',
             oc_statistics = None\<rparr>"
    by code_simp
  show "se_phase (oc_state \<lparr>oc_request_id = ''r1'', oc_state = started Connected ''profile-1'',
      oc_code = ''OK'', oc_statistics = None\<rparr>) = Connected"
    by code_simp
qed

text \<open>
  A tunnel can be given up: from \<open>Connected\<close> and from every failure phase, an accepted disconnect
  request returns the processor to the idle event and says \<open>DISCONNECTED\<close>, provided that the engine
  stops when asked.
\<close>

theorem disconnect_returns_to_idle:
  assumes "accepts ctx request p" "rq_command request = Disconnect operation_id" "trim operation_id \<noteq> []"
    "active (se_phase (pr_machine p)) \<or> is_failure (se_phase (pr_machine p))"
    "fst (be_disconnect B (pr_backend p)) = Inr ()"
  shows "\<exists>outcome. fst (process V B ctx request p) = Inr outcome \<and> oc_code outcome = ''DISCONNECTED''
    \<and> pr_machine (snd (process V B ctx request p)) = default_state_event"
proof -
  let ?p = "remember (rq_request_id request) p"
  obtain b where b: "be_disconnect B (pr_backend ?p) = (Inr (), b)"
    using assms(5) by (cases "be_disconnect B (pr_backend p)") simp
  have "processor_disconnect_request B operation_id ?p =
      (Inr ''DISCONNECTED'', ?p\<lparr>pr_machine := default_state_event, pr_backend := b\<rparr>)"
    using assms(3,4) b disconnect_active [of ?p operation_id B] disconnect_failed [of ?p B operation_id]
    by (auto simp: active_def)
  with assms(1,2) show ?thesis
    by (auto simp: process_def accepts_def answer_def try_then_def)
qed

theorem disconnect_returns_to_idle_witness:
  "pr_machine (snd (process sample_vault sample_backend sample_caller
     (sample_envelope ''r1'' (Disconnect ''stop-1'')) tunnel_up)) = default_state_event"
proof -
  have "accepts sample_caller (sample_envelope ''r1'' (Disconnect ''stop-1'')) tunnel_up"
    "trim ''stop-1'' \<noteq> []" "active (se_phase (pr_machine tunnel_up))"
    "fst (be_disconnect sample_backend (pr_backend tunnel_up)) = Inr ()"
    by code_simp+
  with disconnect_returns_to_idle [of sample_caller "sample_envelope ''r1'' (Disconnect ''stop-1'')" tunnel_up
      "''stop-1''" sample_backend sample_vault]
  show ?thesis by (auto simp: sample_envelope_def)
qed






end
