(* ===== verification/Os.thy ===== *)
theory Os
  imports Rust_Str Transition_System
begin

text \<open>
  The operating system as the service uses it through the standard library and the Windows crates:
  files, the service manager, the monotonic clock, the random generator and DPAPI. Everything the
  system decides (whether a call fails, how long it takes, what state a service reports, random
  bytes, ciphertexts) is read from an environment that no theorem restricts unless it says so; each
  call consumes one tick, so every sequence of outcomes is covered.
\<close>

section \<open>The environment and the state\<close>

datatype fault = Works | Fails nat

datatype service_state =
    Svc_Stopped
  | Svc_StartPending
  | Svc_StopPending
  | Svc_Running
  | Svc_Other

record environment =
  en_fault :: "nat \<Rightarrow> fault"
  en_delay :: "nat \<Rightarrow> nat"
  en_state :: "nat \<Rightarrow> service_state"
  en_random :: "nat \<Rightarrow> nat \<Rightarrow> u8"
  en_protect :: "nat \<Rightarrow> u8 list \<Rightarrow> u8 list \<Rightarrow> u8 list"
  en_unprotect :: "u8 list \<Rightarrow> u8 list \<Rightarrow> u8 list option"
  en_exit :: "nat \<Rightarrow> u32 option"
  en_open :: "nat \<Rightarrow> bool"
  en_output :: "nat \<Rightarrow> u8 list"
  en_driver :: "nat \<Rightarrow> nat \<Rightarrow> bool \<times> u32 \<times> u8 list"

text \<open>
  A service: its command line and the state it reported last. A process of the service: its command
  line and whether a kill-on-close job owns it; processes that are known to have ended are gone.
\<close>

record service_entry =
  sc_command :: "string list"
  sc_state :: service_state

record child_process =
  ch_command :: "string list"
  ch_owned :: bool

record os =
  os_files :: "string \<Rightarrow> u8 list option"
  os_services :: "string \<Rightarrow> service_entry option"
  os_processes :: "nat \<Rightarrow> child_process option"
  os_clock :: nat
  os_now :: nat
  os_env :: environment

type_synonym ('e, 'a) os_op = "os \<Rightarrow> ('e + 'a) \<times> os"

text \<open>One call into the system: a tick, some time, and the fault the environment has for it.\<close>

definition os_call :: "os \<Rightarrow> fault \<times> os" where
  "os_call s =
     (en_fault (os_env s) (os_clock s),
      s\<lparr>os_clock := Suc (os_clock s), os_now := os_now s + en_delay (os_env s) (os_clock s)\<rparr>)"

lemma os_call_fields [simp]:
  "os_files (snd (os_call s)) = os_files s" "os_services (snd (os_call s)) = os_services s"
  "os_processes (snd (os_call s)) = os_processes s" "os_env (snd (os_call s)) = os_env s"
  "os_now s \<le> os_now (snd (os_call s))"
  by (simp_all add: os_call_def)

section \<open>Files\<close>

text \<open>
  Names of files are compared without regard to the case of ASCII letters, as the Windows file
  systems do. A failing write leaves a prefix of the data.
\<close>

datatype io_kind = NotFound | AlreadyExists | OtherKind

definition ascii_lower :: "char \<Rightarrow> char" where
  "ascii_lower c = (if 65 \<le> code c \<and> code c \<le> 90 then char_of (code c + 32) else c)"

definition file_key :: "string \<Rightarrow> string" where
  "file_key path = map ascii_lower path"

text \<open>\<open>Path::join\<close> of a relative name, and \<open>Path::parent\<close> of the path of a file.\<close>

definition path_separator :: string where
  "path_separator = [char_of (92 :: nat)]"

definition path_join :: "string \<Rightarrow> string \<Rightarrow> string" where
  "path_join root name = root @ path_separator @ name"

definition path_parent :: "string \<Rightarrow> string option" where
  "path_parent path =
     (if path = [] then None
      else Some (rev (drop 1 (dropWhile (\<lambda>c. c \<notin> set path_separator) (rev path)))))"

definition fs_read :: "string \<Rightarrow> (io_kind, u8 list) os_op" where
  "fs_read path s =
     (case os_call s of
        (Fails n, s) \<Rightarrow> (Inl OtherKind, s)
      | (Works, s) \<Rightarrow> (ok_or NotFound (os_files s (file_key path)), s))"

definition fs_create_new :: "string \<Rightarrow> (io_kind, unit) os_op" where
  "fs_create_new path s =
     (case os_call s of
        (Fails n, s) \<Rightarrow> (Inl OtherKind, s)
      | (Works, s) \<Rightarrow>
          (case os_files s (file_key path) of
             Some bs \<Rightarrow> (Inl AlreadyExists, s)
           | None \<Rightarrow> (Inr (), s\<lparr>os_files := (os_files s)(file_key path \<mapsto> [])\<rparr>)))"

definition fs_write_all :: "string \<Rightarrow> u8 list \<Rightarrow> (io_kind, unit) os_op" where
  "fs_write_all path bytes s =
     (case os_call s of
        (Fails n, s) \<Rightarrow> (Inl OtherKind, s\<lparr>os_files := (os_files s)(file_key path \<mapsto> take n bytes)\<rparr>)
      | (Works, s) \<Rightarrow> (Inr (), s\<lparr>os_files := (os_files s)(file_key path \<mapsto> bytes)\<rparr>))"

definition fs_sync_all :: "(io_kind, unit) os_op" where
  "fs_sync_all s =
     (case os_call s of (Fails n, s) \<Rightarrow> (Inl OtherKind, s) | (Works, s) \<Rightarrow> (Inr (), s))"

definition fs_remove_file :: "string \<Rightarrow> (io_kind, unit) os_op" where
  "fs_remove_file path s =
     (case os_call s of
        (Fails n, s) \<Rightarrow> (Inl OtherKind, s)
      | (Works, s) \<Rightarrow>
          (case os_files s (file_key path) of
             None \<Rightarrow> (Inl NotFound, s)
           | Some bs \<Rightarrow> (Inr (), s\<lparr>os_files := (os_files s)(file_key path := None)\<rparr>)))"

definition fs_rename :: "string \<Rightarrow> string \<Rightarrow> (io_kind, unit) os_op" where
  "fs_rename source target s =
     (case os_call s of
        (Fails n, s) \<Rightarrow> (Inl OtherKind, s)
      | (Works, s) \<Rightarrow>
          (case os_files s (file_key source) of
             None \<Rightarrow> (Inl NotFound, s)
           | Some bs \<Rightarrow>
               (Inr (), s\<lparr>os_files :=
                  (os_files s)(file_key source := None, file_key target \<mapsto> bs)\<rparr>)))"

text \<open>\<open>file.write_all(bytes).and_then(|()| file.sync_all())\<close> on a file just created.\<close>

definition fs_write_synced :: "string \<Rightarrow> u8 list \<Rightarrow> (io_kind, unit) os_op" where
  "fs_write_synced path bytes = try_then (fs_write_all path bytes) (\<lambda>_. fs_sync_all)"

section \<open>What an operation may change\<close>

text \<open>
  \<open>changes P s t\<close>: from \<open>s\<close> to \<open>t\<close> time went on, the environment is the same, services and processes are
  untouched, and of the files only those whose key satisfies \<open>P\<close> may differ.
\<close>

definition changes :: "(string \<Rightarrow> bool) \<Rightarrow> os \<Rightarrow> os \<Rightarrow> bool" where
  "changes P s t \<longleftrightarrow>
     os_env t = os_env s \<and> os_services t = os_services s \<and> os_processes t = os_processes s
     \<and> os_now s \<le> os_now t \<and> (\<forall>k. \<not> P k \<longrightarrow> os_files t k = os_files s k)"

lemma changes_refl [simp, intro]: "changes P s s"
  by (simp add: changes_def)

lemma changes_trans [trans]: "changes P s t \<Longrightarrow> changes P t u \<Longrightarrow> changes P s u"
  by (auto simp: changes_def)

lemma changes_mono: "changes P s t \<Longrightarrow> (\<And>k. P k \<Longrightarrow> Q k) \<Longrightarrow> changes Q s t"
  by (auto simp: changes_def)

lemma changes_at: "changes ((=) k) s t \<Longrightarrow> Q k \<Longrightarrow> changes Q s t"
  by (auto simp: changes_def)

lemma changes_env: "changes P s t \<Longrightarrow> os_env t = os_env s"
  by (simp add: changes_def)

lemma changes_file: "changes P s t \<Longrightarrow> \<not> P k \<Longrightarrow> os_files t k = os_files s k"
  by (simp add: changes_def)

lemma os_call_changes: "os_call s = (f, t) \<Longrightarrow> changes P s t \<and> os_files t = os_files s"
  using os_call_fields [of s] by (auto simp: changes_def)

named_theorems fs_results \<open>what a file operation did, from its result\<close>

lemma fs_read_result [fs_results]:
  "fs_read path s = (r, t) \<Longrightarrow> changes P s t \<and> os_files t = os_files s
     \<and> (\<forall>bs. r = Inr bs \<longrightarrow> os_files s (file_key path) = Some bs)
     \<and> (r = Inl NotFound \<longrightarrow> os_files s (file_key path) = None)"
  by (cases "os_call s") (auto simp: fs_read_def result_simps dest: os_call_changes split: fault.splits)

lemma fs_create_new_result [fs_results]:
  "fs_create_new path s = (r, t) \<Longrightarrow> changes ((=) (file_key path)) s t
     \<and> (r = Inr () \<longrightarrow> os_files s (file_key path) = None \<and> os_files t = (os_files s)(file_key path \<mapsto> []))
     \<and> (\<forall>e. r = Inl e \<longrightarrow> os_files t = os_files s)
     \<and> (r = Inl AlreadyExists \<longrightarrow> os_files s (file_key path) \<noteq> None)"
  by (cases "os_call s")
    (auto simp: fs_create_new_def changes_def dest!: os_call_changes [where P = "\<lambda>_. False"]
      split: fault.splits option.splits)

lemma fs_write_synced_result [fs_results]:
  "fs_write_synced path bytes s = (r, t) \<Longrightarrow> changes ((=) (file_key path)) s t
     \<and> (r = Inr () \<longrightarrow> os_files t = (os_files s)(file_key path \<mapsto> bytes))
     \<and> (\<exists>n. os_files t = (os_files s)(file_key path \<mapsto> take n bytes))"
  by (cases "os_call s")
    (auto simp: fs_write_synced_def fs_write_all_def fs_sync_all_def try_then_def changes_def
      dest!: os_call_changes [where P = "\<lambda>_. False"] split: fault.splits prod.splits sum.splits
      intro: exI [of _ "length bytes"])

lemma fs_remove_result [fs_results]:
  "fs_remove_file path s = (r, t) \<Longrightarrow> changes ((=) (file_key path)) s t
     \<and> (r = Inr () \<longrightarrow> os_files s (file_key path) \<noteq> None)
     \<and> (r = Inr () \<or> r = Inl NotFound \<longrightarrow> os_files t = (os_files s)(file_key path := None))
     \<and> (\<forall>e. r = Inl e \<longrightarrow> os_files t = os_files s)
     \<and> (r = Inl NotFound \<longrightarrow> os_files s (file_key path) = None)"
  by (cases "os_call s")
    (auto simp: fs_remove_file_def changes_def dest!: os_call_changes [where P = "\<lambda>_. False"]
      split: fault.splits option.splits)

lemma fs_rename_result [fs_results]:
  "fs_rename source target s = (r, t) \<Longrightarrow>
     changes (\<lambda>k. k = file_key source \<or> k = file_key target) s t
     \<and> (r = Inr () \<longrightarrow> (\<exists>bs. os_files s (file_key source) = Some bs
          \<and> os_files t = (os_files s)(file_key source := None, file_key target \<mapsto> bs)))
     \<and> (\<forall>e. r = Inl e \<longrightarrow> os_files t = os_files s)"
  by (cases "os_call s")
    (auto simp: fs_rename_def changes_def dest!: os_call_changes [where P = "\<lambda>_. False"]
      split: fault.splits option.splits)

end
