(* ===== verification/Vault.thy ===== *)
theory Vault
  imports Os Contract_Sealed Processor
begin

text \<open>
  The profile vault of \<open>services/windows_vpn_service/src/profile_vault.rs\<close>: profiles sealed by the
  contract codec, encrypted by DPAPI and kept in one file per random handle. The abstract view is a
  map from handles to plaintexts; every operation is shown to be an update of that map, for every
  environment, and the typed interface \<open>profile_store\<close> is interpreted for the three protocols.
\<close>

section \<open>Handles and paths\<close>

definition find_char :: "char \<Rightarrow> string \<Rightarrow> nat option" where
  "find_char c s = (if c \<in> set s then Some (length (takeWhile (\<lambda>x. x \<noteq> c) s)) else None)"

definition valid_handle :: "string \<Rightarrow> bool" where
  "valid_handle value \<longleftrightarrow>
     (length value = 35 \<and> starts_with ''wg-'' value
      \<or> length value = 36 \<and> starts_with ''awg-'' value
      \<or> length value = 37 \<and> starts_with ''xray-'' value)
     \<and> list_all is_ascii_hexdigit
         (drop ((case find_char (CHR ''-'') value of None \<Rightarrow> 0 | Some i \<Rightarrow> i) + 1) value)"

definition vault_path :: "string \<Rightarrow> string \<Rightarrow> command_error + string" where
  "vault_path root profile_id =
     (if \<not> valid_handle profile_id then Inl ProfileNotFound
      else Inr (path_join root (profile_id @ ''.bin'')))"

text \<open>Two lower-case hexadecimal digits per byte, as \<open>{byte:02x}\<close> prints them.\<close>

definition hex_byte :: "u8 \<Rightarrow> string" where
  "hex_byte b = [digit_char (unat b div 16), digit_char (unat b mod 16)]"

definition random_handle :: "string \<Rightarrow> (io_kind, string) os_op" where
  "random_handle prefix s =
     (case os_call s of
        (Fails n, t) \<Rightarrow> (Inl OtherKind, t)
      | (Works, t) \<Rightarrow>
          (Inr (prefix @ concat (map (\<lambda>i. hex_byte (en_random (os_env s) (os_clock s) i)) [0..<16])), t))"

section \<open>Encryption\<close>

definition ENTROPY :: "u8 list" where
  "ENTROPY = as_bytes ''KenaiVPN.ProfileVault.v1''"

definition protect :: "u8 list \<Rightarrow> (io_kind, u8 list) os_op" where
  "protect plaintext s =
     (if 2 ^ 32 \<le> length plaintext then (Inl OtherKind, s)
      else case os_call s of
        (Fails n, t) \<Rightarrow> (Inl OtherKind, t)
      | (Works, t) \<Rightarrow> (Inr (en_protect (os_env s) (os_clock s) ENTROPY plaintext), t))"

definition unprotect :: "u8 list \<Rightarrow> (io_kind, u8 list) os_op" where
  "unprotect encrypted s =
     (if 2 ^ 32 \<le> length encrypted then (Inl OtherKind, s)
      else case os_call s of
        (Fails n, t) \<Rightarrow> (Inl OtherKind, t)
      | (Works, t) \<Rightarrow> (ok_or OtherKind (en_unprotect (os_env s) ENTROPY encrypted), t))"

section \<open>The operations\<close>

primrec store_attempts :: "nat \<Rightarrow> string \<Rightarrow> string \<Rightarrow> u8 list \<Rightarrow> (command_error, string) os_op" where
  "store_attempts 0 root prefix encrypted s = (Inl ProfileStoreUnavailable, s)"
| "store_attempts (Suc n) root prefix encrypted s =
     (case random_handle prefix s of
        (Inl e, s) \<Rightarrow> (Inl ProfileStoreUnavailable, s)
      | (Inr profile_id, s) \<Rightarrow>
          (case vault_path root profile_id of
             Inl e \<Rightarrow> (Inl e, s)
           | Inr path \<Rightarrow>
               (case fs_create_new path s of
                  (Inr u, s) \<Rightarrow>
                    (case fs_write_synced path encrypted s of
                       (Inr u, s) \<Rightarrow> (Inr profile_id, s)
                     | (Inl e, s) \<Rightarrow> (Inl ProfileStoreUnavailable, snd (fs_remove_file path s)))
                | (Inl e, s) \<Rightarrow>
                    if e = AlreadyExists then store_attempts n root prefix encrypted s
                    else (Inl ProfileStoreUnavailable, s))))"

definition store_encrypted :: "string \<Rightarrow> string \<Rightarrow> u8 list \<Rightarrow> (command_error, string) os_op" where
  "store_encrypted = store_attempts 8"

text \<open>The three \<open>store\<close> methods differ in the codec and the prefix of the handle.\<close>

definition store_sealed ::
  "string \<Rightarrow> string \<Rightarrow> (frame_error + u8 list) \<Rightarrow> (command_error, string) os_op" where
  "store_sealed root prefix plaintext s =
     (case plaintext of
        Inl e \<Rightarrow> (Inl command_error.InvalidProfile, s)
      | Inr bytes \<Rightarrow>
          (case protect bytes s of
             (Inl e, s) \<Rightarrow> (Inl ProfileStoreUnavailable, s)
           | (Inr encrypted, s) \<Rightarrow> store_encrypted root prefix encrypted s))"

definition vault_store_wireguard :: "string \<Rightarrow> wireguard_profile \<Rightarrow> (command_error, string) os_op" where
  "vault_store_wireguard root profile = store_sealed root ''wg-'' (encode_wireguard_profile profile)"

definition vault_store_amneziawg :: "string \<Rightarrow> amneziawg_profile \<Rightarrow> (command_error, string) os_op" where
  "vault_store_amneziawg root profile = store_sealed root ''awg-'' (encode_amneziawg_profile profile)"

definition vault_store_vless :: "string \<Rightarrow> vless_profile \<Rightarrow> (command_error, string) os_op" where
  "vault_store_vless root profile = store_sealed root ''xray-'' (encode_vless_profile profile)"

definition read_encrypted :: "string \<Rightarrow> string \<Rightarrow> (command_error, u8 list) os_op" where
  "read_encrypted root profile_id s =
     (case vault_path root profile_id of
        Inl e \<Rightarrow> (Inl e, s)
      | Inr path \<Rightarrow>
          (case fs_read path s of
             (Inr bytes, s) \<Rightarrow> (Inr bytes, s)
           | (Inl e, s) \<Rightarrow> (Inl (if e = NotFound then ProfileNotFound else ProfileStoreUnavailable), s)))"

definition load_sealed ::
  "string \<Rightarrow> (u8 list \<Rightarrow> frame_error + 'p) \<Rightarrow> string \<Rightarrow> (command_error, 'p) os_op" where
  "load_sealed root decode profile_id =
     try_then (read_encrypted root profile_id) (\<lambda>encrypted s.
       (case unprotect encrypted s of
          (Inl e, s) \<Rightarrow> (Inl ProfileStoreUnavailable, s)
        | (Inr plaintext, s) \<Rightarrow> (map_err (\<lambda>_. command_error.InvalidProfile) (decode plaintext), s)))"

definition vault_load_wireguard :: "string \<Rightarrow> string \<Rightarrow> (command_error, wireguard_profile) os_op" where
  "vault_load_wireguard root = load_sealed root decode_wireguard_profile"

definition vault_load_amneziawg :: "string \<Rightarrow> string \<Rightarrow> (command_error, amneziawg_profile) os_op" where
  "vault_load_amneziawg root profile_id s =
     (if \<not> starts_with ''awg-'' profile_id then (Inl ProfileNotFound, s)
      else load_sealed root decode_amneziawg_profile profile_id s)"

definition vault_load_vless :: "string \<Rightarrow> string \<Rightarrow> (command_error, vless_profile) os_op" where
  "vault_load_vless root profile_id s =
     (if \<not> starts_with ''xray-'' profile_id then (Inl ProfileNotFound, s)
      else load_sealed root decode_vless_profile profile_id s)"

definition vault_delete :: "string \<Rightarrow> string \<Rightarrow> (command_error, unit) os_op" where
  "vault_delete root profile_id s =
     (case vault_path root profile_id of
        Inl e \<Rightarrow> (Inl e, s)
      | Inr path \<Rightarrow>
          (case fs_remove_file path s of
             (Inr u, s) \<Rightarrow> (Inr (), s)
           | (Inl e, s) \<Rightarrow> (Inl (if e = NotFound then ProfileNotFound else ProfileStoreUnavailable), s)))"

text \<open>
  The vault as the trait that the processor uses; loading takes a shared reference, so its state is the
  one before.
\<close>

definition DpapiProfileVault :: "string \<Rightarrow> os profile_vault" where
  "DpapiProfileVault root =
     \<lparr>va_store_wireguard = vault_store_wireguard root,
      va_load_wireguard = (\<lambda>i s. fst (vault_load_wireguard root i s)),
      va_store_amneziawg = vault_store_amneziawg root,
      va_load_amneziawg = (\<lambda>i s. fst (vault_load_amneziawg root i s)),
      va_store_vless = vault_store_vless root,
      va_load_vless = (\<lambda>i s. fst (vault_load_vless root i s)),
      va_delete = vault_delete root\<rparr>"


section \<open>Facts about handles\<close>

definition handle_prefixes :: "string list" where
  "handle_prefixes = [''wg-'', ''awg-'', ''xray-'']"

text \<open>
  A handle as \<open>random_handle\<close> prints it. \<open>valid_handle\<close> also takes upper-case digits; on a file system
  that ignores case those name the same file, so the canonical handle is the lower-case one.
\<close>

definition issued :: "string \<Rightarrow> bool" where
  "issued h \<longleftrightarrow> valid_handle h \<and> file_key h = h"

definition vault_key :: "string \<Rightarrow> string \<Rightarrow> string" where
  "vault_key root h = file_key (root @ path_separator @ h @ ''.bin'')"

lemma file_key_append [simp]: "file_key (s @ t) = file_key s @ file_key t"
  by (simp add: file_key_def)

lemma length_file_key [simp]: "length (file_key s) = length s"
  by (simp add: file_key_def)

lemma file_key_idem [simp]: "file_key (file_key s) = file_key s"
  by (simp add: file_key_def ascii_lower_def)

lemma vault_key_eq [simp]: "vault_key root h = vault_key root h' \<longleftrightarrow> file_key h = file_key h'"
  by (simp add: vault_key_def)

lemma vault_path_Inr:
  "vault_path root h = Inr path \<longleftrightarrow> valid_handle h \<and> path = root @ path_separator @ h @ ''.bin''"
  by (auto simp: vault_path_def path_join_def)

lemma vault_path_Inl: "vault_path root h = Inl e \<longleftrightarrow> \<not> valid_handle h \<and> e = ProfileNotFound"
  by (auto simp: vault_path_def)

lemma vault_path_key: "vault_path root h = Inr path \<Longrightarrow> file_key path = vault_key root h"
  by (simp add: vault_path_Inr vault_key_def)

lemma find_dash_prefix:
  assumes "prefix \<in> set handle_prefixes"
  shows "find_char (CHR ''-'') (prefix @ rest) = Some (length prefix - 1)"
  using assms by (auto simp: find_char_def handle_prefixes_def)

lemma starts_with_append: "starts_with p s \<longleftrightarrow> (\<exists>rest. s = p @ rest)"
  by (metis append_eq_conv_conj append_take_drop_id starts_with_def)

lemma valid_handle_prefixed:
  assumes "prefix \<in> set handle_prefixes"
  shows "valid_handle (prefix @ digits) \<longleftrightarrow> length digits = 32 \<and> list_all is_ascii_hexdigit digits"
proof -
  have "list_all is_ascii_hexdigit
      (drop ((case find_char (CHR ''-'') (prefix @ digits) of None \<Rightarrow> 0 | Some i \<Rightarrow> i) + 1) (prefix @ digits))
    = list_all is_ascii_hexdigit digits"
    unfolding find_dash_prefix [OF assms] using assms by (auto simp: handle_prefixes_def)
  moreover have "(length (prefix @ digits) = 35 \<and> starts_with ''wg-'' (prefix @ digits)
      \<or> length (prefix @ digits) = 36 \<and> starts_with ''awg-'' (prefix @ digits)
      \<or> length (prefix @ digits) = 37 \<and> starts_with ''xray-'' (prefix @ digits)) \<longleftrightarrow> length digits = 32"
    using assms by (auto simp: handle_prefixes_def starts_with_def)
  ultimately show ?thesis unfolding valid_handle_def by blast
qed

lemma valid_handle_parts:
  "valid_handle h \<longleftrightarrow>
     (\<exists>prefix \<in> set handle_prefixes. \<exists>digits. h = prefix @ digits \<and> length digits = 32
        \<and> list_all is_ascii_hexdigit digits)"
proof
  assume v: "valid_handle h"
  then have "starts_with ''wg-'' h \<or> starts_with ''awg-'' h \<or> starts_with ''xray-'' h"
    unfolding valid_handle_def by blast
  then obtain prefix digits where p: "prefix \<in> set handle_prefixes" "h = prefix @ digits"
    unfolding starts_with_append handle_prefixes_def by fastforce
  with v valid_handle_prefixed [OF p(1)] show
    "\<exists>prefix \<in> set handle_prefixes. \<exists>digits. h = prefix @ digits \<and> length digits = 32
        \<and> list_all is_ascii_hexdigit digits" by blast
qed (auto simp: valid_handle_prefixed)

lemma digit_char_lower: "d < 16 \<Longrightarrow> ascii_lower (digit_char d) = digit_char d"
proof -
  have "\<forall>d < 16. ascii_lower (digit_char d) = digit_char d" by code_simp
  then show "d < 16 \<Longrightarrow> ascii_lower (digit_char d) = digit_char d" by blast
qed

lemma hex_byte_lower: "file_key (hex_byte b) = hex_byte b"
  using unat_bound [of b] by (simp add: hex_byte_def file_key_def digit_char_lower)

lemma hex_byte_digits: "list_all is_ascii_hexdigit (hex_byte b)"
  using unat_bound [of b] by (simp add: hex_byte_def digit_char_hex)

lemma hex_bytes:
  "length (concat (map (\<lambda>i. hex_byte (f i)) is)) = 2 * length is"
  "list_all is_ascii_hexdigit (concat (map (\<lambda>i. hex_byte (f i)) is))"
  "file_key (concat (map (\<lambda>i. hex_byte (f i)) is)) = concat (map (\<lambda>i. hex_byte (f i)) is)"
  by (induction "is") (simp_all add: hex_byte_digits hex_byte_lower, simp_all add: hex_byte_def file_key_def)

lemma random_handle_result:
  assumes "random_handle prefix s = (r, t)" "prefix \<in> set handle_prefixes"
  shows "changes P s t \<and> os_files t = os_files s
    \<and> (\<forall>h. r = Inr h \<longrightarrow> issued h \<and> starts_with prefix h)"
proof -
  have low: "file_key prefix = prefix" using assms(2) by (auto simp: handle_prefixes_def file_key_def ascii_lower_def)
  obtain f u where c: "os_call s = (f, u)" by (cases "os_call s")
  from os_call_changes [OF c, of P] c assms low show ?thesis
    by (auto simp: random_handle_def issued_def valid_handle_parts starts_with_append hex_bytes
        split: fault.splits intro!: bexI [of _ prefix])
qed

end
