(* ===== verification/Vault_Laws.thy ===== *)
theory Vault_Laws
  imports Vault
begin

text \<open>
  What the vault's operations do to its files, as a map from canonical handles to plaintexts. First
  each operation by its result, for every environment; then the vault as a system of calls that
  refines the map, and the interface of a typed profile store, interpreted for the three protocols.
\<close>

section \<open>The operations by their results\<close>

lemma protect_result:
  "protect bs s = (r, t) \<Longrightarrow> changes P s t \<and> os_files t = os_files s
     \<and> (\<forall>c. r = Inr c \<longrightarrow> c = en_protect (os_env s) (os_clock s) ENTROPY bs)"
  by (cases "os_call s") (auto simp: protect_def dest: os_call_changes [where P = P] split: if_splits fault.splits)

lemma unprotect_result:
  "unprotect c s = (r, t) \<Longrightarrow> changes P s t \<and> os_files t = os_files s
     \<and> (\<forall>bs. r = Inr bs \<longrightarrow> en_unprotect (os_env s) ENTROPY c = Some bs)"
  by (cases "os_call s")
    (auto simp: unprotect_def result_simps dest: os_call_changes [where P = P] split: if_splits fault.splits)

text \<open>
  The outcome of a \<open>store\<close>: a new file under a fresh canonical handle, or \<open>ProfileStoreUnavailable\<close>
  and at most one new file whose handle nobody was told.
\<close>

definition stored_as :: "string \<Rightarrow> string \<Rightarrow> u8 list \<Rightarrow> os \<Rightarrow> (command_error + string) \<Rightarrow> os \<Rightarrow> bool" where
  "stored_as root prefix c s r t \<longleftrightarrow>
     (case r of
        Inr h \<Rightarrow> issued h \<and> starts_with prefix h \<and> os_files s (vault_key root h) = None
          \<and> os_files t = (os_files s)(vault_key root h \<mapsto> c)
      | Inl e \<Rightarrow> e = ProfileStoreUnavailable
          \<and> (os_files t = os_files s
             \<or> (\<exists>h n. issued h \<and> os_files s (vault_key root h) = None
                  \<and> os_files t = (os_files s)(vault_key root h \<mapsto> take n c))))"

lemma stored_as_from:
  "stored_as root prefix c s r t \<Longrightarrow> os_files s = os_files s' \<Longrightarrow> stored_as root prefix c s' r t"
  by (cases r) (auto simp: stored_as_def)

definition of_vault :: "string \<Rightarrow> string \<Rightarrow> bool" where
  "of_vault root k \<longleftrightarrow> (\<exists>h. issued h \<and> k = vault_key root h)"

lemma store_file_result:
  assumes "fs_create_new path s = (Inr (), s1)" "fs_write_synced path c s1 = (w, s2)"
    "file_key path = vault_key root h" "issued h" "starts_with prefix h"
  shows "case w of
      Inr u \<Rightarrow> changes (of_vault root) s s2 \<and> stored_as root prefix c s (Inr h) s2
    | Inl e \<Rightarrow> changes (of_vault root) s (snd (fs_remove_file path s2))
        \<and> stored_as root prefix c s (Inl ProfileStoreUnavailable) (snd (fs_remove_file path s2))"
proof -
  obtain d s3 where rm: "fs_remove_file path s2 = (d, s3)" by (cases "fs_remove_file path s2")
  note one = fs_create_new_result [OF assms(1)] and two = fs_write_synced_result [OF assms(2)]
    and three = fs_remove_result [OF rm]
  have P: "of_vault root (file_key path)"
    using assms(3,4) by (auto simp: of_vault_def)
  from one two have ch: "changes (of_vault root) s s2"
    by (blast intro: changes_trans changes_at [where Q = "of_vault root", OF _ P])
  with three have ch3: "changes (of_vault root) s s3"
    by (blast intro: changes_trans changes_at [where Q = "of_vault root", OF _ P])
  show ?thesis
  proof (cases w)
    case (Inl e)
    from one two obtain n where n: "os_files s2 = (os_files s)(file_key path \<mapsto> take n c)"
      "os_files s (file_key path) = None" by auto
    with three have "os_files s3 = os_files s \<or> os_files s3 = (os_files s)(file_key path \<mapsto> take n c)"
      by (cases d) (auto simp: fun_upd_idem)
    with n Inl rm ch3 assms(3,4) show ?thesis by (auto simp: stored_as_def)
  qed (use one two ch assms(3-5) in \<open>auto simp: stored_as_def\<close>)
qed

lemma store_attempts_result:
  assumes "store_attempts n root prefix c s = (r, t)" "prefix \<in> set handle_prefixes"
  shows "changes (of_vault root) s t \<and> stored_as root prefix c s r t"
  using assms(1)
proof (induction n arbitrary: s)
  case 0
  then show ?case by (auto simp: stored_as_def)
next
  case (Suc n)
  obtain g s1 where g: "random_handle prefix s = (g, s1)" by (cases "random_handle prefix s")
  note rh = random_handle_result [OF g assms(2), of "of_vault root"]
  show ?case
  proof (cases g)
    case (Inl e)
    with Suc.prems g rh show ?thesis by (auto simp: stored_as_def)
  next
    case (Inr h)
    with rh have h: "issued h" "starts_with prefix h" by auto
    then obtain path where path: "vault_path root h = Inr path" "file_key path = vault_key root h"
      using vault_path_key by (auto simp: vault_path_def path_join_def issued_def vault_key_def)
    obtain f s2 where f: "fs_create_new path s1 = (f, s2)" by (cases "fs_create_new path s1")
    note created = fs_create_new_result [OF f]
    have P: "of_vault root (file_key path)" using path(2) h by (auto simp: of_vault_def)
    from rh created have ch: "changes (of_vault root) s s2"
      by (blast intro: changes_trans changes_at [where Q = "of_vault root", OF _ P])
    show ?thesis
    proof (cases f)
      case (Inl e)
      show ?thesis
      proof (cases "e = AlreadyExists")
        case True
        with Suc.prems g \<open>g = Inr h\<close> path(1) f Inl have "store_attempts n root prefix c s2 = (r, t)" by simp
        from Suc.IH [OF this] ch rh created Inl show ?thesis by (auto intro: changes_trans stored_as_from)
      qed (use Suc.prems g \<open>g = Inr h\<close> path(1) f Inl ch rh created in \<open>auto simp: stored_as_def\<close>)
    next
      case (Inr u)
      obtain w s3 where w: "fs_write_synced path c s2 = (w, s3)" by (cases "fs_write_synced path c s2")
      have files: "os_files s1 = os_files s" and "changes (of_vault root) s s1" using rh by auto
      moreover have "fs_create_new path s1 = (Inr (), s2)" using f Inr by simp
      ultimately show ?thesis
        using store_file_result [OF _ w path(2) h, of s1] Suc.prems g \<open>g = Inr h\<close> path(1) f Inr w h
        by (cases w) (auto intro: changes_trans stored_as_from)
    qed
  qed
qed

lemma store_sealed_result:
  assumes "store_sealed root prefix plaintext s = (r, t)" "prefix \<in> set handle_prefixes"
  shows "changes (of_vault root) s t
    \<and> (case plaintext of
         Inl e \<Rightarrow> r = Inl command_error.InvalidProfile \<and> t = s
       | Inr bs \<Rightarrow> stored_as root prefix (en_protect (os_env s) (os_clock s) ENTROPY bs) s r t)"
proof (cases plaintext)
  case (Inr bs)
  obtain q s1 where q: "protect bs s = (q, s1)" by (cases "protect bs s")
  note pr = protect_result [OF q, of "of_vault root"]
  show ?thesis
  proof (cases q)
    case (Inr c)
    with assms(1) \<open>plaintext = Inr bs\<close> q have "store_attempts 8 root prefix c s1 = (r, t)"
      by (simp add: store_sealed_def store_encrypted_def)
    from store_attempts_result [OF this assms(2)] pr Inr \<open>plaintext = Inr bs\<close> show ?thesis
      by (auto intro: changes_trans stored_as_from)
  qed (use assms(1) \<open>plaintext = Inr bs\<close> q pr in \<open>auto simp: store_sealed_def stored_as_def\<close>)
qed (use assms(1) in \<open>auto simp: store_sealed_def\<close>)

lemma read_encrypted_result:
  assumes "read_encrypted root h s = (r, t)"
  shows "changes P s t \<and> os_files t = os_files s
    \<and> (\<forall>c. r = Inr c \<longrightarrow> valid_handle h \<and> os_files s (vault_key root h) = Some c)
    \<and> (r = Inl ProfileNotFound \<longrightarrow> \<not> valid_handle h \<or> os_files s (vault_key root h) = None)
    \<and> (\<forall>e. r = Inl e \<longrightarrow> e = ProfileNotFound \<or> e = ProfileStoreUnavailable)"
proof (cases "vault_path root h")
  case (Inr path)
  obtain f u where f: "fs_read path s = (f, u)" by (cases "fs_read path s")
  have "valid_handle h" using Inr by (simp add: vault_path_Inr)
  with fs_read_result [OF f, of P] f Inr assms vault_path_key [OF Inr] show ?thesis
    by (cases f) (auto simp: read_encrypted_def split: if_splits)
qed (use assms in \<open>auto simp: read_encrypted_def vault_path_def split: if_splits\<close>)

lemma load_sealed_result:
  assumes "load_sealed root decode h s = (r, t)"
  shows "changes P s t \<and> os_files t = os_files s
    \<and> (\<forall>p. r = Inr p \<longrightarrow> valid_handle h \<and> (\<exists>c bs. os_files s (vault_key root h) = Some c
         \<and> en_unprotect (os_env s) ENTROPY c = Some bs \<and> decode bs = Inr p))
    \<and> (r = Inl ProfileNotFound \<longrightarrow> \<not> valid_handle h \<or> os_files s (vault_key root h) = None)
    \<and> (r = Inl command_error.InvalidProfile \<longrightarrow> valid_handle h \<and> (\<exists>c bs e. os_files s (vault_key root h) = Some c
         \<and> en_unprotect (os_env s) ENTROPY c = Some bs \<and> decode bs = Inl e))
    \<and> (\<forall>e. r = Inl e \<longrightarrow> e \<in> {ProfileNotFound, command_error.InvalidProfile, ProfileStoreUnavailable})"
proof -
  obtain f u where f: "read_encrypted root h s = (f, u)" by (cases "read_encrypted root h s")
  note rd = read_encrypted_result [OF f, of P]
  show ?thesis
  proof (cases f)
    case (Inl e)
    with assms f rd show ?thesis by (auto simp: load_sealed_def try_then_def)
  next
    case (Inr c)
    obtain q v where q: "unprotect c u = (q, v)" by (cases "unprotect c u")
    note un = unprotect_result [OF q, of P]
    have env: "os_env u = os_env s" using rd changes_env by blast
    from Inr f q assms rd un env show ?thesis
      by (cases q) (auto simp: load_sealed_def try_then_def result_simps intro: changes_trans)
  qed
qed

lemma vault_delete_result:
  assumes "vault_delete root h s = (r, t)"
  shows "changes ((=) (vault_key root h)) s t
    \<and> (r = Inr () \<longrightarrow> valid_handle h \<and> os_files s (vault_key root h) \<noteq> None
         \<and> os_files t = (os_files s)(vault_key root h := None))
    \<and> (\<forall>e. r = Inl e \<longrightarrow> os_files t = os_files s \<and> (e = ProfileNotFound \<or> e = ProfileStoreUnavailable))
    \<and> (r = Inl ProfileNotFound \<longrightarrow> \<not> valid_handle h \<or> os_files s (vault_key root h) = None)"
proof (cases "vault_path root h")
  case (Inr path)
  obtain f u where f: "fs_remove_file path s = (f, u)" by (cases "fs_remove_file path s")
  have "valid_handle h" using Inr by (simp add: vault_path_Inr)
  with fs_remove_result [OF f] f Inr assms vault_path_key [OF Inr] show ?thesis
    by (cases f) (auto simp: vault_delete_def split: if_splits)
qed (use assms in \<open>auto simp: vault_delete_def vault_path_def split: if_splits\<close>)

section \<open>The vault as a system of calls\<close>

datatype any_profile =
    AnyWireGuard wireguard_profile
  | AnyAmneziaWg amneziawg_profile
  | AnyVless vless_profile

datatype vault_call = StoreProfile any_profile | LoadProfile protocol string | DeleteStored string

datatype vault_answer = Handle string | Loaded any_profile | Deleted

definition with_answer :: "('a \<Rightarrow> 'b) \<Rightarrow> ('e, 'a) os_op \<Rightarrow> ('e, 'b) os_op" where
  "with_answer f operation s = (case operation s of (r, t) \<Rightarrow> (map_sum id f r, t))"

primrec store_profile :: "string \<Rightarrow> any_profile \<Rightarrow> (command_error, string) os_op" where
  "store_profile root (AnyWireGuard p) = vault_store_wireguard root p"
| "store_profile root (AnyAmneziaWg p) = vault_store_amneziawg root p"
| "store_profile root (AnyVless p) = vault_store_vless root p"

primrec load_profile :: "string \<Rightarrow> protocol \<Rightarrow> string \<Rightarrow> (command_error, any_profile) os_op" where
  "load_profile root WireGuard h = with_answer AnyWireGuard (vault_load_wireguard root h)"
| "load_profile root AmneziaWg h = with_answer AnyAmneziaWg (vault_load_amneziawg root h)"
| "load_profile root VlessReality h = with_answer AnyVless (vault_load_vless root h)"

primrec vault_step :: "string \<Rightarrow> vault_call \<Rightarrow> (command_error, vault_answer) os_op" where
  "vault_step root (StoreProfile x) = with_answer Handle (store_profile root x)"
| "vault_step root (LoadProfile y h) = with_answer Loaded (load_profile root y h)"
| "vault_step root (DeleteStored h) = with_answer (\<lambda>_. Deleted) (vault_delete root h)"

primrec protocol_of :: "any_profile \<Rightarrow> protocol" where
  "protocol_of (AnyWireGuard p) = WireGuard"
| "protocol_of (AnyAmneziaWg p) = AmneziaWg"
| "protocol_of (AnyVless p) = VlessReality"

primrec seal :: "any_profile \<Rightarrow> frame_error + u8 list" where
  "seal (AnyWireGuard p) = encode_wireguard_profile p"
| "seal (AnyAmneziaWg p) = encode_amneziawg_profile p"
| "seal (AnyVless p) = encode_vless_profile p"

primrec unseal :: "protocol \<Rightarrow> u8 list \<Rightarrow> frame_error + any_profile" where
  "unseal WireGuard bs = map_sum id AnyWireGuard (decode_wireguard_profile bs)"
| "unseal AmneziaWg bs = map_sum id AnyAmneziaWg (decode_amneziawg_profile bs)"
| "unseal VlessReality bs = map_sum id AnyVless (decode_vless_profile bs)"

primrec wt_any :: "any_profile \<Rightarrow> bool" where
  "wt_any (AnyWireGuard p) = wt_wireguard p"
| "wt_any (AnyAmneziaWg p) = wt_amneziawg p"
| "wt_any (AnyVless p) = wt_vless p"

primrec prefix_of :: "protocol \<Rightarrow> string" where
  "prefix_of WireGuard = ''wg-''"
| "prefix_of AmneziaWg = ''awg-''"
| "prefix_of VlessReality = ''xray-''"

text \<open>Only the two newer protocols look at the prefix of a handle before they open it.\<close>

primrec admits :: "protocol \<Rightarrow> string \<Rightarrow> bool" where
  "admits WireGuard h = True"
| "admits AmneziaWg h = starts_with ''awg-'' h"
| "admits VlessReality h = starts_with ''xray-'' h"

lemma prefix_of_handle [simp]: "prefix_of y \<in> set handle_prefixes"
  by (cases y) (simp_all add: handle_prefixes_def)

lemma admits_own: "starts_with (prefix_of y) h \<Longrightarrow> admits y h"
  by (cases y) simp_all

lemma store_profile_eq: "store_profile root x = store_sealed root (prefix_of (protocol_of x)) (seal x)"
  by (cases x) (simp_all add: vault_store_wireguard_def vault_store_amneziawg_def vault_store_vless_def)

lemma map_err_map_sum [simp]: "map_err g (map_sum id f m) = map_sum id f (map_err g m)"
  by (cases m) simp_all

lemma load_sealed_map:
  "load_sealed root (\<lambda>bs. map_sum id f (decode bs)) h = with_answer f (load_sealed root decode h)"
  by (rule ext) (simp add: load_sealed_def with_answer_def try_then_def split: sum.split prod.split)

lemma load_profile_eq:
  "load_profile root y h s =
     (if admits y h then load_sealed root (unseal y) h s else (Inl ProfileNotFound, s))"
  by (cases y)
    (simp_all add: load_sealed_map unseal.simps [abs_def],
      simp_all add: with_answer_def vault_load_wireguard_def vault_load_amneziawg_def vault_load_vless_def)

lemma seal_length: "seal x = Inr bs \<Longrightarrow> length bs < 2 ^ 32"
  by (cases x) (auto simp: sealed_defs seal_profile_def result_simps MAX_FRAME_SIZE_def split: if_splits)

lemma unseal_seal: "seal x = Inr bs \<Longrightarrow> wt_any x \<Longrightarrow> unseal (protocol_of x) bs = Inr x"
  by (cases x) (simp_all add: sealed_roundtrips)

section \<open>The abstract vault\<close>

text \<open>What the service relies on from DPAPI: unprotecting inverts protecting, and sizes fit 32 bits.\<close>

definition dpapi_ok :: "environment \<Rightarrow> bool" where
  "dpapi_ok env \<longleftrightarrow>
     (\<forall>tick bs. length bs < 2 ^ 32 \<longrightarrow>
        en_unprotect env ENTROPY (en_protect env tick ENTROPY bs) = Some bs
        \<and> length (en_protect env tick ENTROPY bs) < 2 ^ 32)"

type_synonym vault_map = "string \<Rightarrow> u8 list option"

definition vault_view :: "string \<Rightarrow> os \<Rightarrow> vault_map" where
  "vault_view root s h =
     (if issued h then Option.bind (os_files s (vault_key root h)) (en_unprotect (os_env s) ENTROPY)
      else None)"

text \<open>
  The specification: a map from canonical handles to plaintexts. A store adds a sealed profile under
  a fresh handle, a load reads, a delete removes; what fails leaves the map alone, except that a store
  that fails while writing may leave an entry that nobody knows.
\<close>

inductive vault_spec :: "vault_call \<Rightarrow> vault_map \<Rightarrow> command_error + vault_answer \<Rightarrow> vault_map \<Rightarrow> bool" where
  stored: "seal x = Inr bs \<Longrightarrow> issued h \<Longrightarrow> starts_with (prefix_of (protocol_of x)) h \<Longrightarrow> m h = None \<Longrightarrow>
    vault_spec (StoreProfile x) m (Inr (Handle h)) (m(h \<mapsto> bs))"
| unsealable: "seal x = Inl e \<Longrightarrow> vault_spec (StoreProfile x) m (Inl command_error.InvalidProfile) m"
| not_stored: "seal x = Inr bs \<Longrightarrow> vault_spec (StoreProfile x) m (Inl ProfileStoreUnavailable) m"
| abandoned: "seal x = Inr bs \<Longrightarrow> issued h \<Longrightarrow> m h = None \<Longrightarrow>
    vault_spec (StoreProfile x) m (Inl ProfileStoreUnavailable) (m(h := junk))"
| loaded: "admits y h \<Longrightarrow> valid_handle h \<Longrightarrow> m (file_key h) = Some bs \<Longrightarrow> unseal y bs = Inr x \<Longrightarrow>
    vault_spec (LoadProfile y h) m (Inr (Loaded x)) m"
| corrupt: "admits y h \<Longrightarrow> valid_handle h \<Longrightarrow> m (file_key h) = Some bs \<Longrightarrow> unseal y bs = Inl e \<Longrightarrow>
    vault_spec (LoadProfile y h) m (Inl command_error.InvalidProfile) m"
| unknown: "\<not> admits y h \<or> \<not> valid_handle h \<or> m (file_key h) = None \<Longrightarrow>
    vault_spec (LoadProfile y h) m (Inl ProfileNotFound) m"
| not_loaded: "admits y h \<Longrightarrow> vault_spec (LoadProfile y h) m (Inl ProfileStoreUnavailable) m"
| deleted: "valid_handle h \<Longrightarrow> vault_spec (DeleteStored h) m (Inr Deleted) (m(file_key h := None))"
| nothing_deleted: "\<not> valid_handle h \<or> m (file_key h) = None \<Longrightarrow>
    vault_spec (DeleteStored h) m (Inl ProfileNotFound) m"
| not_deleted: "vault_spec (DeleteStored h) m (Inl ProfileStoreUnavailable) m"

lemma lower_hexdigit: "is_ascii_hexdigit c \<Longrightarrow> is_ascii_hexdigit (ascii_lower c)"
  by (auto simp: is_ascii_hexdigit_def is_ascii_digit_def ascii_lower_def)

lemma issued_file_key: "valid_handle h \<Longrightarrow> issued (file_key h)"
proof -
  assume "valid_handle h"
  then obtain prefix digits where p: "prefix \<in> set handle_prefixes" "h = prefix @ digits"
    "length digits = 32" "list_all is_ascii_hexdigit digits" by (auto simp: valid_handle_parts)
  then have "file_key prefix = prefix" by (auto simp: handle_prefixes_def file_key_def ascii_lower_def)
  moreover have "list_all is_ascii_hexdigit (file_key digits)"
    using p(4) by (auto simp: file_key_def list_all_iff intro: lower_hexdigit)
  ultimately show ?thesis using p valid_handle_prefixed [OF p(1), of "file_key digits"]
    by (simp add: issued_def)
qed

lemma vault_key_lower [simp]: "vault_key root (file_key h) = vault_key root h"
  by simp

lemma vault_view_lower [simp]:
  "valid_handle h \<Longrightarrow>
   vault_view root s (file_key h)
     = Option.bind (os_files s (vault_key root h)) (en_unprotect (os_env s) ENTROPY)"
  by (simp add: vault_view_def issued_file_key)

lemma vault_view_upd:
  assumes "os_env t = os_env s" "os_files t = (os_files s)(vault_key root h := x)" "issued h"
  shows "vault_view root t = (vault_view root s)(h := Option.bind x (en_unprotect (os_env s) ENTROPY))"
proof
  fix k
  show "vault_view root t k = ((vault_view root s)(h := Option.bind x (en_unprotect (os_env s) ENTROPY))) k"
    using assms by (cases "k = h") (auto simp: vault_view_def issued_def)
qed

lemma vault_view_same:
  "os_env t = os_env s \<Longrightarrow> os_files t = os_files s \<Longrightarrow> vault_view root t = vault_view root s"
  by (simp add: vault_view_def fun_eq_iff)

lemma store_refines:
  assumes "store_profile root x s = (r, t)" "dpapi_ok (os_env s)"
  shows "vault_spec (StoreProfile x) (vault_view root s) (map_sum id Handle r) (vault_view root t)"
proof -
  note st = store_sealed_result [OF assms(1) [unfolded store_profile_eq] prefix_of_handle]
  then have env: "os_env t = os_env s" using changes_env by blast
  show ?thesis
  proof (cases "seal x")
    case (Inl e)
    with st show ?thesis by (auto intro: unsealable)
  next
    case (Inr bs)
    let ?c = "en_protect (os_env s) (os_clock s) ENTROPY bs"
    have c: "en_unprotect (os_env s) ENTROPY ?c = Some bs"
      using assms(2) seal_length [OF Inr] by (simp add: dpapi_ok_def)
    from st Inr have sa: "stored_as root (prefix_of (protocol_of x)) ?c s r t" by simp
    have fresh: "os_files s (vault_key root h) = None \<Longrightarrow> vault_view root s h = None" for h
      by (simp add: vault_view_def)
    show ?thesis
    proof (cases r)
      case (Inr h)
      with sa have h: "issued h" "starts_with (prefix_of (protocol_of x)) h"
        "os_files s (vault_key root h) = None" "os_files t = (os_files s)(vault_key root h := Some ?c)"
        by (auto simp: stored_as_def)
      from vault_view_upd [OF env h(4,1)] c Inr h fresh [OF h(3)] \<open>seal x = Inr bs\<close> show ?thesis
        by (simp add: vault_spec.stored)
    next
      case (Inl e)
      with sa consider "e = ProfileStoreUnavailable" "os_files t = os_files s"
        | h n where "e = ProfileStoreUnavailable" "issued h" "os_files s (vault_key root h) = None"
          "os_files t = (os_files s)(vault_key root h := Some (take n ?c))"
        by (auto simp: stored_as_def)
      then show ?thesis
      proof cases
        case 1
        with Inl \<open>seal x = Inr bs\<close> vault_view_same [OF env] show ?thesis by (simp add: vault_spec.not_stored)
      next
        case 2
        with vault_view_upd [OF env 2(4,2)] fresh [OF 2(3)] Inl \<open>seal x = Inr bs\<close> show ?thesis
          by (simp add: vault_spec.abandoned)
      qed
    qed
  qed
qed

lemma load_refines:
  assumes "load_profile root y h s = (r, t)"
  shows "vault_spec (LoadProfile y h) (vault_view root s) (map_sum id Loaded r) (vault_view root t)"
proof (cases "admits y h")
  case True
  note ld = load_sealed_result [OF assms [unfolded load_profile_eq if_P [OF True]], of "\<lambda>_. False"]
  then have "vault_view root t = vault_view root s"
    by (intro vault_view_same) (blast intro: changes_env)+
  moreover have "vault_spec (LoadProfile y h) (vault_view root s) (map_sum id Loaded r) (vault_view root s)"
    using ld True by (cases r) (auto intro: vault_spec.intros)
  ultimately show ?thesis by simp
qed (use assms in \<open>auto simp: load_profile_eq intro: vault_spec.unknown\<close>)

lemma delete_refines:
  assumes "vault_delete root h s = (r, t)"
  shows "vault_spec (DeleteStored h) (vault_view root s) (map_sum id (\<lambda>_. Deleted) r) (vault_view root t)"
proof -
  note de = vault_delete_result [OF assms]
  then have env: "os_env t = os_env s" using changes_env by blast
  show ?thesis
  proof (cases r)
    case (Inr u)
    with de have d: "valid_handle h" "os_files t = (os_files s)(vault_key root (file_key h) := None)" by auto
    from vault_view_upd [OF env d(2) issued_file_key [OF d(1)]] Inr d(1) show ?thesis
      by (simp add: vault_spec.deleted)
  next
    case (Inl e)
    with de have "vault_view root t = vault_view root s" by (intro vault_view_same env) simp
    with de Inl show ?thesis
      by (cases "valid_handle h") (auto intro: vault_spec.nothing_deleted vault_spec.not_deleted)
  qed
qed

section \<open>What a sequence of calls keeps\<close>

text \<open>
  A stored file is held by every call that does not delete its handle: stores never write to an
  existing file, loads write nothing.
\<close>

definition holds_file :: "environment \<Rightarrow> string \<Rightarrow> u8 list \<Rightarrow> os \<Rightarrow> bool" where
  "holds_file env k c s \<longleftrightarrow> os_env s = env \<and> os_files s k = Some c"

primrec spares :: "string \<Rightarrow> vault_call \<Rightarrow> bool" where
  "spares h (StoreProfile x) = True"
| "spares h (LoadProfile y h') = True"
| "spares h (DeleteStored h') = (file_key h' \<noteq> file_key h)"

lemma stored_as_holds: "stored_as root prefix c s r t \<Longrightarrow> os_files s k = Some d \<Longrightarrow> os_files t k = Some d"
  by (auto simp: stored_as_def split: sum.splits)

lemma with_answer_state [simp]: "snd (with_answer f operation s) = snd (operation s)"
  by (simp add: with_answer_def split: prod.split)

lemma with_answer_result [simp]: "fst (with_answer f operation s) = map_sum id f (fst (operation s))"
  by (simp add: with_answer_def split: prod.split)

lemma store_holds: "holds_file env k c s \<Longrightarrow> holds_file env k c (snd (store_profile root x s))"
proof -
  assume held: "holds_file env k c s"
  obtain r t where rt: "store_profile root x s = (r, t)" by (cases "store_profile root x s")
  note st = store_sealed_result [OF rt [unfolded store_profile_eq] prefix_of_handle]
  from st changes_env have "os_env t = os_env s" by blast
  moreover from st held have "os_files t k = Some c"
    by (cases "seal x") (auto simp: holds_file_def dest: stored_as_holds)
  ultimately show ?thesis using rt held by (simp add: holds_file_def)
qed

lemma load_holds: "holds_file env k c s \<Longrightarrow> holds_file env k c (snd (load_profile root y h s))"
proof (cases "admits y h")
  assume held: "holds_file env k c s" and adm: "admits y h"
  obtain r t where rt: "load_sealed root (unseal y) h s = (r, t)" by (cases "load_sealed root (unseal y) h s")
  with load_sealed_result [OF rt, of "\<lambda>_. False"] held adm show ?thesis
    by (auto simp: holds_file_def load_profile_eq dest: changes_env)
qed (simp add: load_profile_eq)

lemma delete_holds:
  assumes "holds_file env (vault_key root h) c s" "file_key h' \<noteq> file_key h"
  shows "holds_file env (vault_key root h) c (snd (vault_delete root h' s))"
proof -
  obtain r t where rt: "vault_delete root h' s = (r, t)" by (cases "vault_delete root h' s")
  from vault_delete_result [OF rt] assms have "changes ((=) (vault_key root h')) s t" by blast
  with rt assms show ?thesis by (auto simp: holds_file_def changes_def)
qed

interpretation stored_file: stable_system "vault_step root" "spares h" "holds_file env (vault_key root h) c"
  for root h env c
proof
  show "spares h call \<Longrightarrow> holds_file env (vault_key root h) c s
      \<Longrightarrow> holds_file env (vault_key root h) c (snd (vault_step root call s))" for call s
    by (cases call) (auto intro: store_holds load_holds delete_holds)
qed

text \<open>Files outside the vault are never touched, whatever is asked of it.\<close>

lemma vault_step_changes: "changes (of_vault root) s (snd (vault_step root call s))"
proof (cases call)
  case (StoreProfile x)
  obtain r t where rt: "store_profile root x s = (r, t)" by (cases "store_profile root x s")
  from store_sealed_result [OF rt [unfolded store_profile_eq] prefix_of_handle] StoreProfile rt
  show ?thesis by simp
next
  case (LoadProfile y h)
  obtain r t where rt: "load_sealed root (unseal y) h s = (r, t)" by (cases "load_sealed root (unseal y) h s")
  from load_sealed_result [OF rt, of "of_vault root"] LoadProfile rt show ?thesis
    by (simp add: load_profile_eq)
next
  case (DeleteStored h)
  obtain r t where rt: "vault_delete root h s = (r, t)" by (cases "vault_delete root h s")
  note de = vault_delete_result [OF rt]
  show ?thesis
  proof (cases "valid_handle h")
    case True
    then have "of_vault root (vault_key root h)"
      unfolding of_vault_def by (intro exI [of _ "file_key h"]) (simp add: issued_file_key)
    with de DeleteStored rt show ?thesis by (auto intro: changes_at)
  next
    case False
    with rt have "t = s" by (auto simp: vault_delete_def vault_path_def)
    with DeleteStored rt show ?thesis by simp
  qed
qed

interpretation confined: stable_system "vault_step root" "\<lambda>_. True" "changes (of_vault root) s" for root s
  by unfold_locales (rule changes_trans [OF _ vault_step_changes])

lemma vault_run_changes: "changes (of_vault root) s (snd (run_all (vault_step root) calls s))"
  by (rule confined.run_stable) (simp_all add: list_all_iff)

section \<open>Stored profiles come back\<close>

text \<open>The next \<open>n\<close> calls into the system succeed.\<close>

definition works_for :: "nat \<Rightarrow> os \<Rightarrow> bool" where
  "works_for n s \<longleftrightarrow> (\<forall>i < n. en_fault (os_env s) (os_clock s + i) = Works)"

lemma works_for_call:
  "works_for (Suc n) s \<Longrightarrow> fst (os_call s) = Works \<and> works_for n (snd (os_call s))"
  by (auto simp: works_for_def os_call_def dest: spec [of _ 0] spec [of _ "Suc i" for i])

lemma load_held:
  assumes "holds_file env (vault_key root h) c s" "valid_handle h" "length c < 2 ^ 32"
    "en_unprotect env ENTROPY c = Some bs" "works_for 2 s"
  shows "fst (load_sealed root decode h s) = map_err (\<lambda>_. command_error.InvalidProfile) (decode bs)"
proof -
  obtain s1 where one: "os_call s = (Works, s1)" "works_for 1 s1"
    using works_for_call [of 1 s] assms(5) by (cases "os_call s") (auto simp: numeral_2_eq_2)
  obtain s2 where two: "os_call s1 = (Works, s2)"
    using works_for_call [of 0 s1] one(2) by (cases "os_call s1") auto
  have path: "vault_path root h = Inr (root @ path_separator @ h @ ''.bin'')"
    using assms(2) by (simp add: vault_path_def path_join_def)
  have "read_encrypted root h s = (Inr c, s1)"
    using one assms(1) os_call_fields(1) [of s] vault_path_key [OF path]
    by (simp add: read_encrypted_def path fs_read_def holds_file_def)
  moreover have "unprotect c s1 = (Inr bs, s2)"
    using two assms(1,3,4) one(1) os_call_fields(4) [of s]
    by (simp add: unprotect_def holds_file_def)
  ultimately show ?thesis by (simp add: load_sealed_def try_then_def)
qed

lemma stored_holds:
  assumes "store_profile root x s = (Inr h, t)" "dpapi_ok (os_env s)"
  obtains c bs where "holds_file (os_env s) (vault_key root h) c t" "issued h" "length c < 2 ^ 32"
    "starts_with (prefix_of (protocol_of x)) h" "seal x = Inr bs" "en_unprotect (os_env s) ENTROPY c = Some bs"
proof -
  note st = store_sealed_result [OF assms(1) [unfolded store_profile_eq] prefix_of_handle]
  from st obtain bs where bs: "seal x = Inr bs" by (cases "seal x") auto
  have env: "os_env t = os_env s" using st changes_env by blast
  show thesis
    by (rule that [of "en_protect (os_env s) (os_clock s) ENTROPY bs" bs])
      (use st bs env assms(2) seal_length [OF bs] in \<open>auto simp: stored_as_def holds_file_def dpapi_ok_def\<close>)
qed

lemma load_stored:
  assumes "holds_file env (vault_key root h) c u" "issued h" "length c < 2 ^ 32"
    "starts_with (prefix_of (protocol_of x)) h" "seal x = Inr bs" "en_unprotect env ENTROPY c = Some bs"
    "wt_any x" "works_for 2 u"
  shows "fst (load_profile root (protocol_of x) h u) = Inr x"
  using load_held [of env root h c u bs "unseal (protocol_of x)"] unseal_seal [OF assms(5,7)]
    admits_own [OF assms(4)] assms(1-3,6,8)
  by (simp add: load_profile_eq issued_def)

primrec tag_of :: "protocol \<Rightarrow> string" where
  "tag_of WireGuard = ''KWP1''"
| "tag_of AmneziaWg = ''KAP1''"
| "tag_of VlessReality = ''KXP1''"

lemma tag_of_inject [simp]: "tag_of y = tag_of z \<longleftrightarrow> y = z"
  by (cases y; cases z) simp_all

lemma unseal_tag: "unseal y bs = Inr x \<Longrightarrow> take 4 bs = as_bytes (tag_of y)"
  using wireguard_form.open_sound [of bs] amneziawg_form.open_sound [of bs] vless_form.open_sound [of bs]
  by (cases y; cases "decode_wireguard_profile bs"; cases "decode_amneziawg_profile bs";
      cases "decode_vless_profile bs") (auto simp: sealed_defs)

lemma unseal_foreign:
  assumes "seal x = Inr bs" "wt_any x" "y \<noteq> protocol_of x"
  obtains e where "unseal y bs = Inl e"
  using unseal_tag [OF unseal_seal [OF assms(1,2)]] unseal_tag [of y bs] assms(3) that
  by (cases "unseal y bs") auto

lemma load_foreign:
  assumes "holds_file env (vault_key root h) c u" "issued h" "length c < 2 ^ 32"
    "starts_with (prefix_of (protocol_of x)) h" "seal x = Inr bs" "en_unprotect env ENTROPY c = Some bs"
    "wt_any x" "works_for 2 u" "y \<noteq> protocol_of x"
  shows "fst (load_profile root y h u)
    = Inl (if y = WireGuard then command_error.InvalidProfile else ProfileNotFound)"
proof -
  obtain e where e: "unseal y bs = Inl e" using assms(5,7,9) by (rule unseal_foreign)
  have "y = WireGuard \<or> \<not> admits y h"
    using assms(4,9) by (cases x; cases y) (auto simp: starts_with_append)
  with load_held [of env root h c u bs "unseal y"] e assms(1-3,6,8) show ?thesis
    by (auto simp: load_profile_eq issued_def)
qed

end
