(* ===== verification/Vault_Theorems.thy ===== *)
theory Vault_Theorems
  imports Vault_Laws Contract_Theorems
begin

text \<open>
  The properties of the profile vault (\<open>services/windows_vpn_service/src/profile_vault.rs\<close>), for every
  environment: what a file system, a random generator and DPAPI may answer.
\<close>

text \<open>
  C17. The vault refines a map from handles to sealed profiles: whatever fails and whenever, each call
  answers and changes the map as the specification allows. A handle that is returned is fresh and
  canonical, a load answers what the map holds, and no failure changes an entry that existed.
\<close>

theorem vault_refines_map:
  assumes "dpapi_ok (os_env s)"
  shows "vault_spec call (vault_view root s) (fst (vault_step root call s)) (vault_view root (snd (vault_step root call s)))"
  using store_refines [OF _ assms, of root _ "fst (store_profile root x s)" "snd (store_profile root x s)" for x]
    load_refines [of root y h s "fst (load_profile root y h s)" "snd (load_profile root y h s)" for y h]
    delete_refines [of root h s "fst (vault_delete root h s)" "snd (vault_delete root h s)" for h]
  by (cases call) simp_all

text \<open>An environment in which every call works; the protection is a shift of each byte.\<close>

definition calm :: environment where
  "calm =
     \<lparr>en_fault = (\<lambda>t. Works), en_delay = (\<lambda>t. 10), en_state = (\<lambda>t. Svc_Running),
      en_random = (\<lambda>t i. word_of_nat (16 * t + i)), en_protect = (\<lambda>t e bs. map (\<lambda>b. b + 1) bs),
      en_unprotect = (\<lambda>e bs. Some (map (\<lambda>b. b - 1) bs)), en_exit = (\<lambda>t. Some 0), en_open = (\<lambda>t. True),
      en_output = (\<lambda>t. []), en_driver = (\<lambda>t n. (False, 0, []))\<rparr>"

definition calm_os :: os where
  "calm_os =
     \<lparr>os_files = (\<lambda>k. None), os_services = (\<lambda>n. None), os_processes = (\<lambda>n. None), os_clock = 0,
      os_now = 0, os_env = calm\<rparr>"

lemma calm_dpapi: "dpapi_ok calm"
  by (simp add: dpapi_ok_def calm_def comp_def)

definition vault_root :: string where
  "vault_root = ''C:/ProgramData/KenaiVPN/profiles''"

definition sample_handle :: string where
  "sample_handle = ''awg-101112131415161718191a1b1c1d1e1f''"

lemma sample_store:
  "fst (vault_step vault_root (StoreProfile (AnyAmneziaWg sample_amneziawg)) calm_os) = Inr (Handle sample_handle)"
  by code_simp

theorem vault_refines_map_witness:
  "vault_spec (StoreProfile (AnyAmneziaWg sample_amneziawg)) (vault_view vault_root calm_os)
     (Inr (Handle sample_handle))
     (vault_view vault_root (snd (vault_step vault_root (StoreProfile (AnyAmneziaWg sample_amneziawg)) calm_os)))"
  using vault_refines_map [of calm_os "StoreProfile (AnyAmneziaWg sample_amneziawg)" vault_root]
  unfolding sample_store by (simp add: calm_os_def calm_dpapi)

text \<open>
  C18. A stored profile comes back: after a store returned a handle, any sequence of stores, loads and
  deletes of other handles leaves it, and if the two calls of a load into the system succeed, loading
  it for its own protocol returns exactly the profile stored. For another protocol it is refused: as
  an unknown handle by AmneziaWG and VLESS, and by WireGuard, which does not look at the prefix, as
  an invalid profile.
\<close>

theorem stored_profile_survives:
  assumes "dpapi_ok (os_env s)" "wt_any x"
    "fst (vault_step root (StoreProfile x) s) = Inr (Handle h)" "list_all (spares h) calls"
    "u = snd (run_all (vault_step root) calls (snd (vault_step root (StoreProfile x) s)))" "works_for 2 u"
  shows "fst (vault_step root (LoadProfile y h) u) =
    (if y = protocol_of x then Inr (Loaded x)
     else Inl (if y = WireGuard then command_error.InvalidProfile else ProfileNotFound))"
proof -
  obtain t where st: "store_profile root x s = (Inr h, t)"
    using assms(3) by (cases "store_profile root x s"; cases "fst (store_profile root x s)") auto
  obtain c bs where c: "holds_file (os_env s) (vault_key root h) c t" "issued h" "length c < 2 ^ 32"
    "starts_with (prefix_of (protocol_of x)) h" "seal x = Inr bs" "en_unprotect (os_env s) ENTROPY c = Some bs"
    using st assms(1) by (rule stored_holds)
  have "holds_file (os_env s) (vault_key root h) c u"
    using stored_file.run_stable [OF assms(4) c(1)] assms(5) st by simp
  from load_stored [OF this c(2-6) assms(2,6)] load_foreign [OF this c(2-6) assms(2,6), of y] show ?thesis
    by auto
qed

definition sample_calls :: "vault_call list" where
  "sample_calls =
     [StoreProfile (AnyWireGuard sample_wireguard), LoadProfile VlessReality sample_handle,
      DeleteStored ''wg-202122232425262728292a2b2c2d2e2f'']"

lemma works_for_calm: "os_env s = calm \<Longrightarrow> works_for n s"
  by (simp add: works_for_def calm_def)

theorem stored_profile_survives_witness:
  "fst (vault_step vault_root (LoadProfile AmneziaWg sample_handle)
     (snd (run_all (vault_step vault_root) sample_calls
       (snd (vault_step vault_root (StoreProfile (AnyAmneziaWg sample_amneziawg)) calm_os)))))
   = Inr (Loaded (AnyAmneziaWg sample_amneziawg))"
proof -
  let ?u = "snd (run_all (vault_step vault_root) sample_calls
       (snd (vault_step vault_root (StoreProfile (AnyAmneziaWg sample_amneziawg)) calm_os)))"
  have "list_all (spares sample_handle) sample_calls" by code_simp
  moreover have "os_env ?u = calm"
    using changes_env [OF vault_run_changes
        [of vault_root calm_os "StoreProfile (AnyAmneziaWg sample_amneziawg) # sample_calls"]]
    by (simp add: calm_os_def)
  moreover have "dpapi_ok (os_env calm_os)" by (simp add: calm_os_def calm_dpapi)
  moreover have "wt_any (AnyAmneziaWg sample_amneziawg)" by (simp add: sample_wt)
  ultimately show ?thesis
    using stored_profile_survives [of calm_os "AnyAmneziaWg sample_amneziawg" vault_root sample_handle
        sample_calls ?u AmneziaWg] sample_store works_for_calm by simp
qed

text \<open>
  C19. The vault touches nothing but its own files: whatever it is asked and whatever fails, every file
  that is not \<open>handle.bin\<close> under the vault's directory, for a handle of the three protocols, keeps its
  content, and services and processes stay as they are. No handle, whoever chose it, leads elsewhere.
\<close>

theorem vault_confined:
  "(of_vault root k \<or> os_files (snd (run_all (vault_step root) calls s)) k = os_files s k)
   \<and> os_services (snd (run_all (vault_step root) calls s)) = os_services s
   \<and> os_processes (snd (run_all (vault_step root) calls s)) = os_processes s"
  using vault_run_changes [of root s calls] by (auto simp: changes_def)

end
