(* ===== verification/Provisioning.thy ===== *)
theory Provisioning
  imports Core_Theorems Vault_Theorems
begin

text \<open>
  The processor of \<open>vpn_service_core\<close> running on the vault of \<open>profile_vault.rs\<close>: what an import
  stores is what a later connect hands to the engine.
\<close>

primrec import_command :: "string \<Rightarrow> any_profile \<Rightarrow> control_command" where
  "import_command operation_id (AnyWireGuard p) = ImportWireGuardProfile operation_id p"
| "import_command operation_id (AnyAmneziaWg p) = ImportAmneziaWgProfile operation_id p"
| "import_command operation_id (AnyVless p) = ImportVlessRealityProfile operation_id p"

primrec engine_start ::
  "'b vpn_backend \<Rightarrow> any_profile \<Rightarrow> string \<Rightarrow> bool \<Rightarrow> 'b \<Rightarrow> (backend_failure + unit) \<times> 'b" where
  "engine_start B (AnyWireGuard p) i k = be_connect B i p k"
| "engine_start B (AnyAmneziaWg p) i k = be_connect_amneziawg B i p k"
| "engine_start B (AnyVless p) i k = be_connect_vless B i p k"

lemma vault_methods [simp]:
  "va_store_wireguard (DpapiProfileVault root) = vault_store_wireguard root"
  "va_load_wireguard (DpapiProfileVault root) i s = fst (vault_load_wireguard root i s)"
  "va_store_amneziawg (DpapiProfileVault root) = vault_store_amneziawg root"
  "va_load_amneziawg (DpapiProfileVault root) i s = fst (vault_load_amneziawg root i s)"
  "va_store_vless (DpapiProfileVault root) = vault_store_vless root"
  "va_load_vless (DpapiProfileVault root) i s = fst (vault_load_vless root i s)"
  "va_delete (DpapiProfileVault root) = vault_delete root"
  by (simp_all add: DpapiProfileVault_def)

text \<open>An import is at most one store of the vault.\<close>

lemma import_vault:
  "pr_vault (snd (dispatch (DpapiProfileVault root) B (import_command i x) p)) = pr_vault p
   \<or> pr_vault (snd (dispatch (DpapiProfileVault root) B (import_command i x) p))
     = snd (store_profile root x (pr_vault p))"
  by (cases x)
    (auto simp: import_wireguard_def import_amneziawg_def import_vless_def try_then_def on_vault_def
      split: prod.splits sum.splits)

lemma delete_vault:
  "pr_vault (snd (dispatch (DpapiProfileVault root) B (DeleteProfile i h) p)) = pr_vault p
   \<or> pr_vault (snd (dispatch (DpapiProfileVault root) B (DeleteProfile i h) p))
     = snd (vault_delete root h (pr_vault p))"
  by (auto simp: delete_profile_def on_vault_def split: prod.splits)

lemma import_stored:
  assumes "dispatch (DpapiProfileVault root) B (import_command i x) p = (Inr (reply, returned, stats), q)"
  shows "\<exists>h. returned = Some h \<and> store_profile root x (pr_vault p) = (Inr h, pr_vault q)"
  using assms
  by (cases x)
    (auto simp: answer_Inr import_wireguard_def import_amneziawg_def import_vless_def try_then_def on_vault_def
      validate_stored_id_def split: prod.splits sum.splits if_splits)

text \<open>Events that do not delete the handle, and that leave the files to the service.\<close>

definition spares_command :: "string \<Rightarrow> control_command \<Rightarrow> bool" where
  "spares_command h cmd \<longleftrightarrow> (case cmd of DeleteProfile i h' \<Rightarrow> file_key h' \<noteq> file_key h | _ \<Rightarrow> True)"

primrec leaves :: "string \<Rightarrow> ('v, 'b) event \<Rightarrow> bool" where
  "leaves h (Request ctx request) = spares_command h (rq_command request)"
| "leaves h (Outside f g) = (f = id)"

lemma store_commands:
  "drives_store cmd \<Longrightarrow> (\<exists>i x. cmd = import_command i x) \<or> (\<exists>i h. cmd = DeleteProfile i h)"
  by (cases cmd) (simp_all, metis import_command.simps(1), metis import_command.simps(2), metis import_command.simps(3))

lemma dispatch_vault_step:
  "pr_vault (snd (dispatch (DpapiProfileVault root) B cmd p)) = pr_vault p
   \<or> (\<exists>x. pr_vault (snd (dispatch (DpapiProfileVault root) B cmd p)) = snd (store_profile root x (pr_vault p)))
   \<or> (\<exists>i h. cmd = DeleteProfile i h
        \<and> pr_vault (snd (dispatch (DpapiProfileVault root) B cmd p)) = snd (vault_delete root h (pr_vault p)))"
proof (cases "drives_store cmd")
  case True
  then consider i x where "cmd = import_command i x" | i h where "cmd = DeleteProfile i h"
    using store_commands by blast
  then show ?thesis
  proof cases
    case 1
    with import_vault [of root B i x p] show ?thesis by blast
  next
    case 2
    with delete_vault [of root B i h p] show ?thesis by blast
  qed
qed (simp add: dispatch_vault)

lemma dispatch_holds:
  assumes "holds_file env (vault_key root h) c (pr_vault p)" "spares_command h cmd"
  shows "holds_file env (vault_key root h) c (pr_vault (snd (dispatch (DpapiProfileVault root) B cmd p)))"
  using dispatch_vault_step [of root B cmd p] assms
  by (auto simp: spares_command_def intro: store_holds delete_holds)

lemma dispatch_changes:
  "changes (of_vault root) (pr_vault p) (pr_vault (snd (dispatch (DpapiProfileVault root) B cmd p)))"
  using dispatch_vault_step [of root B cmd p] vault_step_changes [of root "pr_vault p" "StoreProfile x" for x]
    vault_step_changes [of root "pr_vault p" "DeleteStored h" for h]
  by auto

lemma process_env:
  "os_env (pr_vault (snd (process (DpapiProfileVault root) B ctx request p))) = os_env (pr_vault p)"
  using changes_env [OF dispatch_changes, of root B "rq_command request" "remember (rq_request_id request) p"]
  by (simp add: process_state)

interpretation kept_profile:
  stable_system "processor_step (DpapiProfileVault root) B" "leaves h"
    "\<lambda>p. holds_file env (vault_key root h) c (pr_vault p)"
  for root B h env c
proof
  show "leaves h e \<Longrightarrow> holds_file env (vault_key root h) c (pr_vault p) \<Longrightarrow>
      holds_file env (vault_key root h) c (pr_vault (snd (processor_step (DpapiProfileVault root) B e p)))"
    for e and p :: "(os, 'a) processor"
    by (cases e) (auto simp: process_state intro: dispatch_holds)
qed

lemma start_engine_loaded:
  assumes "fst (load_profile root (protocol_of x) (cr_profile_id c) (pr_vault p)) = Inr x"
    "cr_protocol c = protocol_of x"
  shows "start_engine (DpapiProfileVault root) B c p =
    (Inr (fst (engine_start B x (cr_profile_id c) (cr_kill_switch c) (pr_backend p))),
     p\<lparr>pr_backend := snd (engine_start B x (cr_profile_id c) (cr_kill_switch c) (pr_backend p))\<rparr>)"
  using assms
  by (cases x) (auto simp: start_engine_def try_then_def on_backend_def split: prod.splits sum.splits)

section \<open>The types of what is loaded\<close>






text \<open>
  C8. Provisioning works end to end: after an accepted import answered with a handle, and any further
  requests and engine changes except the deletion of that handle, a connect that names the handle
  hands exactly the imported profile to the matching engine, if the vault's two system calls succeed.
\<close>

theorem imported_profile_reaches_engine:
  assumes "dpapi_ok (os_env (pr_vault p))" "wt_any x" "rq_command request = import_command i x"
    "fst (process (DpapiProfileVault root) B ctx request p) = Inr outcome"
    "se_profile_id (oc_state outcome) = Some h" "list_all (leaves h) events"
    "q = snd (run_all (processor_step (DpapiProfileVault root) B) events
       (snd (process (DpapiProfileVault root) B ctx request p)))"
    "cr_profile_id c = h" "cr_protocol c = protocol_of x" "works_for 2 (pr_vault q)"
  shows "start_engine (DpapiProfileVault root) B c q =
    (Inr (fst (engine_start B x h (cr_kill_switch c) (pr_backend q))),
     q\<lparr>pr_backend := snd (engine_start B x h (cr_kill_switch c) (pr_backend q))\<rparr>)"
proof -
  from process_answer [OF assms(4)] obtain reply returned stats r where
    a: "accepts ctx request p" and
    d: "dispatch (DpapiProfileVault root) B (import_command i x) (remember (rq_request_id request) p)
      = (Inr (reply, returned, stats), r)" and
    o: "oc_state outcome = (case returned of None \<Rightarrow> pr_machine r
        | Some j \<Rightarrow> (pr_machine r)\<lparr>se_profile_id := Some j\<rparr>)"
    by (auto simp: assms(3))
  have r: "snd (process (DpapiProfileVault root) B ctx request p) = r"
    using a d by (simp add: process_state assms(3))
  from import_stored [OF d] o assms(5) have st: "store_profile root x (pr_vault p) = (Inr h, pr_vault r)"
    by auto
  obtain k bs where k: "holds_file (os_env (pr_vault p)) (vault_key root h) k (pr_vault r)" "issued h"
    "length k < 2 ^ 32" "starts_with (prefix_of (protocol_of x)) h" "seal x = Inr bs"
    "en_unprotect (os_env (pr_vault p)) ENTROPY k = Some bs"
    using st assms(1) by (rule stored_holds)
  have "holds_file (os_env (pr_vault p)) (vault_key root h) k (pr_vault q)"
    using kept_profile.run_stable [OF assms(6) k(1)] assms(7) r by simp
  from load_stored [OF this k(2-6) assms(2,10)] start_engine_loaded [of root x c q B] assms(8,9)
  show ?thesis by simp
qed

definition import_request :: request_envelope where
  "import_request = sample_envelope ''r1'' (import_command ''op-1'' (AnyAmneziaWg sample_amneziawg))"

definition vault_processor :: "(os, unit) processor" where
  "vault_processor = with_backend calm_os ()"

definition imported_connect :: connect_request where
  "imported_connect =
     \<lparr>cr_operation_id = ''op-2'', cr_profile_id = sample_handle, cr_protocol = AmneziaWg,
      cr_kill_switch = False\<rparr>"

lemma import_outcome:
  "map_sum id (\<lambda>r. se_profile_id (oc_state r))
     (fst (process (DpapiProfileVault vault_root) UnavailableVpnBackend sample_caller import_request vault_processor))
   = Inr (Some sample_handle)"
  by code_simp

theorem imported_profile_reaches_engine_witness:
  "fst (start_engine (DpapiProfileVault vault_root) UnavailableVpnBackend imported_connect
     (snd (process (DpapiProfileVault vault_root) UnavailableVpnBackend sample_caller import_request vault_processor)))
   = Inr (Inl UnsupportedFeature)"
proof -
  let ?step = "process (DpapiProfileVault vault_root) UnavailableVpnBackend sample_caller import_request vault_processor"
  obtain out where out: "fst ?step = Inr out" "se_profile_id (oc_state out) = Some sample_handle"
    using import_outcome by (cases "fst ?step") auto
  have calm: "os_env (pr_vault vault_processor) = calm"
    by (simp add: vault_processor_def with_backend_def calm_os_def)
  have "works_for 2 (pr_vault (snd ?step))" by (rule works_for_calm) (simp add: process_env calm)
  from imported_profile_reaches_engine [OF _ _ _ out, of "AnyAmneziaWg sample_amneziawg" "''op-1''" "[]" "snd ?step"
      imported_connect] this calm calm_dpapi sample_wt
  show ?thesis
    by (simp add: import_request_def sample_envelope_def imported_connect_def UnavailableVpnBackend_def
        default_connect_amneziawg_def)
qed

end
