(* ===== verification/Os_Services.thy ===== *)
theory Os_Services
  imports Os
begin

text \<open>
  The service manager, processes and time, as the engines use them: every outcome (whether a call
  works, the state a service reports, the exit of a process) is the environment's. The loop that
  waits for a service state is a total function; its termination and its bound are proved here. Calls
  that only pass handles or flags to Windows have a result and no effect on the state.
\<close>

section \<open>Specifications of operations\<close>

text \<open>
  \<open>ensures P m Q E\<close>: from a state with \<open>P\<close> the operation \<open>m\<close> returns a value with \<open>Q\<close> or an error with
  \<open>E\<close>. Operations are total, so this is total correctness.
\<close>

definition ensures ::
  "('s \<Rightarrow> bool) \<Rightarrow> ('s \<Rightarrow> ('e + 'a) \<times> 's) \<Rightarrow> ('a \<Rightarrow> 's \<Rightarrow> bool) \<Rightarrow> ('e \<Rightarrow> 's \<Rightarrow> bool) \<Rightarrow> bool" where
  "ensures P m Q E \<longleftrightarrow>
     (\<forall>s. P s \<longrightarrow> (case m s of (Inl e, t) \<Rightarrow> E e t | (Inr x, t) \<Rightarrow> Q x t))"

lemma ensuresI:
  "(\<And>s e t. P s \<Longrightarrow> m s = (Inl e, t) \<Longrightarrow> E e t) \<Longrightarrow> (\<And>s x t. P s \<Longrightarrow> m s = (Inr x, t) \<Longrightarrow> Q x t) \<Longrightarrow>
   ensures P m Q E"
  by (auto simp: ensures_def split: prod.split sum.split)

lemma ensuresD_Inr: "ensures P m Q E \<Longrightarrow> P s \<Longrightarrow> m s = (Inr x, t) \<Longrightarrow> Q x t"
  by (auto simp: ensures_def)

lemma ensuresD_Inl: "ensures P m Q E \<Longrightarrow> P s \<Longrightarrow> m s = (Inl e, t) \<Longrightarrow> E e t"
  by (auto simp: ensures_def)

lemma ensures_then:
  "ensures P m R E \<Longrightarrow> (\<And>x. ensures (R x) (f x) Q E) \<Longrightarrow> ensures P (try_then m f) Q E"
  by (fastforce simp: ensures_def try_then_def split: prod.splits sum.splits)

lemma ensures_conseq:
  "ensures P m Q E \<Longrightarrow> (\<And>s. P' s \<Longrightarrow> P s) \<Longrightarrow> (\<And>x s. Q x s \<Longrightarrow> Q' x s) \<Longrightarrow> (\<And>e s. E e s \<Longrightarrow> E' e s) \<Longrightarrow>
   ensures P' m Q' E'"
  by (fastforce simp: ensures_def split: prod.splits sum.splits)

lemma ensures_return: "(\<And>s. P s \<Longrightarrow> Q x s) \<Longrightarrow> ensures P (\<lambda>s. (Inr x, s)) Q E"
  by (simp add: ensures_def)

section \<open>The service manager\<close>

definition os_result :: "(unit, unit) os_op" where
  "os_result s = (case os_call s of (Fails n, t) \<Rightarrow> (Inl (), t) | (Works, t) \<Rightarrow> (Inr (), t))"

text \<open>Connecting to the manager, setting the identifier type, starting and stopping: a result only.\<close>

definition svc_manager :: "(unit, unit) os_op" where
  "svc_manager = os_result"

definition svc_set_sid :: "string \<Rightarrow> (unit, unit) os_op" where
  "svc_set_sid name = os_result"

definition svc_start :: "string \<Rightarrow> (unit, unit) os_op" where
  "svc_start name = os_result"

definition svc_stop :: "string \<Rightarrow> (unit, unit) os_op" where
  "svc_stop name = os_result"

definition svc_open :: "string \<Rightarrow> (unit, unit) os_op" where
  "svc_open name s =
     (if os_services s name \<noteq> None \<and> en_open (os_env s) (os_clock s) then (Inr (), snd (os_call s))
      else (Inl (), snd (os_call s)))"

definition svc_query :: "string \<Rightarrow> (unit, service_state) os_op" where
  "svc_query name s =
     (case os_call s of
        (Fails n, t) \<Rightarrow> (Inl (), t)
      | (Works, t) \<Rightarrow>
          (Inr (en_state (os_env s) (os_clock s)),
           t\<lparr>os_services := (os_services t)(name :=
               map_option (sc_state_update (\<lambda>_. en_state (os_env s) (os_clock s))) (os_services t name))\<rparr>))"

definition svc_create :: "string \<Rightarrow> string list \<Rightarrow> (unit, unit) os_op" where
  "svc_create name command s =
     (case os_call s of
        (Fails n, t) \<Rightarrow> (Inl (), t)
      | (Works, t) \<Rightarrow>
          (case os_services t name of
             Some entry \<Rightarrow> (Inl (), t)
           | None \<Rightarrow>
               (Inr (), t\<lparr>os_services := (os_services t)(name \<mapsto>
                  \<lparr>sc_command = command, sc_state = Svc_Stopped\<rparr>)\<rparr>)))"

definition svc_delete :: "string \<Rightarrow> (unit, unit) os_op" where
  "svc_delete name s =
     (case os_call s of
        (Fails n, t) \<Rightarrow> (Inl (), t)
      | (Works, t) \<Rightarrow> (Inr (), t\<lparr>os_services := (os_services t)(name := None)\<rparr>))"

definition os_sleep :: "nat \<Rightarrow> os \<Rightarrow> os" where
  "os_sleep ms s = s\<lparr>os_now := os_now s + ms\<rparr>"

section \<open>Waiting for a state\<close>

lemma svc_query_now: "os_now s \<le> os_now (snd (svc_query name s))"
  using os_call_fields(5) [of s] by (cases "os_call s") (auto simp: svc_query_def split: fault.split)

text \<open>\<open>wait_for_state\<close>: time is counted in milliseconds; every round sleeps for at least 100 of them.\<close>

function wait_until :: "string \<Rightarrow> service_state \<Rightarrow> nat \<Rightarrow> nat \<Rightarrow> (unit, unit) os_op" where
  "wait_until name expected timeout started s =
     (case svc_query name s of
        (Inl e, t) \<Rightarrow> (Inl (), t)
      | (Inr reported, t) \<Rightarrow>
          if reported = expected then (Inr (), t)
          else if timeout \<le> os_now t - started then (Inl (), t)
          else wait_until name expected timeout started (os_sleep 100 t))"
  by pat_completeness auto

termination
proof (relation "measure (\<lambda>(name, expected, timeout, started, s). started + timeout - os_now s)", goal_cases)
  case (2 name expected timeout started s r t reported)
  then show ?case using svc_query_now [of s name] by (cases "svc_query name s") (auto simp: os_sleep_def)
qed simp

declare wait_until.simps [simp del]

definition wait_for_state :: "string \<Rightarrow> service_state \<Rightarrow> nat \<Rightarrow> (unit, unit) os_op" where
  "wait_for_state name expected timeout s = wait_until name expected timeout (os_now s) s"

section \<open>Processes and jobs\<close>

text \<open>
  A process is named by the tick that started it. A kill-on-close job has one process at most, so it is
  named by it too. Terminating a process with full access fails only if it has ended; closing the last
  handle of the job ends the process it owns.
\<close>

definition end_process :: "nat \<Rightarrow> os \<Rightarrow> os" where
  "end_process pid s = s\<lparr>os_processes := (os_processes s)(pid := None)\<rparr>"

definition process_spawn :: "string list \<Rightarrow> (unit, nat) os_op" where
  "process_spawn command s =
     (case os_call s of
        (Fails n, t) \<Rightarrow> (Inl (), t)
      | (Works, t) \<Rightarrow>
          (Inr (os_clock s),
           t\<lparr>os_processes := (os_processes t)(os_clock s \<mapsto> \<lparr>ch_command = command, ch_owned = False\<rparr>)\<rparr>))"

definition job_assign :: "nat \<Rightarrow> (unit, unit) os_op" where
  "job_assign pid s =
     (case os_call s of
        (Fails n, t) \<Rightarrow> (Inl (), t)
      | (Works, t) \<Rightarrow>
          (Inr (), t\<lparr>os_processes :=
             (os_processes t)(pid := map_option (ch_owned_update (\<lambda>_. True)) (os_processes t pid))\<rparr>))"

definition job_terminate :: "nat \<Rightarrow> (unit, unit) os_op" where
  "job_terminate pid s =
     (case os_call s of (Fails n, t) \<Rightarrow> (Inl (), t) | (Works, t) \<Rightarrow> (Inr (), end_process pid t))"

definition job_close :: "nat \<Rightarrow> os \<Rightarrow> os" where
  "job_close pid s =
     (case os_processes s pid of
        Some p \<Rightarrow> if ch_owned p then end_process pid s else s
      | None \<Rightarrow> s)"

definition process_kill :: "nat \<Rightarrow> (unit, unit) os_op" where
  "process_kill pid s =
     (case os_call s of
        (Fails n, t) \<Rightarrow> (Inl (), end_process pid t) | (Works, t) \<Rightarrow> (Inr (), end_process pid t))"

definition process_wait :: "nat \<Rightarrow> (unit, unit) os_op" where
  "process_wait pid s =
     (case os_call s of (Fails n, t) \<Rightarrow> (Inl (), t) | (Works, t) \<Rightarrow> (Inr (), end_process pid t))"

definition process_try_wait :: "nat \<Rightarrow> (unit, u32 option) os_op" where
  "process_try_wait pid s =
     (case os_call s of
        (Fails n, t) \<Rightarrow> (Inl (), t)
      | (Works, t) \<Rightarrow>
          (case en_exit (os_env s) (os_clock s) of
             None \<Rightarrow> (Inr None, t)
           | Some e \<Rightarrow> (Inr (Some e), end_process pid t)))"

definition STILL_ACTIVE :: u32 where
  "STILL_ACTIVE = 259"

definition process_exit_code :: "nat \<Rightarrow> (unit, u32) os_op" where
  "process_exit_code pid s =
     (case os_call s of
        (Fails n, t) \<Rightarrow> (Inl (), t)
      | (Works, t) \<Rightarrow>
          (Inr (case en_exit (os_env s) (os_clock s) of None \<Rightarrow> STILL_ACTIVE | Some e \<Rightarrow> e), t))"

text \<open>\<open>Command::status\<close> and \<open>Command::output\<close>: the exit code, if there is one, and the output.\<close>

definition run_command :: "string list \<Rightarrow> (unit, u32 option \<times> u8 list) os_op" where
  "run_command command s =
     (case os_call s of
        (Fails n, t) \<Rightarrow> (Inl (), t)
      | (Works, t) \<Rightarrow>
          (Inr (en_exit (os_env s) (os_clock s), en_output (os_env s) (os_clock s)), t))"

section \<open>What an operation may touch\<close>

text \<open>
  \<open>evolves F S C s t\<close>: the environment stays, ticks and time go on, and only files with \<open>F\<close>, services
  with \<open>S\<close> and processes with \<open>C\<close> may differ.
\<close>

definition evolves ::
  "(string \<Rightarrow> bool) \<Rightarrow> (string \<Rightarrow> bool) \<Rightarrow> (nat \<Rightarrow> bool) \<Rightarrow> os \<Rightarrow> os \<Rightarrow> bool" where
  "evolves F S C s t \<longleftrightarrow>
     os_env t = os_env s \<and> os_clock s \<le> os_clock t \<and> os_now s \<le> os_now t
     \<and> (\<forall>k. F k \<or> os_files t k = os_files s k) \<and> (\<forall>n. S n \<or> os_services t n = os_services s n)
     \<and> (\<forall>i. C i \<or> os_processes t i = os_processes s i)"

lemma evolves_refl [simp, intro]: "evolves F S C s s"
  by (simp add: evolves_def)

lemma evolves_trans [trans]: "evolves F S C s t \<Longrightarrow> evolves F S C t u \<Longrightarrow> evolves F S C s u"
  by (simp add: evolves_def) metis

lemma evolves_env: "evolves F S C s t \<Longrightarrow> os_env t = os_env s"
  by (simp add: evolves_def)

lemma evolves_mono:
  "evolves F S C s t \<Longrightarrow> (\<And>k. F k \<Longrightarrow> F' k) \<Longrightarrow> (\<And>n. S n \<Longrightarrow> S' n) \<Longrightarrow> (\<And>i. C i \<Longrightarrow> C' i) \<Longrightarrow> evolves F' S' C' s t"
  unfolding evolves_def by metis

lemma os_call_evolves: "os_call s = (f, t) \<Longrightarrow> evolves F S C s t"
  by (auto simp: os_call_def evolves_def)

lemma os_call_same:
  "os_call s = (f, t) \<Longrightarrow> os_files t = os_files s \<and> os_services t = os_services s \<and> os_processes t = os_processes s
     \<and> os_env t = os_env s \<and> os_clock t = Suc (os_clock s) \<and> os_now s \<le> os_now t"
  by (auto simp: os_call_def)

text \<open>The service a query reports on, and everything else as it was.\<close>

lemma svc_query_result:
  "svc_query name s = (r, t) \<Longrightarrow>
     os_files t = os_files s \<and> os_processes t = os_processes s \<and> os_env t = os_env s
     \<and> os_clock t = Suc (os_clock s) \<and> os_now s \<le> os_now t
     \<and> (\<forall>e. r = Inl e \<longrightarrow> os_services t = os_services s \<and> en_fault (os_env s) (os_clock s) \<noteq> Works)
     \<and> (\<forall>q. r = Inr q \<longrightarrow> q = en_state (os_env s) (os_clock s)
          \<and> os_services t = (os_services s)(name := map_option (sc_state_update (\<lambda>_. q)) (os_services s name)))"
  by (auto simp: svc_query_def os_call_def split: fault.splits)

lemma rounds_decrease:
  assumes "a < r" "b \<le> a"
  shows "Suc ((r - (a + 100) + 99) div 100) \<le> (r - b + 99) div (100 :: nat)"
proof -
  have "Suc ((r - (a + 100) + 99) div 100) \<le> (r - a + 99) div 100"
  proof (cases "a + 100 \<le> r")
    case True
    then have "r - a + 99 = (r - (a + 100) + 99) + 100" by simp
    then show ?thesis by (simp only: div_add_self2)
  next
    case False
    with assms(1) have "100 \<le> r - a + 99" by simp
    then have "100 div 100 \<le> (r - a + 99) div 100" by (rule div_le_mono)
    with False show ?thesis by simp
  qed
  also have "\<dots> \<le> (r - b + 99) div 100" using assms by (intro div_le_mono) simp
  finally show ?thesis .
qed

lemma wait_until_result:
  assumes "wait_until name expected timeout started s = (r, t)" "started \<le> os_now s"
  shows "os_files t = os_files s \<and> os_processes t = os_processes s \<and> os_env t = os_env s
    \<and> os_clock s < os_clock t \<and> os_now s \<le> os_now t
    \<and> (\<forall>n. n = name \<or> os_services t n = os_services s n)
    \<and> (os_services t name = None \<longleftrightarrow> os_services s name = None)
    \<and> os_clock t \<le> os_clock s + (started + timeout - os_now s + 99) div 100 + 1
    \<and> (r = Inr () \<longrightarrow> en_state (os_env s) (os_clock t - 1) = expected
         \<and> os_services t name = map_option (sc_state_update (\<lambda>_. expected)) (os_services s name))
    \<and> (r = Inl () \<longrightarrow> en_fault (os_env s) (os_clock t - 1) \<noteq> Works
         \<or> timeout \<le> os_now t - started \<and> en_state (os_env s) (os_clock t - 1) \<noteq> expected)"
  using assms
proof (induction name expected timeout started s arbitrary: r t rule: wait_until.induct)
  case (1 name expected timeout started s)
  obtain q u where q: "svc_query name s = (q, u)" by (cases "svc_query name s")
  note qr = svc_query_result [OF q]
  show ?case
  proof (cases q)
    case (Inl e)
    with "1.prems" q qr show ?thesis by (auto simp: wait_until.simps [of name expected timeout started s])
  next
    case (Inr reported)
    consider "reported = expected" | "reported \<noteq> expected" "timeout \<le> os_now u - started"
      | "reported \<noteq> expected" "\<not> timeout \<le> os_now u - started" by blast
    then show ?thesis
    proof cases
      case 3
      let ?v = "os_sleep 100 u"
      have rec: "wait_until name expected timeout started ?v = (r, t)"
        using "1.prems"(1) q Inr 3 by (simp add: wait_until.simps [of name expected timeout started s])
      have v: "os_files ?v = os_files u" "os_processes ?v = os_processes u" "os_env ?v = os_env u"
        "os_services ?v = os_services u" "os_clock ?v = os_clock u" "os_now ?v = os_now u + 100"
        by (simp_all add: os_sleep_def)
      have le: "started \<le> os_now ?v" using "1.prems"(2) qr v by simp
      note IH = "1.IH" [OF q [symmetric] Inr 3 rec le]
      have steps: "Suc ((started + timeout - os_now ?v + 99) div 100) \<le> (started + timeout - os_now s + 99) div 100"
        unfolding v(6) using qr 3(2) "1.prems"(2) by (intro rounds_decrease) linarith+
      have clock: "os_clock t \<le> os_clock s + (started + timeout - os_now s + 99) div 100 + 1"
        using IH steps qr v(5) by linarith
      have services: "os_services u n = os_services s n" if "n \<noteq> name" for n
        using that qr Inr by simp
      have entry: "os_services u name = map_option (sc_state_update (\<lambda>_. reported)) (os_services s name)"
        using qr Inr by simp
      from IH qr have env: "os_files t = os_files s" "os_processes t = os_processes s" "os_env t = os_env s"
        "os_clock s < os_clock t" "os_now s \<le> os_now t" by (simp_all add: v)
      from IH services have others: "\<forall>n. n = name \<or> os_services t n = os_services s n" by (metis v(4))
      from IH entry have present: "os_services t name = None \<longleftrightarrow> os_services s name = None" by (simp add: v)
      from IH entry qr have result:
        "r = Inr () \<longrightarrow> en_state (os_env s) (os_clock t - 1) = expected
           \<and> os_services t name = map_option (sc_state_update (\<lambda>_. expected)) (os_services s name)"
        "r = Inl () \<longrightarrow> en_fault (os_env s) (os_clock t - 1) \<noteq> Works
           \<or> timeout \<le> os_now t - started \<and> en_state (os_env s) (os_clock t - 1) \<noteq> expected"
        by (simp_all add: v option.map_comp comp_def)
      from clock env others present result show ?thesis by blast
    qed (use "1.prems" q qr Inr in \<open>auto simp: wait_until.simps [of name expected timeout started s]\<close>)
  qed
qed

end
