(* ===== verification/Engine_Config.thy ===== *)
theory Engine_Config
  imports Contract_Sealed Processor
begin

text \<open>
  What the three engines write and read as text or bytes: the configuration files rendered from a
  profile (\<open>render_config\<close> of \<open>wireguard_engine.rs\<close>, \<open>amneziawg_engine.rs\<close> and \<open>xray_engine.rs\<close>) and
  the statistics parsed from the WireGuardNT driver record and from the \<open>awg show dump\<close> output. The
  base64 encoder of the \<open>base64\<close> crate is the parameter \<open>b64\<close>.
\<close>

section \<open>Rendering\<close>

definition crlf :: string where
  "crlf = [CHR 13, CHR 10]"

definition setting :: "string \<Rightarrow> string \<Rightarrow> string" where
  "setting key value = key @ '' = '' @ value @ crlf"

definition endpoint :: "wireguard_profile \<Rightarrow> string" where
  "endpoint p =
     (if CHR '':'' \<in> set (wg_endpoint_host p) then ''['' @ wg_endpoint_host p @ '']'' else wg_endpoint_host p)"

definition interface_settings :: "(u8 list \<Rightarrow> string) \<Rightarrow> wireguard_profile \<Rightarrow> string" where
  "interface_settings b64 p =
     ''[Interface]'' @ crlf @ setting ''PrivateKey'' (b64 (wg_private_key p))
     @ setting ''Address'' (join '', '' (wg_addresses p))
     @ (if wg_dns_servers p \<noteq> [] then setting ''DNS'' (join '', '' (map show_ip (wg_dns_servers p))) else [])"

definition peer_settings :: "(u8 list \<Rightarrow> string) \<Rightarrow> wireguard_profile \<Rightarrow> string" where
  "peer_settings b64 p =
     crlf @ ''[Peer]'' @ crlf @ setting ''PublicKey'' (b64 (wg_peer_public_key p))
     @ (case wg_preshared_key p of None \<Rightarrow> [] | Some key \<Rightarrow> setting ''PresharedKey'' (b64 key))
     @ setting ''Endpoint'' (endpoint p @ '':'' @ show_nat (unat (wg_endpoint_port p)))
     @ setting ''AllowedIPs'' (join '', '' (wg_allowed_ips p))
     @ (case wg_persistent_keepalive p of None \<Rightarrow> []
        | Some keepalive \<Rightarrow> setting ''PersistentKeepalive'' (show_nat (unat keepalive)))"

definition render_wireguard :: "(u8 list \<Rightarrow> string) \<Rightarrow> wireguard_profile \<Rightarrow> string" where
  "render_wireguard b64 p = interface_settings b64 p @ peer_settings b64 p"

definition obfuscation_settings :: "amneziawg_profile \<Rightarrow> string" where
  "obfuscation_settings p =
     setting ''Jc'' (show_nat (unat (awg_junk_packet_count p)))
     @ setting ''Jmin'' (show_nat (unat (awg_junk_packet_min_size p)))
     @ setting ''Jmax'' (show_nat (unat (awg_junk_packet_max_size p)))
     @ setting ''S1'' (show_nat (unat (awg_init_packet_junk_size p)))
     @ setting ''S2'' (show_nat (unat (awg_response_packet_junk_size p)))
     @ setting ''S3'' (show_nat (unat (awg_init_packet_magic_header p)))
     @ setting ''S4'' (show_nat (unat (awg_response_packet_magic_header p)))
     @ setting ''H1'' (awg_transport_packet_magic_header p)
     @ setting ''H2'' (awg_init_packet_magic_header_value p)
     @ setting ''H3'' (awg_response_packet_magic_header_value p)
     @ setting ''H4'' (awg_transport_packet_magic_header_value p)
     @ concat (map (\<lambda>(index, value). setting (CHR ''I'' # show_nat (index + 1)) value)
         (enumerate 0 (awg_special_junk p)))"

definition render_amneziawg :: "(u8 list \<Rightarrow> string) \<Rightarrow> amneziawg_profile \<Rightarrow> string" where
  "render_amneziawg b64 p =
     interface_settings b64 (awg_wireguard p) @ obfuscation_settings p @ peer_settings b64 (awg_wireguard p)"

definition render_vless :: "vless_profile \<Rightarrow> string" where
  \<open>render_vless p =
     ''{"log":{"loglevel":"none"},"inbounds":[{"tag":"kenai-tun","protocol":"tun","settings":{"name":"KenaiXray","desc":"Kenai VPN Xray","mtu":1500,"gateway":["10.254.0.1/30","fd00:6b65:6e61:69::1/126"],"dns":["1.1.1.1","2606:4700:4700::1111"],"autoSystemRoutingTable":["0.0.0.0/0","::/0"],"autoOutboundsInterface":"auto"}}],"outbounds":[{"tag":"proxy","protocol":"vless","settings":{"address":"''
     @ vl_endpoint_host p @ ''","port":'' @ show_nat (unat (vl_endpoint_port p)) @ '',"id":"'' @ vl_client_id p
     @ ''","encryption":"none","flow":"xtls-rprx-vision"},"streamSettings":{"network":"raw","security":"reality","realitySettings":{"serverName":"''
     @ vl_server_name p @ ''","fingerprint":"'' @ vl_fingerprint p @ ''","password":"''
     @ vl_reality_password p @ ''","shortId":"'' @ vl_short_id p @ ''","spiderX":"/"}}}]}''\<close>

section \<open>Statistics\<close>

text \<open>\<open>slice::get\<close> of a range.\<close>

definition byte_range :: "u8 list \<Rightarrow> nat \<Rightarrow> nat \<Rightarrow> u8 list option" where
  "byte_range bytes from to =
     (if from \<le> to \<and> to \<le> length bytes then Some (take (to - from) (drop from bytes)) else None)"

definition read_u32 :: "u8 list \<Rightarrow> nat \<Rightarrow> u32 option" where
  "read_u32 bytes offset =
     (if usize_limit \<le> offset + 4 then None
      else map_option u32_from_le (byte_range bytes offset (offset + 4)))"

definition read_u64 :: "u8 list \<Rightarrow> nat \<Rightarrow> u64 option" where
  "read_u64 bytes offset =
     (if usize_limit \<le> offset + 8 then None
      else map_option u64_from_le (byte_range bytes offset (offset + 8)))"

text \<open>The times of the driver are 100-nanosecond ticks since 1601.\<close>

definition handshake_ms :: "u64 \<Rightarrow> i64 option option" where
  "handshake_ms filetime =
     (if filetime = 0 then Some None
      else let millis = unat filetime div 10000 - 11644473600000
           in if millis < 2 ^ 63 then Some (Some (word_of_nat millis)) else None)"

definition parse_driver_statistics :: "u8 list \<Rightarrow> backend_failure + tunnel_statistics" where
  "parse_driver_statistics buffer =
     (if length buffer < 80 then Inl BackendInvalidProfile
      else and_then (ok_or Internal (read_u32 buffer 72)) (\<lambda>peers.
        if peers \<noteq> 1 then Inl BackendInvalidProfile
        else and_then (ok_or Internal (byte_range buffer 80 (80 + 136))) (\<lambda>peer.
          and_then (ok_or Internal (read_u64 peer 120)) (\<lambda>filetime.
          and_then (ok_or Internal (handshake_ms filetime)) (\<lambda>last_handshake.
          and_then (ok_or Internal (read_u64 peer 112)) (\<lambda>received.
          and_then (ok_or Internal (read_u64 peer 104)) (\<lambda>sent.
            Inr \<lparr>ts_bytes_received = received, ts_bytes_sent = sent,
                 ts_last_handshake_unix_ms = last_handshake\<rparr>)))))))"

definition i64_saturating_mul :: "int \<Rightarrow> int \<Rightarrow> int" where
  "i64_saturating_mul a b = max (- (2 ^ 63)) (min (2 ^ 63 - 1) (a * b))"

definition u64_max :: nat where
  "u64_max = 18446744073709551615"

definition parse_dump_statistics :: "string \<Rightarrow> backend_failure + tunnel_statistics" where
  "parse_dump_statistics text =
     (case drop 1 (str_lines text) of
        [] \<Rightarrow> Inl Internal
      | peer # _ \<Rightarrow>
          let fields = split_on (CHR 9) peer in
          if length fields < 8 then Inl Internal
          else and_then (ok_or Internal (parse_i64 (fields ! 4))) (\<lambda>handshake.
            and_then (ok_or Internal (parse_unsigned u64_max (fields ! 5))) (\<lambda>received.
            and_then (ok_or Internal (parse_unsigned u64_max (fields ! 6))) (\<lambda>sent.
              Inr \<lparr>ts_bytes_received = word_of_nat received, ts_bytes_sent = word_of_nat sent,
                   ts_last_handshake_unix_ms =
                     (if 0 < handshake then Some (word_of_int (i64_saturating_mul handshake 1000))
                      else None)\<rparr>))))"

section \<open>Reading a configuration back\<close>

text \<open>
  A reader of the configuration format: blank lines are skipped, a line with an equals sign is a
  setting, any other line a section header.
\<close>

datatype config_item = Section string | Setting string string

definition read_item :: "string \<Rightarrow> config_item" where
  "read_item line =
     (case split_once (CHR ''='') line of
        None \<Rightarrow> Section line
      | Some (key, value) \<Rightarrow> Setting (butlast key) (drop 1 value))"

definition read_config :: "string \<Rightarrow> config_item list" where
  "read_config text = map read_item (filter (\<lambda>line. line \<noteq> []) (str_lines text))"

primrec item_line :: "config_item \<Rightarrow> string" where
  "item_line (Section s) = s"
| "item_line (Setting key value) = key @ '' = '' @ value"

primrec item_ok :: "config_item \<Rightarrow> bool" where
  "item_ok (Section s) = (s \<noteq> [] \<and> CHR 10 \<notin> set s \<and> CHR ''='' \<notin> set s)"
| "item_ok (Setting key value) = (CHR 10 \<notin> set key \<and> CHR ''='' \<notin> set key \<and> CHR 10 \<notin> set value)"

definition text_of :: "string list \<Rightarrow> string" where
  "text_of lines = concat (map (\<lambda>line. line @ crlf) lines)"

lemma text_of_simps [simp]:
  "text_of [] = []" "text_of (l # ls) = l @ crlf @ text_of ls" "text_of (ls @ ms) = text_of ls @ text_of ms"
  by (simp_all add: text_of_def)

lemma split_on_line: "CHR 10 \<notin> set l \<Longrightarrow> split_on (CHR 10) (l @ crlf @ s) = (l @ [CHR 13]) # split_on (CHR 10) s"
  using split_on_append_sep [of "CHR 10" "l @ [CHR 13]" s] split_on_no_sep [of "CHR 10" "l @ [CHR 13]"]
  by (simp add: crlf_def)

lemma split_on_text_of:
  "\<forall>l \<in> set ls. CHR 10 \<notin> set l \<Longrightarrow> split_on (CHR 10) (text_of ls) = map (\<lambda>l. l @ [CHR 13]) ls @ [[]]"
  by (induction ls) (simp_all add: split_on_line)

lemma str_lines_text_of: "\<forall>l \<in> set ls. CHR 10 \<notin> set l \<Longrightarrow> str_lines (text_of ls) = ls"
  by (simp add: str_lines_def split_on_text_of Let_def comp_def strip_cr_def ends_with_def)

lemma read_item_line [simp]: "item_ok i \<Longrightarrow> read_item (item_line i) = i"
proof (cases i)
  case (Section s)
  then show "item_ok i \<Longrightarrow> read_item (item_line i) = i"
    using split_once_SomeD [of "CHR ''=''" s] by (force simp: read_item_def split: option.splits)
next
  case (Setting key v)
  then show "item_ok i \<Longrightarrow> read_item (item_line i) = i"
    using split_once_append [of "CHR ''=''" "key @ '' ''" "'' '' @ v"]
    by (simp add: read_item_def)
qed

lemma item_line_ok: "item_ok i \<Longrightarrow> item_line i \<noteq> [] \<and> CHR 10 \<notin> set (item_line i)"
  by (cases i) auto

text \<open>A text of well-formed items and blank lines reads back as the items.\<close>

lemma read_config_items:
  assumes "list_all item_ok (front @ items)"
  shows "read_config (text_of (map item_line front @ [] # map item_line items)) = front @ items"
proof -
  have lines: "str_lines (text_of (map item_line front @ [] # map item_line items)) = map item_line front @ [] # map item_line items"
    using assms by (intro str_lines_text_of) (auto simp: list_all_iff dest: item_line_ok)
  have keep: "list_all item_ok ks \<Longrightarrow> map read_item (filter (\<lambda>l. l \<noteq> []) (map item_line ks)) = ks" for ks
    by (induction ks) (auto simp: item_line_ok)
  from assms show ?thesis unfolding read_config_def lines by (simp add: keep)
qed

section \<open>The items of a profile\<close>

primrec optional_item :: "string \<Rightarrow> string option \<Rightarrow> config_item list" where
  "optional_item key None = []"
| "optional_item key (Some value) = [Setting key value]"

definition interface_items :: "(u8 list \<Rightarrow> string) \<Rightarrow> wireguard_profile \<Rightarrow> config_item list" where
  "interface_items b64 p =
     [Section ''[Interface]'', Setting ''PrivateKey'' (b64 (wg_private_key p)),
      Setting ''Address'' (join '', '' (wg_addresses p))]
     @ (if wg_dns_servers p = [] then [] else [Setting ''DNS'' (join '', '' (map show_ip (wg_dns_servers p)))])"

definition peer_items :: "(u8 list \<Rightarrow> string) \<Rightarrow> wireguard_profile \<Rightarrow> config_item list" where
  "peer_items b64 p =
     [Section ''[Peer]'', Setting ''PublicKey'' (b64 (wg_peer_public_key p))]
     @ optional_item ''PresharedKey'' (map_option b64 (wg_preshared_key p))
     @ [Setting ''Endpoint'' (endpoint p @ '':'' @ show_nat (unat (wg_endpoint_port p))),
        Setting ''AllowedIPs'' (join '', '' (wg_allowed_ips p))]
     @ optional_item ''PersistentKeepalive'' (map_option (\<lambda>k. show_nat (unat k)) (wg_persistent_keepalive p))"

definition obfuscation_items :: "amneziawg_profile \<Rightarrow> config_item list" where
  "obfuscation_items p =
     [Setting ''Jc'' (show_nat (unat (awg_junk_packet_count p))),
      Setting ''Jmin'' (show_nat (unat (awg_junk_packet_min_size p))),
      Setting ''Jmax'' (show_nat (unat (awg_junk_packet_max_size p))),
      Setting ''S1'' (show_nat (unat (awg_init_packet_junk_size p))),
      Setting ''S2'' (show_nat (unat (awg_response_packet_junk_size p))),
      Setting ''S3'' (show_nat (unat (awg_init_packet_magic_header p))),
      Setting ''S4'' (show_nat (unat (awg_response_packet_magic_header p))),
      Setting ''H1'' (awg_transport_packet_magic_header p),
      Setting ''H2'' (awg_init_packet_magic_header_value p),
      Setting ''H3'' (awg_response_packet_magic_header_value p),
      Setting ''H4'' (awg_transport_packet_magic_header_value p)]
     @ map (\<lambda>(index, value). Setting (CHR ''I'' # show_nat (index + 1)) value) (enumerate 0 (awg_special_junk p))"

lemma setting_line: "setting key value = item_line (Setting key value) @ crlf"
  by (simp add: setting_def)

lemma interface_text: "interface_settings b64 p = text_of (map item_line (interface_items b64 p))"
  by (simp add: interface_settings_def interface_items_def setting_def)

lemma peer_text: "peer_settings b64 p = text_of ([] # map item_line (peer_items b64 p))"
  by (simp add: peer_settings_def peer_items_def setting_def split: option.split)

lemma settings_text:
  "concat (map (\<lambda>(i, v). setting (f i) v) xs) = text_of (map item_line (map (\<lambda>(i, v). Setting (f i) v) xs))"
  by (induction xs) (auto simp: setting_def)

lemma obfuscation_text: "obfuscation_settings p = text_of (map item_line (obfuscation_items p))"
  unfolding obfuscation_settings_def obfuscation_items_def settings_text by (simp add: setting_def)

section \<open>What validation guarantees for the text\<close>

text \<open>The documented alphabet of base64: letters, digits, plus, slash and the padding sign.\<close>

definition base64_ok :: "(u8 list \<Rightarrow> string) \<Rightarrow> bool" where
  "base64_ok b64 \<longleftrightarrow> (\<forall>bs. list_all (\<lambda>c. is_ascii_alphanumeric c \<or> c \<in> set ''+/='') (b64 bs))"

definition one_line :: "string \<Rightarrow> bool" where
  "one_line s \<longleftrightarrow> CHR 10 \<notin> set s"

lemma one_line_append [simp]: "one_line (s @ t) \<longleftrightarrow> one_line s \<and> one_line t"
  by (auto simp: one_line_def)

lemma one_line_Cons [simp]: "one_line (c # s) \<longleftrightarrow> c \<noteq> CHR 10 \<and> one_line s"
  by (auto simp: one_line_def)

lemma one_line_Nil [simp]: "one_line []"
  by (simp add: one_line_def)

lemma one_line_graphic: "list_all is_graphic s \<Longrightarrow> one_line s"
  by (auto simp: one_line_def list_all_iff is_graphic_def)

lemma one_line_join: "list_all one_line ss \<Longrightarrow> one_line (join '', '' ss)"
  by (induction ss) simp_all

lemma one_line_base64: "base64_ok b64 \<Longrightarrow> one_line (b64 bs)"
  unfolding base64_ok_def
  by (rule one_line_graphic)
    (auto elim!: list_all_mono_strong dest!: spec [of _ bs] intro: graphic_intros, simp add: is_graphic_def)

lemma one_line_ip: "one_line (show_ip a)"
  by (rule one_line_graphic, rule list_all_mono_strong [OF show_ip_chars]) (rule ip_char_graphic)

lemma one_line_nat: "one_line (show_nat n)"
  by (rule one_line_graphic) (auto simp: list_all_iff intro: digit_graphic dest: set_show_nat)

lemma one_line_junk: "valid_junk s \<Longrightarrow> valid_utf8 s \<Longrightarrow> one_line s"
  using code_in_chars [of s "chars s" "CHR 10"]
  by (auto simp: one_line_def valid_junk_def valid_utf8_def chars_def is_ascii_def is_control_def list_ex_iff)

lemma one_line_range: "validate_numeric_range v = Inr u \<Longrightarrow> one_line v"
  by (blast intro: one_line_graphic graphic_of_digits_dash dest: validate_numeric_range_chars)

lemmas one_line_values = one_line_join one_line_base64 one_line_ip one_line_nat

lemma key_without_equals: "CHR ''='' \<notin> set (CHR ''I'' # show_nat n)"
  by (auto dest: set_show_nat simp: is_ascii_digit_def)

lemma item_ok_Setting: "CHR ''='' \<notin> set key \<Longrightarrow> one_line key \<Longrightarrow> one_line v \<Longrightarrow> item_ok (Setting key v)"
  by (simp add: one_line_def)

lemma validated_texts:
  assumes "validate_wireguard p = Inr ()"
  shows "one_line (join '', '' (wg_addresses p))" "one_line (join '', '' (wg_allowed_ips p))" "one_line (endpoint p)"
proof -
  from assms have v: "validate_networks (wg_addresses p) 1 8 = Inr ()"
    "validate_networks (wg_allowed_ips p) 1 32 = Inr ()" "validate_endpoint_host (wg_endpoint_host p) = Inr ()"
    by (auto simp: validate_wireguard_def result_simps)
  have "list_all one_line vs" if "list_all (\<lambda>v. list_all is_graphic v \<and> v \<noteq> []) vs" for vs
    using that by (rule list_all_mono_strong) (simp add: one_line_graphic)
  with validate_networks_SomeD [OF v(1)] validate_networks_SomeD [OF v(2)]
  show "one_line (join '', '' (wg_addresses p))" "one_line (join '', '' (wg_allowed_ips p))"
    by (simp_all add: one_line_join)
  show "one_line (endpoint p)"
    using validate_host_chars(1) [OF v(3)] by (simp add: endpoint_def one_line_graphic)
qed

lemma interface_items_ok:
  assumes "base64_ok b64" "validate_wireguard p = Inr ()"
  shows "list_all item_ok (interface_items b64 p)"
proof -
  have "one_line (join '', '' (map show_ip (wg_dns_servers p)))"
    by (rule one_line_join) (simp add: list_all_iff one_line_ip)
  with validated_texts [OF assms(2)] one_line_base64 [OF assms(1)] show ?thesis
    by (simp add: interface_items_def one_line_def)
qed

lemma peer_items_ok:
  assumes "base64_ok b64" "validate_wireguard p = Inr ()"
  shows "list_all item_ok (peer_items b64 p)"
  using validated_texts [OF assms(2)] one_line_base64 [OF assms(1)] one_line_nat
  by (cases "wg_preshared_key p"; cases "wg_persistent_keepalive p") (simp_all add: peer_items_def one_line_def)

lemma obfuscation_items_ok:
  assumes "validate_amneziawg p = Inr ()" "wt_amneziawg p"
  shows "list_all item_ok (obfuscation_items p)"
proof -
  from assms have r: "validate_each_range
      [awg_transport_packet_magic_header p, awg_init_packet_magic_header_value p,
       awg_response_packet_magic_header_value p, awg_transport_packet_magic_header_value p] = Inr ()"
    and j: "list_all valid_junk (awg_special_junk p)"
    by (auto simp: validate_amneziawg_def result_simps list_ex_iff list_all_iff simp del: validate_each_range.simps)
  have junk: "one_line v" if "v \<in> set (awg_special_junk p)" for v
    using that j assms(2) ok_amneziawgD(3) [of p] assms(1)
    by (auto simp: list_all_iff ok_amneziawg_def intro: one_line_junk)
  have "list_all item_ok (map (\<lambda>(index, v). Setting (CHR ''I'' # show_nat (index + 1)) v)
      (enumerate 0 (awg_special_junk p)))"
    using junk key_without_equals one_line_nat
    by (fastforce simp: list_all_iff one_line_def dest: in_set_enumerate_eq [THEN iffD1] nth_mem)
  moreover have "one_line (awg_transport_packet_magic_header p)" "one_line (awg_init_packet_magic_header_value p)"
    "one_line (awg_response_packet_magic_header_value p)" "one_line (awg_transport_packet_magic_header_value p)"
    using r by (auto simp: result_simps intro: one_line_range)
  ultimately show ?thesis using one_line_nat by (simp add: obfuscation_items_def one_line_def)
qed

lemma read_wireguard:
  assumes "base64_ok b64" "validate_wireguard p = Inr ()"
  shows "read_config (render_wireguard b64 p) = interface_items b64 p @ peer_items b64 p"
  using read_config_items [of "interface_items b64 p" "peer_items b64 p"] interface_items_ok [OF assms]
    peer_items_ok [OF assms]
  by (simp add: render_wireguard_def interface_text peer_text)

lemma read_amneziawg:
  assumes "base64_ok b64" "validate_amneziawg p = Inr ()" "wt_amneziawg p"
  shows "read_config (render_amneziawg b64 p)
    = interface_items b64 (awg_wireguard p) @ obfuscation_items p @ peer_items b64 (awg_wireguard p)"
proof -
  have w: "validate_wireguard (awg_wireguard p) = Inr ()"
    using assms(2) by (simp add: validate_amneziawg_def result_simps)
  show ?thesis
    using read_config_items [of "interface_items b64 (awg_wireguard p) @ obfuscation_items p"
        "peer_items b64 (awg_wireguard p)"]
      interface_items_ok [OF assms(1) w] peer_items_ok [OF assms(1) w] obfuscation_items_ok [OF assms(2,3)]
    by (simp add: render_amneziawg_def interface_text peer_text obfuscation_text)
qed

section \<open>The JSON document of Xray\<close>

text \<open>
  The document cut at its quotation marks. Quoted and unquoted parts alternate as long as no value
  brings a quotation mark of its own, so equal cuts mean equal JSON structure.
\<close>

definition vless_tokens :: "vless_profile \<Rightarrow> string list" where
  "vless_tokens p =
     [''{'', ''log'', '':{'', ''loglevel'', '':'', ''none'', ''},'', ''inbounds'', '':[{'', ''tag'', '':'', ''kenai-tun'', '','',
      ''protocol'', '':'', ''tun'', '','', ''settings'', '':{'', ''name'', '':'', ''KenaiXray'', '','', ''desc'', '':'',
      ''Kenai VPN Xray'', '','', ''mtu'', '':1500,'', ''gateway'', '':['', ''10.254.0.1/30'', '','',
      ''fd00:6b65:6e61:69::1/126'', ''],'', ''dns'', '':['', ''1.1.1.1'', '','', ''2606:4700:4700::1111'', ''],'',
      ''autoSystemRoutingTable'', '':['', ''0.0.0.0/0'', '','', ''::/0'', ''],'', ''autoOutboundsInterface'', '':'',
      ''auto'', ''}}],'', ''outbounds'', '':[{'', ''tag'', '':'', ''proxy'', '','', ''protocol'', '':'', ''vless'', '','',
      ''settings'', '':{'', ''address'', '':'', vl_endpoint_host p, '','', ''port'',
      '':'' @ show_nat (unat (vl_endpoint_port p)) @ '','', ''id'', '':'', vl_client_id p, '','', ''encryption'', '':'',
      ''none'', '','', ''flow'', '':'', ''xtls-rprx-vision'', ''},'', ''streamSettings'', '':{'', ''network'', '':'', ''raw'',
      '','', ''security'', '':'', ''reality'', '','', ''realitySettings'', '':{'', ''serverName'', '':'', vl_server_name p,
      '','', ''fingerprint'', '':'', vl_fingerprint p, '','', ''password'', '':'', vl_reality_password p, '','',
      ''shortId'', '':'', vl_short_id p, '','', ''spiderX'', '':'', ''/'', ''}}}]}'']"

definition quote :: char where
  "quote = char_of (34 :: nat)"

lemma render_vless_tokens: "render_vless p = join [quote] (vless_tokens p)"
proof -
  have q: "quote = CHR 0x22" by code_simp
  show ?thesis unfolding render_vless_def vless_tokens_def q by simp
qed

lemma split_on_join:
  "xs \<noteq> [] \<Longrightarrow> \<forall>x \<in> set xs. d \<notin> set x \<Longrightarrow> split_on d (join [d] xs) = xs"
proof (induction xs)
  case (Cons x xs)
  then show ?case
    using split_on_append_sep [of d x "join [d] xs"] by (cases xs) (simp_all add: split_on_no_sep)
qed simp

lemma plain_no_quote: "list_all (\<lambda>c. is_graphic c \<and> c \<noteq> quote) s \<Longrightarrow> quote \<notin> set s"
  by (auto simp: list_all_iff)

lemma quote_chars [simp]: "\<not> is_ascii_alphanumeric quote" "\<not> is_ascii_hexdigit quote" "\<not> identifier_char quote"
  "\<not> is_ascii_digit quote" "quote \<noteq> CHR ''-''" "quote \<noteq> CHR ''.''" "quote \<noteq> CHR '':''"
  by code_simp+

lemma validated_no_quote:
  assumes "validate_vless p = Inr ()"
  shows "quote \<notin> set (vl_endpoint_host p)" "quote \<notin> set (vl_client_id p)" "quote \<notin> set (vl_server_name p)"
    "quote \<notin> set (vl_fingerprint p)" "quote \<notin> set (vl_reality_password p)" "quote \<notin> set (vl_short_id p)"
proof -
  from assms have v: "validate_uuid (vl_client_id p) = Inr ()" "validate_endpoint_host (vl_endpoint_host p) = Inr ()"
    "validate_endpoint_host (vl_server_name p) = Inr ()" "vl_fingerprint p = ''chrome''"
    "list_all identifier_char (vl_reality_password p)" "list_all is_ascii_hexdigit (vl_short_id p)"
    by (auto simp: validate_vless_def result_simps)
  show "quote \<notin> set (vl_endpoint_host p)" "quote \<notin> set (vl_server_name p)"
    using validate_host_chars(3) [OF v(2)] validate_host_chars(3) [OF v(3)] by (auto simp: list_all_iff)
  show "quote \<notin> set (vl_client_id p)"
    using validate_uuid_chars(2) [OF v(1)] by (auto simp: list_all_iff)
  show "quote \<notin> set (vl_fingerprint p)" unfolding v(4) by code_simp
  show "quote \<notin> set (vl_reality_password p)" "quote \<notin> set (vl_short_id p)"
    using v(5,6) by (auto simp: list_all_iff)
qed

lemma literals_no_quote:
  "list_all (\<lambda>t. quote \<notin> set t) (vless_tokens \<lparr>vl_client_id = [], vl_endpoint_host = [], vl_endpoint_port = 0,
     vl_server_name = [], vl_fingerprint = [], vl_reality_password = [], vl_short_id = [], vl_spider_x = []\<rparr>)"
  by code_simp

lemma vless_tokens_no_quote:
  assumes "validate_vless p = Inr ()"
  shows "\<forall>t \<in> set (vless_tokens p). quote \<notin> set t"
proof -
  have "quote \<notin> set (show_nat n)" for n by (auto dest: set_show_nat)
  with validated_no_quote [OF assms] literals_no_quote show ?thesis
    by (simp add: vless_tokens_def)
qed

lemma cut_vless: "validate_vless p = Inr () \<Longrightarrow> split_on quote (render_vless p) = vless_tokens p"
  unfolding render_vless_tokens by (rule split_on_join [OF _ vless_tokens_no_quote]) (simp_all add: vless_tokens_def)

text \<open>The document has no escapes: no literal and no validated value contains a backslash.\<close>

definition backslash :: char where
  "backslash = char_of (92 :: nat)"

lemma backslash_chars [simp]: "\<not> is_ascii_alphanumeric backslash" "\<not> is_ascii_hexdigit backslash"
  "\<not> identifier_char backslash" "\<not> is_ascii_digit backslash" "backslash \<noteq> CHR ''-''" "backslash \<noteq> CHR ''.''"
  "backslash \<noteq> CHR '':''" "backslash \<noteq> quote"
  by code_simp+

lemma literals_no_backslash:
  "list_all (\<lambda>t. backslash \<notin> set t) (vless_tokens \<lparr>vl_client_id = [], vl_endpoint_host = [], vl_endpoint_port = 0,
     vl_server_name = [], vl_fingerprint = [], vl_reality_password = [], vl_short_id = [], vl_spider_x = []\<rparr>)"
  by code_simp

lemma render_vless_no_backslash:
  assumes "validate_vless p = Inr ()"
  shows "backslash \<notin> set (render_vless p)"
proof -
  from assms have v: "validate_uuid (vl_client_id p) = Inr ()" "validate_endpoint_host (vl_endpoint_host p) = Inr ()"
    "validate_endpoint_host (vl_server_name p) = Inr ()" "vl_fingerprint p = ''chrome''"
    "list_all identifier_char (vl_reality_password p)" "list_all is_ascii_hexdigit (vl_short_id p)"
    by (auto simp: validate_vless_def result_simps)
  have hosts: "backslash \<notin> set (vl_endpoint_host p)" "backslash \<notin> set (vl_server_name p)"
    using validate_host_chars(3) [OF v(2)] validate_host_chars(3) [OF v(3)] by (auto simp: list_all_iff)
  have ids: "backslash \<notin> set (vl_client_id p)" "backslash \<notin> set (vl_reality_password p)" "backslash \<notin> set (vl_short_id p)"
    using validate_uuid_chars(2) [OF v(1)] v(5,6) by (auto simp: list_all_iff)
  have print: "backslash \<notin> set (vl_fingerprint p)" unfolding v(4) by code_simp
  have "backslash \<notin> set (show_nat n)" for n by (auto dest: set_show_nat)
  with hosts ids print literals_no_backslash have "\<forall>t \<in> set (vless_tokens p). backslash \<notin> set t"
    by (simp add: vless_tokens_def)
  then show ?thesis using set_join [of "[quote]" "vless_tokens p"] by (fastforce simp: render_vless_tokens)
qed

section \<open>What the statistics readers accept\<close>

text \<open>The conversion of the handshake time never fails: the greatest filetime is far below the limit.\<close>

lemma handshake_total:
  "handshake_ms w = Some (if w = 0 then None else Some (word_of_nat (unat w div 10000 - 11644473600000)))"
proof -
  have "unat w div 10000 - 11644473600000 < 2 ^ 63" using unat_bound [of w] by simp
  then show ?thesis by (simp add: handshake_ms_def Let_def)
qed

lemma byte_range_append:
  "length front = n \<Longrightarrow> length mid = k \<Longrightarrow> byte_range (front @ mid @ rest) n (n + k) = Some mid"
  by (simp add: byte_range_def)

lemma read_u64_at:
  "length front = n \<Longrightarrow> n + 8 < usize_limit \<Longrightarrow> read_u64 (front @ u64_to_le w @ rest) n = Some w"
  using byte_range_append [of front n "u64_to_le w" 8 rest] by (simp add: read_u64_def)

lemma read_u32_at:
  "length front = n \<Longrightarrow> n + 4 < usize_limit \<Longrightarrow> read_u32 (front @ u32_to_le w @ rest) n = Some w"
  using byte_range_append [of front n "u32_to_le w" 4 rest] by (simp add: read_u32_def)

text \<open>The record of the driver: an interface with a peer count, then the peer with its three counters.\<close>

definition driver_record :: "u8 list \<Rightarrow> u32 \<Rightarrow> u8 list \<Rightarrow> u8 list \<Rightarrow> u64 \<Rightarrow> u64 \<Rightarrow> u64 \<Rightarrow> u8 list \<Rightarrow> u8 list" where
  "driver_record head peers pad keys sent received filetime rest =
     head @ u32_to_le peers @ pad @ keys @ u64_to_le sent @ u64_to_le received @ u64_to_le filetime @ rest"

lemma parse_driver_fields:
  assumes "\<not> length buffer < 80" "read_u32 buffer 72 = Some peers" "byte_range buffer 80 (80 + 136) = Some peer"
    "read_u64 peer 104 = Some sent" "read_u64 peer 112 = Some received" "read_u64 peer 120 = Some filetime"
  shows "parse_driver_statistics buffer =
    (if peers \<noteq> 1 then Inl BackendInvalidProfile
     else Inr \<lparr>ts_bytes_received = received, ts_bytes_sent = sent,
       ts_last_handshake_unix_ms =
         (if filetime = 0 then None else Some (word_of_nat (unat filetime div 10000 - 11644473600000)))\<rparr>)"
  using assms by (simp add: parse_driver_statistics_def handshake_total)

lemma parse_driver_record:
  assumes "length head = 72" "length pad = 4" "length keys = 104" "8 \<le> length rest"
  shows "parse_driver_statistics (driver_record head peers pad keys sent received filetime rest) =
    (if peers \<noteq> 1 then Inl BackendInvalidProfile
     else Inr \<lparr>ts_bytes_received = received, ts_bytes_sent = sent,
       ts_last_handshake_unix_ms =
         (if filetime = 0 then None else Some (word_of_nat (unat filetime div 10000 - 11644473600000)))\<rparr>)"
proof -
  let ?peer = "keys @ u64_to_le sent @ u64_to_le received @ u64_to_le filetime @ take 8 rest"
  have count: "read_u32 (driver_record head peers pad keys sent received filetime rest) 72 = Some peers"
    unfolding driver_record_def by (rule read_u32_at) (simp_all add: assms usize_limit_def)
  have "driver_record head peers pad keys sent received filetime rest
      = (head @ u32_to_le peers @ pad) @ ?peer @ drop 8 rest"
    by (simp add: driver_record_def)
  then have peer: "byte_range (driver_record head peers pad keys sent received filetime rest) 80 (80 + 136) = Some ?peer"
    using byte_range_append [of "head @ u32_to_le peers @ pad" 80 ?peer 136 "drop 8 rest"] assms by simp
  have "read_u64 ?peer 104 = Some sent" by (rule read_u64_at) (simp_all add: assms usize_limit_def)
  moreover have "read_u64 ?peer 112 = Some received"
    using read_u64_at [of "keys @ u64_to_le sent" 112 received] by (simp add: assms usize_limit_def)
  moreover have "read_u64 ?peer 120 = Some filetime"
    using read_u64_at [of "keys @ u64_to_le sent @ u64_to_le received" 120 filetime] by (simp add: assms usize_limit_def)
  moreover have "\<not> length (driver_record head peers pad keys sent received filetime rest) < 80"
    by (simp add: driver_record_def assms)
  ultimately show ?thesis
    using count peer by (intro parse_driver_fields)
qed

text \<open>Every buffer the parser accepts is such a record.\<close>

lemma parse_driver_Inr:
  assumes "parse_driver_statistics buffer = Inr stats"
  shows "216 \<le> length buffer"
proof -
  from assms obtain peer where "byte_range buffer 80 (80 + 136) = Some peer"
    by (auto simp: parse_driver_statistics_def result_simps split: if_splits)
  then show ?thesis by (simp add: byte_range_def split: if_splits)
qed

text \<open>The dump of \<open>awg show\<close>: one line per interface and peer, fields separated by tabulators.\<close>

lemma split_on_two_lines:
  assumes "CHR 10 \<notin> set l1" "CHR 10 \<notin> set l2"
  shows "str_lines (l1 @ [CHR 10] @ l2 @ [CHR 10] @ rest) = strip_cr l1 # strip_cr l2 # str_lines rest"
proof -
  have "split_on (CHR 10) (l1 @ [CHR 10] @ l2 @ [CHR 10] @ rest) = l1 # l2 # split_on (CHR 10) rest"
    using split_on_append_sep [of "CHR 10" l1] split_on_append_sep [of "CHR 10" l2] assms
    by (simp add: split_on_no_sep)
  then show ?thesis by (simp add: str_lines_def Let_def)
qed

lemma strip_cr_no: "CHR 13 \<notin> set l \<Longrightarrow> strip_cr l = l"
  by (cases l rule: rev_cases) (auto simp: strip_cr_def ends_with_def)

definition dump_field :: "string \<Rightarrow> bool" where
  "dump_field f \<longleftrightarrow> set f \<inter> set [CHR 9, CHR 10, CHR 13] = {}"

lemma dump_field_nat: "dump_field (show_nat n)"
  by (auto simp: dump_field_def is_ascii_digit_def dest!: set_show_nat)

definition dump_text :: "string \<Rightarrow> string list \<Rightarrow> nat \<Rightarrow> nat \<Rightarrow> nat \<Rightarrow> string list \<Rightarrow> string \<Rightarrow> string" where
  "dump_text interface front handshake received sent later rest =
     interface @ [CHR 10]
     @ join [CHR 9] (front @ [show_nat handshake, show_nat received, show_nat sent] @ later) @ [CHR 10] @ rest"

lemma set_join_fields: "list_all dump_field fs \<Longrightarrow> set (join [CHR 9] fs) \<inter> set [CHR 10, CHR 13] = {}"
  using set_join [of "[CHR 9]" fs] by (fastforce simp: dump_field_def list_all_iff)

lemma parse_i64_show: "n < 2 ^ 63 \<Longrightarrow> parse_i64 (show_nat n) = Some (int n)"
proof -
  assume n: "n < 2 ^ 63"
  have d: "\<forall>c \<in> set (show_nat n). is_ascii_digit c" using set_show_nat by blast
  obtain c t where ct: "show_nat n = c # t" by (cases "show_nat n") (auto simp: show_nat_def)
  have "c \<noteq> CHR ''+''" "c \<noteq> CHR ''-''" using d ct by (auto simp: is_ascii_digit_def)
  with ct n parse_digits_show [of n "2 ^ 63 - 1"] show ?thesis by (simp add: parse_i64_def)
qed

lemma parse_dump:
  assumes "CHR 10 \<notin> set interface" "length front = 4" "list_all dump_field (front @ later)" "later \<noteq> []"
    "handshake < 2 ^ 63" "received < 2 ^ 64" "sent < 2 ^ 64"
  shows "parse_dump_statistics (dump_text interface front handshake received sent later rest) =
    Inr \<lparr>ts_bytes_received = word_of_nat received, ts_bytes_sent = word_of_nat sent,
      ts_last_handshake_unix_ms =
        (if 0 < handshake then Some (word_of_int (min (2 ^ 63 - 1) (int handshake * 1000))) else None)\<rparr>"
proof -
  let ?fields = "front @ [show_nat handshake, show_nat received, show_nat sent] @ later"
  have ok: "list_all dump_field ?fields" using assms(3) by (simp add: dump_field_nat)
  note chars = set_join_fields [OF ok]
  have "drop 1 (str_lines (dump_text interface front handshake received sent later rest))
      = join [CHR 9] ?fields # str_lines rest"
    unfolding dump_text_def using chars
    by (subst split_on_two_lines [OF assms(1)]) (auto simp: strip_cr_no)
  moreover have "split_on (CHR 9) (join [CHR 9] ?fields) = ?fields"
    by (rule split_on_join) (use ok in \<open>auto simp: list_all_iff dump_field_def\<close>)
  moreover have "?fields ! 4 = show_nat handshake" "?fields ! 5 = show_nat received" "?fields ! 6 = show_nat sent"
    using assms(2) by (simp_all add: nth_append)
  moreover have "\<not> length ?fields < 8" using assms(2,4) by (cases later) simp_all
  ultimately show ?thesis
    using assms(5-7) parse_i64_show [of handshake] parse_unsigned_show [of received u64_max]
      parse_unsigned_show [of sent u64_max]
    by (simp add: parse_dump_statistics_def Let_def u64_max_def i64_saturating_mul_def)
qed

end
