(* ===== verification/Engines.thy ===== *)
theory Engines
  imports Os_Services Engine_Config
begin

text \<open>
  The WireGuard and AmneziaWG engines of \<open>services/windows_vpn_service/src/wireguard_engine.rs\<close> and
  \<open>amneziawg_engine.rs\<close>: a tunnel is a Windows service that the engine creates from a configuration
  file, waits for and deletes. The hash of the \<open>sha2\<close> crate, printed in hexadecimal, is the parameter
  \<open>sha\<close>, the base64 encoder the parameter \<open>b64\<close>.
\<close>

section \<open>Steps the engines share\<close>

type_synonym 'a engine_op = "(backend_failure, 'a) os_op"

definition or_fail :: "backend_failure \<Rightarrow> ('e, 'a) os_op \<Rightarrow> 'a engine_op" where
  "or_fail failure operation s = (case operation s of (r, t) \<Rightarrow> (map_err (\<lambda>_. failure) r, t))"

definition ignoring :: "('e, 'a) os_op \<Rightarrow> unit engine_op" where
  "ignoring operation s = (Inr (), snd (operation s))"

definition returning :: "backend_failure + 'a \<Rightarrow> 'a engine_op" where
  "returning r s = (r, s)"

definition verify_hash :: "(u8 list \<Rightarrow> string) \<Rightarrow> string \<Rightarrow> string \<Rightarrow> unit engine_op" where
  "verify_hash sha path expected =
     try_then (or_fail EngineUnavailable (fs_read path)) (\<lambda>bytes.
       returning (if sha bytes = expected then Inr () else Inl EngineUnavailable))"

definition remove_if_present :: "string \<Rightarrow> unit engine_op" where
  "remove_if_present path s =
     (case fs_remove_file path s of
        (Inr u, t) \<Rightarrow> (Inr (), t)
      | (Inl e, t) \<Rightarrow> (if e = NotFound then Inr () else Inl Internal, t))"

text \<open>\<open>write_all\<close> and \<open>sync_all\<close> on a new file, removing it if they fail.\<close>

definition write_or_remove :: "string \<Rightarrow> u8 list \<Rightarrow> unit engine_op" where
  "write_or_remove path bytes s =
     (case fs_write_synced path bytes s of
        (Inr u, t) \<Rightarrow> (Inr (), t)
      | (Inl e, t) \<Rightarrow> (Inl Internal, snd (fs_remove_file path t)))"

text \<open>Both structs have the same three fields.\<close>

record tunnel_backend =
  tb_executable :: string
  tb_runtime_root :: string
  tb_config_path :: string

definition product_root :: "string \<Rightarrow> string \<Rightarrow> backend_failure + string" where
  "product_root product executable =
     (case path_parent executable of
        None \<Rightarrow> Inl EngineUnavailable
      | Some parent \<Rightarrow> Inr (path_join (path_join parent product) ''amd64''))"

text \<open>Stopping and deleting the tunnel service of an engine; a service that cannot be opened is skipped.\<close>

definition delete_service :: "string \<Rightarrow> nat \<Rightarrow> unit engine_op" where
  "delete_service name timeout =
     try_then (or_fail EngineUnavailable svc_manager) (\<lambda>_ s.
       (case svc_open name s of
          (Inl e, t) \<Rightarrow> (Inr (), t)
        | (Inr u, t) \<Rightarrow>
            try_then (or_fail Internal (svc_query name)) (\<lambda>state.
            try_then
              (if state \<noteq> Svc_Stopped then
                 try_then (or_fail Internal (svc_stop name)) (\<lambda>_.
                   or_fail Internal (wait_for_state name Svc_Stopped timeout))
               else returning (Inr ())) (\<lambda>_.
              or_fail Internal (svc_delete name))) t))"

text \<open>Creating the service, starting it and waiting until it runs.\<close>

definition run_service :: "string \<Rightarrow> string list \<Rightarrow> nat \<Rightarrow> unit engine_op" where
  "run_service name command timeout =
     try_then (or_fail EngineUnavailable svc_manager) (\<lambda>_.
     try_then (or_fail Internal (svc_create name command)) (\<lambda>_.
     try_then (or_fail Internal (svc_set_sid name)) (\<lambda>_.
     try_then (or_fail Internal (svc_start name)) (\<lambda>_.
       or_fail BackendServerUnavailable (wait_for_state name Svc_Running timeout)))))"

definition service_running :: "string \<Rightarrow> bool engine_op" where
  "service_running name =
     try_then (or_fail EngineUnavailable svc_manager) (\<lambda>_ s.
       (case svc_open name s of
          (Inl e, t) \<Rightarrow> (Inr False, t)
        | (Inr u, t) \<Rightarrow>
            try_then (or_fail Internal (svc_query name)) (\<lambda>state. returning (Inr (state = Svc_Running))) t))"

text \<open>
  \<open>system_default\<close>: the directory of the runtime files, made if needed and protected by an access list,
  and the cleanup of what an earlier run left.
\<close>

text \<open>\<open>apply_service_acl\<close> converts the fixed security descriptor and sets it on the path.\<close>

definition apply_service_acl :: "(unit, unit) os_op" where
  "apply_service_acl = try_then os_result (\<lambda>converted. os_result)"

definition program_data_directory :: "string option \<Rightarrow> unit + string" where
  "program_data_directory variable = ok_or () (case variable of None \<Rightarrow> None | Some d \<Rightarrow> if d = [] then None else Some d)"

definition runtime_directory :: "string option \<Rightarrow> (unit, string) os_op" where
  "runtime_directory program_data =
     try_then os_result (\<lambda>executable_found.
     try_then (\<lambda>s. (program_data_directory program_data, s)) (\<lambda>d.
     try_then os_result (\<lambda>created.
     try_then apply_service_acl (\<lambda>_ s. (Inr (path_join (path_join d ''KenaiVPN'') ''runtime''), s)))))"

definition tunnel_system_default ::
  "string \<Rightarrow> (tunnel_backend \<Rightarrow> unit engine_op) \<Rightarrow> string \<Rightarrow> string option \<Rightarrow> (unit, tunnel_backend) os_op" where
  "tunnel_system_default tunnel_name cleanup executable program_data =
     try_then (runtime_directory program_data) (\<lambda>runtime_root s.
       let e = \<lparr>tb_executable = executable, tb_runtime_root = runtime_root,
                tb_config_path = path_join runtime_root (tunnel_name @ ''.conf'')\<rparr>
       in case cleanup e s of (Inl error, t) \<Rightarrow> (Inl (), t) | (Inr u, t) \<Rightarrow> (Inr e, t))"

section \<open>WireGuard\<close>

definition WG_TUNNEL_NAME :: string where
  "WG_TUNNEL_NAME = ''KenaiMvp''"

definition WG_SERVICE_NAME :: string where
  "WG_SERVICE_NAME = ''WireGuardTunnel$KenaiMvp''"

definition TUNNEL_SHA256 :: string where
  "TUNNEL_SHA256 = ''5533cf9cb741d5e9daa7f429aa1c56beba4a500934877c9d072f721f512583ca''"

definition DRIVER_SHA256 :: string where
  "DRIVER_SHA256 = ''b1b85e072c45d81358be29d94c599dc76652f912be8c0f0a41e2d5d89a6461d3''"

definition WG_TIMEOUT :: nat where
  "WG_TIMEOUT = 30000"

definition wireguard_payload_root :: "tunnel_backend \<Rightarrow> backend_failure + string" where
  "wireguard_payload_root e = product_root ''wireguard'' (tb_executable e)"

definition wireguard_verify_payloads :: "(u8 list \<Rightarrow> string) \<Rightarrow> tunnel_backend \<Rightarrow> unit engine_op" where
  "wireguard_verify_payloads sha e =
     try_then (returning (wireguard_payload_root e)) (\<lambda>root.
     try_then (verify_hash sha (path_join root ''tunnel.dll'') TUNNEL_SHA256) (\<lambda>_.
       verify_hash sha (path_join root ''wireguard.dll'') DRIVER_SHA256))"

definition wireguard_temporary :: "tunnel_backend \<Rightarrow> string" where
  "wireguard_temporary e = path_join (tb_runtime_root e) (WG_TUNNEL_NAME @ ''.conf.new'')"

definition wireguard_write_config ::
  "(u8 list \<Rightarrow> string) \<Rightarrow> tunnel_backend \<Rightarrow> wireguard_profile \<Rightarrow> unit engine_op" where
  "wireguard_write_config b64 e profile =
     try_then (ignoring (fs_remove_file (wireguard_temporary e))) (\<lambda>_.
     try_then (or_fail Internal (fs_create_new (wireguard_temporary e))) (\<lambda>_.
     try_then (write_or_remove (wireguard_temporary e) (as_bytes (render_wireguard b64 profile))) (\<lambda>_.
       or_fail Internal (fs_rename (wireguard_temporary e) (tb_config_path e)))))"

definition wireguard_create_and_start_service :: "tunnel_backend \<Rightarrow> unit engine_op" where
  "wireguard_create_and_start_service e =
     try_then
       (run_service WG_SERVICE_NAME [tb_executable e, ''/wireguard-service'', tb_config_path e] WG_TIMEOUT)
       (\<lambda>_. or_fail Internal (fs_remove_file (tb_config_path e)))"

definition wireguard_cleanup_stale :: "tunnel_backend \<Rightarrow> unit engine_op" where
  "wireguard_cleanup_stale e =
     try_then (delete_service WG_SERVICE_NAME WG_TIMEOUT) (\<lambda>_.
     try_then (remove_if_present (tb_config_path e)) (\<lambda>_. remove_if_present (wireguard_temporary e)))"

definition wireguard_system_default :: "string \<Rightarrow> string option \<Rightarrow> (unit, tunnel_backend) os_op" where
  "wireguard_system_default = tunnel_system_default WG_TUNNEL_NAME wireguard_cleanup_stale"

definition wireguard_connect ::
  "(u8 list \<Rightarrow> string) \<Rightarrow> (u8 list \<Rightarrow> string) \<Rightarrow> tunnel_backend \<Rightarrow> wireguard_profile \<Rightarrow> bool \<Rightarrow> unit engine_op" where
  "wireguard_connect b64 sha e profile kill_switch =
     (if kill_switch then returning (Inl UnsupportedFeature)
      else try_then (returning (map_err (\<lambda>_. BackendInvalidProfile) (validate_wireguard profile))) (\<lambda>_.
        try_then (wireguard_cleanup_stale e) (\<lambda>_.
        try_then (wireguard_verify_payloads sha e) (\<lambda>_.
        try_then (wireguard_write_config b64 e profile) (\<lambda>_ s.
          (case wireguard_create_and_start_service e s of
             (Inl error, t) \<Rightarrow> (Inl error, snd (wireguard_cleanup_stale e t))
           | (Inr u, t) \<Rightarrow> (Inr (), t)))))))"

definition wireguard_disconnect :: "tunnel_backend \<Rightarrow> unit engine_op" where
  "wireguard_disconnect = wireguard_cleanup_stale"

definition wireguard_is_connected :: "tunnel_backend \<Rightarrow> bool engine_op" where
  "wireguard_is_connected e = service_running WG_SERVICE_NAME"

text \<open>
  The driver is asked for its configuration with a growing buffer; \<open>overwritten\<close> is the buffer after the
  driver wrote its bytes to the front of it.
\<close>

definition overwritten :: "u8 list \<Rightarrow> u8 list \<Rightarrow> u8 list" where
  "overwritten bytes buffer = take (length buffer) (bytes @ drop (length bytes) buffer)"

function read_adapter :: "u8 list \<Rightarrow> tunnel_statistics engine_op" where
  "read_adapter buffer s =
     (if 2 ^ 32 \<le> length buffer then (Inl Internal, s)
      else case en_driver (os_env s) (os_clock s) (length buffer) of
        (True, used, bytes) \<Rightarrow>
          (parse_driver_statistics (take (unat used) (overwritten bytes buffer)), snd (os_call s))
      | (False, required, bytes) \<Rightarrow>
          if unat required \<le> length buffer \<or> 64 * 1024 < unat required then (Inl Internal, snd (os_call s))
          else read_adapter (overwritten bytes buffer @ replicate (unat required - length buffer) 0) (snd (os_call s)))"
  by pat_completeness auto

termination
  by (relation "measure (\<lambda>(buffer, s). 64 * 1024 - length buffer)") (auto simp: overwritten_def)

declare read_adapter.simps [simp del]

definition wireguard_read_statistics ::
  "(u8 list \<Rightarrow> string) \<Rightarrow> tunnel_backend \<Rightarrow> tunnel_statistics engine_op" where
  "wireguard_read_statistics sha e =
     try_then (wireguard_verify_payloads sha e) (\<lambda>_.
     try_then (returning (wireguard_payload_root e)) (\<lambda>root.
     try_then (or_fail EngineUnavailable os_result) (\<lambda>library s.
       (case os_result s of (open_symbol, s) \<Rightarrow>
        case os_result s of (close_symbol, s) \<Rightarrow>
        case os_result s of (get_symbol, s) \<Rightarrow>
          if \<not> is_ok open_symbol \<or> \<not> is_ok close_symbol \<or> \<not> is_ok get_symbol then (Inl EngineUnavailable, s)
          else try_then (or_fail EngineUnavailable os_result) (\<lambda>adapter. read_adapter (replicate 512 0)) s))))"

section \<open>AmneziaWG\<close>

definition AWG_TUNNEL_NAME :: string where
  "AWG_TUNNEL_NAME = ''KenaiAwg''"

definition AWG_SERVICE_NAME :: string where
  "AWG_SERVICE_NAME = ''AmneziaWGTunnel$KenaiAwg''"

definition ENGINE_SHA256 :: string where
  "ENGINE_SHA256 = ''5b00905ed02619fe149ceafc898e79993d4455a0cdfa92072b3bb9aee7b2d537''"

definition TOOLS_SHA256 :: string where
  "TOOLS_SHA256 = ''26ac0be14a8353eacf2f933736f6f7912f89ec7c59c4190cc990492934c74537''"

definition WINTUN_SHA256 :: string where
  "WINTUN_SHA256 = ''e5da8447dc2c320edc0fc52fa01885c103de8c118481f683643cacc3220dafce''"

definition AWG_TIMEOUT :: nat where
  "AWG_TIMEOUT = 30000"

definition amneziawg_payload_root :: "tunnel_backend \<Rightarrow> backend_failure + string" where
  "amneziawg_payload_root e = product_root ''amneziawg'' (tb_executable e)"

definition amneziawg_verify_payloads :: "(u8 list \<Rightarrow> string) \<Rightarrow> tunnel_backend \<Rightarrow> unit engine_op" where
  "amneziawg_verify_payloads sha e =
     try_then (returning (amneziawg_payload_root e)) (\<lambda>root.
     try_then (verify_hash sha (path_join root ''amneziawg.exe'') ENGINE_SHA256) (\<lambda>_.
     try_then (verify_hash sha (path_join root ''awg.exe'') TOOLS_SHA256) (\<lambda>_.
       verify_hash sha (path_join root ''wintun.dll'') WINTUN_SHA256)))"

definition amneziawg_temporary :: "tunnel_backend \<Rightarrow> string" where
  "amneziawg_temporary e = path_join (tb_runtime_root e) (AWG_TUNNEL_NAME @ ''.conf.new'')"

definition amneziawg_write_config ::
  "(u8 list \<Rightarrow> string) \<Rightarrow> tunnel_backend \<Rightarrow> amneziawg_profile \<Rightarrow> unit engine_op" where
  "amneziawg_write_config b64 e profile =
     try_then (remove_if_present (amneziawg_temporary e)) (\<lambda>_.
     try_then (or_fail Internal (fs_create_new (amneziawg_temporary e))) (\<lambda>_.
     try_then (write_or_remove (amneziawg_temporary e) (as_bytes (render_amneziawg b64 profile))) (\<lambda>_.
       or_fail Internal (fs_rename (amneziawg_temporary e) (tb_config_path e)))))"

definition amneziawg_start_service :: "tunnel_backend \<Rightarrow> unit engine_op" where
  "amneziawg_start_service e =
     try_then (returning (amneziawg_payload_root e)) (\<lambda>root.
     try_then
       (run_service AWG_SERVICE_NAME
         [path_join root ''amneziawg.exe'', ''/tunnelservice'', tb_config_path e] AWG_TIMEOUT)
       (\<lambda>_. remove_if_present (tb_config_path e)))"

definition amneziawg_cleanup_stale :: "tunnel_backend \<Rightarrow> unit engine_op" where
  "amneziawg_cleanup_stale e =
     try_then (delete_service AWG_SERVICE_NAME AWG_TIMEOUT) (\<lambda>_.
     try_then (remove_if_present (tb_config_path e)) (\<lambda>_. remove_if_present (amneziawg_temporary e)))"

definition amneziawg_system_default :: "string \<Rightarrow> string option \<Rightarrow> (unit, tunnel_backend) os_op" where
  "amneziawg_system_default = tunnel_system_default AWG_TUNNEL_NAME amneziawg_cleanup_stale"

definition amneziawg_connect ::
  "(u8 list \<Rightarrow> string) \<Rightarrow> (u8 list \<Rightarrow> string) \<Rightarrow> tunnel_backend \<Rightarrow> amneziawg_profile \<Rightarrow> bool \<Rightarrow> unit engine_op" where
  "amneziawg_connect b64 sha e profile kill_switch =
     (if kill_switch then returning (Inl UnsupportedFeature)
      else try_then (returning (map_err (\<lambda>_. BackendInvalidProfile) (validate_amneziawg profile))) (\<lambda>_.
        try_then (amneziawg_cleanup_stale e) (\<lambda>_.
        try_then (amneziawg_verify_payloads sha e) (\<lambda>_.
        try_then (amneziawg_write_config b64 e profile) (\<lambda>_ s.
          (case amneziawg_start_service e s of
             (Inl error, t) \<Rightarrow> (Inl error, snd (amneziawg_cleanup_stale e t))
           | (Inr u, t) \<Rightarrow> (Inr (), t)))))))"

definition amneziawg_disconnect :: "tunnel_backend \<Rightarrow> unit engine_op" where
  "amneziawg_disconnect = amneziawg_cleanup_stale"

definition amneziawg_is_connected :: "tunnel_backend \<Rightarrow> bool engine_op" where
  "amneziawg_is_connected e = service_running AWG_SERVICE_NAME"

definition amneziawg_read_statistics ::
  "(u8 list \<Rightarrow> string) \<Rightarrow> tunnel_backend \<Rightarrow> tunnel_statistics engine_op" where
  "amneziawg_read_statistics sha e =
     try_then (amneziawg_verify_payloads sha e) (\<lambda>_.
     try_then (returning (amneziawg_payload_root e)) (\<lambda>root.
     try_then (or_fail EngineUnavailable (run_command [path_join root ''awg.exe'', ''show'', AWG_TUNNEL_NAME, ''dump'']))
       (\<lambda>(status, output).
         if status \<noteq> Some 0 \<or> 16 * 1024 < length output then returning (Inl Internal)
         else try_then (returning (ok_or Internal (from_utf8 output)))
           (\<lambda>text. returning (parse_dump_statistics text)))))"

end
