(* ===== verification/Windows_Backend.thy ===== *)
theory Windows_Backend
  imports Engines
begin

text \<open>
  The Xray engine of \<open>services/windows_vpn_service/src/xray_engine.rs\<close>, which runs a child process in a
  kill-on-close job, and \<open>WindowsVpnBackend\<close> of \<open>windows_backend.rs\<close>, which selects among the three
  engines. The state is the operating system with the two fields that change: the Xray process
  and the active engine.
\<close>

datatype active_engine = ActiveWireGuard | ActiveAmneziaWg | ActiveXray

record host =
  ho_os :: os
  ho_process :: "nat option"
  ho_active :: "active_engine option"

type_synonym 'a host_op = "host \<Rightarrow> (backend_failure + 'a) \<times> host"

definition on_os :: "'a engine_op \<Rightarrow> 'a host_op" where
  "on_os operation h = (case operation (ho_os h) of (r, s) \<Rightarrow> (r, h\<lparr>ho_os := s\<rparr>))"

definition on_os_pure :: "(os \<Rightarrow> os) \<Rightarrow> unit host_op" where
  "on_os_pure f h = (Inr (), h\<lparr>ho_os := f (ho_os h)\<rparr>)"

section \<open>The Xray engine\<close>

record xray_backend =
  xb_executable :: string
  xb_runtime_root :: string
  xb_config_path :: string

definition XRAY_SHA256 :: string where
  "XRAY_SHA256 = ''15c2d007954ac53ba69b80ec91242786b3c0b71d52649165b4ca1d5cc96ef8f1''"

definition XRAY_WINTUN_SHA256 :: string where
  "XRAY_WINTUN_SHA256 = ''e5da8447dc2c320edc0fc52fa01885c103de8c118481f683643cacc3220dafce''"

definition START_GRACE :: nat where
  "START_GRACE = 750"

text \<open>
  \<open>KillOnCloseJob::create\<close> makes two calls; a job that cannot be configured is closed with nothing in it.
\<close>

definition job_create :: "unit engine_op" where
  "job_create = try_then (or_fail Internal os_result) (\<lambda>_. or_fail Internal os_result)"

definition xray_is_running :: "nat \<Rightarrow> bool engine_op" where
  "xray_is_running pid =
     try_then (or_fail Internal (process_exit_code pid)) (\<lambda>code. returning (Inr (code = STILL_ACTIVE)))"

text \<open>\<open>XrayProcess::stop\<close> consumes the process, so its job is closed whatever the result.\<close>

definition xray_stop :: "nat \<Rightarrow> unit engine_op" where
  "xray_stop pid s =
     (case try_then
         (\<lambda>s. (case job_terminate pid s of
             (Inr u, t) \<Rightarrow> (Inr (), t)
           | (Inl e, t) \<Rightarrow> or_fail Internal (process_kill pid) t))
         (\<lambda>_. or_fail Internal (process_wait pid)) s of
        (r, t) \<Rightarrow> (r, job_close pid t))"

definition xray_payload_root :: "xray_backend \<Rightarrow> backend_failure + string" where
  "xray_payload_root e = product_root ''xray'' (xb_executable e)"

definition xray_verify_payloads :: "(u8 list \<Rightarrow> string) \<Rightarrow> xray_backend \<Rightarrow> unit engine_op" where
  "xray_verify_payloads sha e =
     try_then (returning (xray_payload_root e)) (\<lambda>root.
     try_then (verify_hash sha (path_join root ''xray.exe'') XRAY_SHA256) (\<lambda>_.
       verify_hash sha (path_join root ''wintun.dll'') XRAY_WINTUN_SHA256))"

definition xray_temporary :: "xray_backend \<Rightarrow> string" where
  "xray_temporary e = path_join (xb_runtime_root e) ''KenaiXray.json.new''"

definition xray_write_config :: "xray_backend \<Rightarrow> vless_profile \<Rightarrow> unit engine_op" where
  "xray_write_config e profile =
     try_then (remove_if_present (xray_temporary e)) (\<lambda>_.
     try_then (or_fail Internal (fs_create_new (xray_temporary e))) (\<lambda>_.
     try_then (write_or_remove (xray_temporary e) (as_bytes (render_vless profile))) (\<lambda>_.
       or_fail Internal (fs_rename (xray_temporary e) (xb_config_path e)))))"

definition xray_command :: "xray_backend \<Rightarrow> backend_failure + string list" where
  "xray_command e = and_then (xray_payload_root e) (\<lambda>root. Inr [path_join root ''xray.exe''])"

definition xray_validate_config :: "xray_backend \<Rightarrow> unit engine_op" where
  "xray_validate_config e =
     try_then (returning (xray_command e)) (\<lambda>command.
     try_then (or_fail EngineUnavailable
         (run_command (command @ [''run'', ''-test'', ''-config'', xb_config_path e]))) (\<lambda>(status, output).
       returning (if status = Some 0 then Inr () else Inl BackendInvalidProfile)))"

text \<open>
  The start, up to the point where the engine keeps the process. An early return drops the job, which
  ends the process if the job owns it.
\<close>

definition xray_launch :: "xray_backend \<Rightarrow> nat engine_op" where
  "xray_launch e =
     try_then job_create (\<lambda>_.
     try_then (returning (xray_command e)) (\<lambda>command.
     try_then (or_fail EngineUnavailable (process_spawn (command @ [''run'', ''-config'', xb_config_path e])))
       (\<lambda>pid s.
         (case job_assign pid s of
            (Inl error, t) \<Rightarrow> (Inl Internal, job_close pid (snd (process_wait pid (snd (process_kill pid t)))))
          | (Inr u, t) \<Rightarrow>
              (case process_try_wait pid (os_sleep START_GRACE t) of
                 (Inl error, t) \<Rightarrow> (Inl Internal, job_close pid t)
               | (Inr (Some status), t) \<Rightarrow> (Inl BackendServerUnavailable, job_close pid t)
               | (Inr None, t) \<Rightarrow> (Inr pid, t))))))"

definition xray_start :: "xray_backend \<Rightarrow> unit host_op" where
  "xray_start e =
     try_then (on_os (xray_launch e)) (\<lambda>pid h.
       on_os (remove_if_present (xb_config_path e)) (h\<lparr>ho_process := Some pid\<rparr>))"

text \<open>The three results of the cleanup are combined with \<open>Result::and\<close> after all three were attempted.\<close>

definition result_and :: "'e + unit \<Rightarrow> 'e + unit \<Rightarrow> 'e + unit" where
  "result_and r q = and_then r (\<lambda>_. q)"

definition xray_cleanup :: "xray_backend \<Rightarrow> unit host_op" where
  "xray_cleanup e h =
     (case (case ho_process h of
              None \<Rightarrow> (Inr (), h)
            | Some pid \<Rightarrow> on_os (xray_stop pid) (h\<lparr>ho_process := None\<rparr>)) of
        (process_result, h) \<Rightarrow>
      case on_os (remove_if_present (xb_config_path e)) h of (config_result, h) \<Rightarrow>
      case on_os (remove_if_present (xray_temporary e)) h of (temporary_result, h) \<Rightarrow>
        (result_and (result_and process_result config_result) temporary_result, h))"

definition xray_connect ::
  "(u8 list \<Rightarrow> string) \<Rightarrow> xray_backend \<Rightarrow> vless_profile \<Rightarrow> bool \<Rightarrow> unit host_op" where
  "xray_connect sha e profile kill_switch =
     (if kill_switch then (\<lambda>h. (Inl UnsupportedFeature, h))
      else try_then (\<lambda>h. (map_err (\<lambda>_. BackendInvalidProfile) (validate_vless profile), h)) (\<lambda>_.
        try_then (xray_cleanup e) (\<lambda>_.
        try_then (on_os (xray_verify_payloads sha e)) (\<lambda>_.
        try_then (on_os (xray_write_config e profile)) (\<lambda>_ h.
          (case try_then (on_os (xray_validate_config e)) (\<lambda>_. xray_start e) h of
             (Inl error, h') \<Rightarrow> (Inl error, snd (xray_cleanup e h'))
           | (Inr u, h') \<Rightarrow> (Inr (), h')))))))"

definition xray_disconnect :: "xray_backend \<Rightarrow> unit host_op" where
  "xray_disconnect = xray_cleanup"

definition xray_is_connected :: "bool host_op" where
  "xray_is_connected h =
     (case ho_process h of None \<Rightarrow> (Inr False, h) | Some pid \<Rightarrow> on_os (xray_is_running pid) h)"

definition xray_statistics :: "tunnel_statistics host_op" where
  "xray_statistics =
     try_then xray_is_connected (\<lambda>connected h.
       (if \<not> connected then Inl EngineUnavailable
        else Inr \<lparr>ts_bytes_received = 0, ts_bytes_sent = 0, ts_last_handshake_unix_ms = None\<rparr>, h))"

section \<open>The selection of an engine\<close>

record windows_backend =
  wb_wireguard :: tunnel_backend
  wb_amneziawg :: tunnel_backend
  wb_xray :: xray_backend
  wb_base64 :: "u8 list \<Rightarrow> string"
  wb_sha256 :: "u8 list \<Rightarrow> string"

text \<open>All three engines are stopped, whatever the first ones answer; the first error is the result.\<close>

definition disconnect_all :: "windows_backend \<Rightarrow> unit host_op" where
  "disconnect_all B h =
     (case on_os (wireguard_disconnect (wb_wireguard B)) h of (wireguard, h) \<Rightarrow>
      case on_os (amneziawg_disconnect (wb_amneziawg B)) h of (amneziawg, h) \<Rightarrow>
      case xray_disconnect (wb_xray B) h of (xray, h) \<Rightarrow>
        (result_and (result_and wireguard amneziawg) xray, h\<lparr>ho_active := None\<rparr>))"

definition set_active :: "active_engine \<Rightarrow> unit host_op" where
  "set_active engine h = (Inr (), h\<lparr>ho_active := Some engine\<rparr>)"

definition backend_connect :: "windows_backend \<Rightarrow> string \<Rightarrow> wireguard_profile \<Rightarrow> bool \<Rightarrow> unit host_op" where
  "backend_connect B profile_id profile kill_switch =
     try_then (disconnect_all B) (\<lambda>_.
     try_then (on_os (wireguard_connect (wb_base64 B) (wb_sha256 B) (wb_wireguard B) profile kill_switch)) (\<lambda>_.
       set_active ActiveWireGuard))"

definition backend_connect_amneziawg ::
  "windows_backend \<Rightarrow> string \<Rightarrow> amneziawg_profile \<Rightarrow> bool \<Rightarrow> unit host_op" where
  "backend_connect_amneziawg B profile_id profile kill_switch =
     try_then (disconnect_all B) (\<lambda>_.
     try_then (on_os (amneziawg_connect (wb_base64 B) (wb_sha256 B) (wb_amneziawg B) profile kill_switch)) (\<lambda>_.
       set_active ActiveAmneziaWg))"

definition backend_connect_vless :: "windows_backend \<Rightarrow> string \<Rightarrow> vless_profile \<Rightarrow> bool \<Rightarrow> unit host_op" where
  "backend_connect_vless B profile_id profile kill_switch =
     try_then (disconnect_all B) (\<lambda>_.
     try_then (xray_connect (wb_sha256 B) (wb_xray B) profile kill_switch) (\<lambda>_.
       set_active ActiveXray))"

definition backend_disconnect :: "windows_backend \<Rightarrow> unit host_op" where
  "backend_disconnect = disconnect_all"

definition backend_is_connected :: "windows_backend \<Rightarrow> bool host_op" where
  "backend_is_connected B h =
     (case ho_active h of
        Some ActiveWireGuard \<Rightarrow> on_os (wireguard_is_connected (wb_wireguard B)) h
      | Some ActiveAmneziaWg \<Rightarrow> on_os (amneziawg_is_connected (wb_amneziawg B)) h
      | Some ActiveXray \<Rightarrow> xray_is_connected h
      | None \<Rightarrow> (Inr False, h))"

definition backend_statistics :: "windows_backend \<Rightarrow> tunnel_statistics host_op" where
  "backend_statistics B h =
     (case ho_active h of
        Some ActiveWireGuard \<Rightarrow> on_os (wireguard_read_statistics (wb_sha256 B) (wb_wireguard B)) h
      | Some ActiveAmneziaWg \<Rightarrow> on_os (amneziawg_read_statistics (wb_sha256 B) (wb_amneziawg B)) h
      | Some ActiveXray \<Rightarrow> xray_statistics h
      | None \<Rightarrow> (Inl EngineUnavailable, h))"

text \<open>Construction: the three engines clean up what an earlier run left.\<close>

definition xray_system_default :: "string \<Rightarrow> string option \<Rightarrow> (unit, xray_backend) os_op" where
  "xray_system_default executable program_data =
     try_then (runtime_directory program_data) (\<lambda>runtime_root s.
       (case remove_if_present (path_join runtime_root ''KenaiXray.json'') s of
          (Inl error, t) \<Rightarrow> (Inl (), t)
        | (Inr u, t) \<Rightarrow>
            (Inr \<lparr>xb_executable = executable, xb_runtime_root = runtime_root,
                  xb_config_path = path_join runtime_root ''KenaiXray.json''\<rparr>, t)))"

definition backend_system_default ::
  "(u8 list \<Rightarrow> string) \<Rightarrow> (u8 list \<Rightarrow> string) \<Rightarrow> string \<Rightarrow> string option \<Rightarrow> os \<Rightarrow>
   (unit + windows_backend \<times> host) \<times> os" where
  "backend_system_default b64 sha executable program_data =
     try_then (wireguard_system_default executable program_data) (\<lambda>wireguard.
     try_then (amneziawg_system_default executable program_data) (\<lambda>amneziawg.
     try_then (xray_system_default executable program_data) (\<lambda>xray s.
       (Inr (\<lparr>wb_wireguard = wireguard, wb_amneziawg = amneziawg, wb_xray = xray, wb_base64 = b64,
              wb_sha256 = sha\<rparr>, \<lparr>ho_os = s, ho_process = None, ho_active = None\<rparr>), s))))"

text \<open>The backend as the trait the processor uses; the queries take a shared reference.\<close>

definition WindowsVpnBackend :: "windows_backend \<Rightarrow> host vpn_backend" where
  "WindowsVpnBackend B =
     \<lparr>be_connect = backend_connect B, be_connect_amneziawg = backend_connect_amneziawg B,
      be_connect_vless = backend_connect_vless B, be_disconnect = backend_disconnect B,
      be_is_connected = (\<lambda>h. fst (backend_is_connected B h)),
      be_statistics = (\<lambda>h. fst (backend_statistics B h))\<rparr>"

end
