(* ===== verification/Engine_Laws.thy ===== *)
theory Engine_Laws
  imports Windows_Backend
begin

text \<open>
  What the operations of the engines may touch and what they achieve. \<open>within\<close> bounds the files,
  services and processes an operation can change; its rules follow the program text. The results are
  stated per operation, for every environment.
\<close>

section \<open>Bounds on what is touched\<close>

definition within ::
  "(string \<Rightarrow> bool) \<Rightarrow> (string \<Rightarrow> bool) \<Rightarrow> (nat \<Rightarrow> bool) \<Rightarrow> ('e, 'a) os_op \<Rightarrow> bool" where
  "within F S C m \<longleftrightarrow> (\<forall>s. evolves F S C s (snd (m s)))"

named_theorems within_intros \<open>what an operation stays within\<close>

lemma withinD: "within F S C m \<Longrightarrow> m s = (r, t) \<Longrightarrow> evolves F S C s t"
  unfolding within_def by (metis snd_conv)

lemma withinI: "(\<And>s r t. m s = (r, t) \<Longrightarrow> evolves F S C s t) \<Longrightarrow> within F S C m"
  unfolding within_def by (metis surjective_pairing)

lemma within_try_then [within_intros]:
  assumes "within F S C m" "\<And>x. within F S C (f x)"
  shows "within F S C (try_then m f)"
proof (rule withinI)
  fix s r t
  assume run: "try_then m f s = (r, t)"
  obtain q u where q: "m s = (q, u)" by (cases "m s")
  note first = withinD [OF assms(1) q]
  show "evolves F S C s t"
  proof (cases q)
    case (Inl e)
    with run q first show ?thesis by simp
  next
    case (Inr x)
    with run q have "f x u = (r, t)" by simp
    from evolves_trans [OF first withinD [OF assms(2) this]] show ?thesis .
  qed
qed

lemma within_or_fail [within_intros]: "within F S C m \<Longrightarrow> within F S C (or_fail e m)"
  by (auto simp: within_def or_fail_def split: prod.split) (metis snd_conv)

lemma within_ignoring [within_intros]: "within F S C m \<Longrightarrow> within F S C (ignoring m)"
  by (simp add: within_def ignoring_def)

lemma within_snd [within_intros]: "within F S C m \<Longrightarrow> within F S C (\<lambda>s. (r, snd (m s)))"
  by (simp add: within_def)

lemma within_pure [within_intros]: "within F S C (\<lambda>s. (r, s))"
  by (simp add: within_def)

lemma within_returning [within_intros]: "within F S C (returning r)"
  by (simp add: within_def returning_def)

lemma within_if [within_intros]: "within F S C m \<Longrightarrow> within F S C n \<Longrightarrow> within F S C (if b then m else n)"
  by simp

text \<open>A step whose continuation depends on the result in its own way.\<close>

lemma within_case [within_intros]:
  assumes "within F S C m" "\<And>e. within F S C (g e)" "\<And>x. within F S C (f x)"
  shows "within F S C (\<lambda>s. case m s of (Inl e, t) \<Rightarrow> g e t | (Inr x, t) \<Rightarrow> f x t)"
proof (rule withinI)
  fix s r t
  assume run: "(case m s of (Inl e, t) \<Rightarrow> g e t | (Inr x, t) \<Rightarrow> f x t) = (r, t)"
  obtain q u where q: "m s = (q, u)" by (cases "m s")
  note first = withinD [OF assms(1) q]
  show "evolves F S C s t"
    using evolves_trans [OF first] run q withinD [OF assms(2)] withinD [OF assms(3)] by (cases q) auto
qed

lemma within_os_result [within_intros]: "within F S C os_result"
  by (rule withinI) (auto simp: os_result_def intro: os_call_evolves split: prod.splits fault.splits)

lemma within_calls [within_intros]:
  "within F S C svc_manager" "within F S C (svc_set_sid n)" "within F S C (svc_start n)" "within F S C (svc_stop n)"
  "within F S C (svc_open n)"
  by (simp_all add: svc_manager_def svc_set_sid_def svc_start_def svc_stop_def within_os_result)
    (auto simp: within_def svc_open_def intro: os_call_evolves prod.collapse [symmetric])

lemma within_service [within_intros]:
  "S n \<Longrightarrow> within F S C (svc_query n)" "S n \<Longrightarrow> within F S C (svc_create n c)" "S n \<Longrightarrow> within F S C (svc_delete n)"
  by (auto intro!: withinI simp: svc_query_def svc_create_def svc_delete_def evolves_def
      dest!: os_call_same split: prod.splits fault.splits option.splits)

lemma within_wait [within_intros]: "S n \<Longrightarrow> within F S C (wait_for_state n q timeout)"
proof (rule withinI)
  fix s r t
  assume S: "S n" and run: "wait_for_state n q timeout s = (r, t)"
  from wait_until_result [OF run [unfolded wait_for_state_def]] S show "evolves F S C s t"
    by (auto simp: evolves_def)
qed

lemma within_file [within_intros]:
  "within F S C (fs_read p)"
  "F (file_key p) \<Longrightarrow> within F S C (fs_create_new p)" "F (file_key p) \<Longrightarrow> within F S C (fs_write_all p b)"
  "within F S C fs_sync_all"
  "F (file_key p) \<Longrightarrow> within F S C (fs_remove_file p)"
  "F (file_key p) \<Longrightarrow> F (file_key p') \<Longrightarrow> within F S C (fs_rename p p')"
  by (auto intro!: withinI simp: fs_read_def fs_create_new_def fs_write_all_def fs_sync_all_def fs_remove_file_def
      fs_rename_def evolves_def
      dest!: os_call_same split: prod.splits fault.splits option.splits sum.splits)

lemma within_synced [within_intros]: "F (file_key p) \<Longrightarrow> within F S C (fs_write_synced p b)"
  unfolding fs_write_synced_def by (intro within_intros)

lemma within_steps [within_intros]:
  "within F S C (verify_hash sha p x)" "F (file_key p) \<Longrightarrow> within F S C (remove_if_present p)"
  "F (file_key p) \<Longrightarrow> within F S C (write_or_remove p b)"
  "S n \<Longrightarrow> within F S C (delete_service n k)" "S n \<Longrightarrow> within F S C (run_service n c k)"
  "S n \<Longrightarrow> within F S C (service_running n)"
proof -
  show "within F S C (verify_hash sha p x)" unfolding verify_hash_def by (intro within_intros)
  show "S n \<Longrightarrow> within F S C (delete_service n k)" unfolding delete_service_def by (intro within_intros)
  show "S n \<Longrightarrow> within F S C (run_service n c k)" unfolding run_service_def by (intro within_intros)
  show "S n \<Longrightarrow> within F S C (service_running n)" unfolding service_running_def by (intro within_intros)
next
  assume F: "F (file_key p)"
  show "within F S C (remove_if_present p)" unfolding remove_if_present_def [abs_def] using F by (intro within_intros)
  show "within F S C (write_or_remove p b)" unfolding write_or_remove_def [abs_def] using F by (intro within_intros)
qed

lemma within_wireguard [within_intros]:
  assumes "F (file_key (tb_config_path e))" "F (file_key (wireguard_temporary e))" "S WG_SERVICE_NAME"
  shows "within F S C (wireguard_cleanup_stale e)" "within F S C (wireguard_verify_payloads sha e)"
    "within F S C (wireguard_write_config b64 e p)" "within F S C (wireguard_create_and_start_service e)"
    "within F S C (wireguard_connect b64 sha e p k)"
proof -
  show clean: "within F S C (wireguard_cleanup_stale e)"
    unfolding wireguard_cleanup_stale_def by (intro within_intros assms)
  show verify: "within F S C (wireguard_verify_payloads sha e)"
    unfolding wireguard_verify_payloads_def by (intro within_intros)
  show conf: "within F S C (wireguard_write_config b64 e p)"
    unfolding wireguard_write_config_def by (intro within_intros assms)
  show start: "within F S C (wireguard_create_and_start_service e)"
    unfolding wireguard_create_and_start_service_def by (intro within_intros assms)
  show "within F S C (wireguard_connect b64 sha e p k)"
    unfolding wireguard_connect_def by (intro within_intros clean verify conf start)
qed

lemma within_amneziawg [within_intros]:
  assumes "F (file_key (tb_config_path e))" "F (file_key (amneziawg_temporary e))" "S AWG_SERVICE_NAME"
  shows "within F S C (amneziawg_cleanup_stale e)" "within F S C (amneziawg_verify_payloads sha e)"
    "within F S C (amneziawg_write_config b64 e q)" "within F S C (amneziawg_start_service e)"
    "within F S C (amneziawg_connect b64 sha e q k)"
proof -
  show clean: "within F S C (amneziawg_cleanup_stale e)"
    unfolding amneziawg_cleanup_stale_def by (intro within_intros assms)
  show verify: "within F S C (amneziawg_verify_payloads sha e)"
    unfolding amneziawg_verify_payloads_def by (intro within_intros)
  show conf: "within F S C (amneziawg_write_config b64 e q)"
    unfolding amneziawg_write_config_def by (intro within_intros assms)
  show start: "within F S C (amneziawg_start_service e)"
    unfolding amneziawg_start_service_def by (intro within_intros assms)
  show "within F S C (amneziawg_connect b64 sha e q k)"
    unfolding amneziawg_connect_def by (intro within_intros clean verify conf start)
qed

section \<open>Chains of steps that succeed\<close>

named_theorems success_simps \<open>what a successful operation did\<close>

lemma try_then_success [success_simps]:
  "try_then m f s = (Inr y, t) \<longleftrightarrow> (\<exists>x u. m s = (Inr x, u) \<and> f x u = (Inr y, t))"
  by (auto simp: try_then_def split: prod.splits sum.splits)

lemma or_fail_success [success_simps]: "or_fail e m s = (Inr x, t) \<longleftrightarrow> m s = (Inr x, t)"
  by (auto simp: or_fail_def result_simps split: prod.splits)

lemma returning_success [success_simps]: "returning r s = (Inr x, t) \<longleftrightarrow> r = Inr x \<and> t = s"
  by (auto simp: returning_def)

lemma ignoring_success [success_simps]: "ignoring m s = (Inr u, t) \<longleftrightarrow> t = snd (m s)"
  by (auto simp: ignoring_def)

lemma remove_if_present_success:
  assumes "remove_if_present p s = (Inr u, t)"
  shows "os_files t = (os_files s)(file_key p := None)"
proof -
  obtain r v where r: "fs_remove_file p s = (r, v)" by (cases "fs_remove_file p s")
  from fs_remove_result [OF r] assms r show ?thesis
    by (cases r) (auto simp: remove_if_present_def split: if_splits)
qed

lemma write_or_remove_success: "write_or_remove p b s = (Inr u, t) \<Longrightarrow> fs_write_synced p b s = (Inr (), t)"
  by (auto simp: write_or_remove_def split: prod.splits sum.splits)

text \<open>The law that a service that exists can be opened (the engines ask with full access).\<close>

definition opens :: "environment \<Rightarrow> bool" where
  "opens env \<longleftrightarrow> (\<forall>tick. en_open env tick)"

lemma os_result_same:
  "os_result s = (r, t) \<Longrightarrow> os_files t = os_files s \<and> os_services t = os_services s
     \<and> os_processes t = os_processes s \<and> os_env t = os_env s"
  by (auto simp: os_result_def dest: os_call_same split: prod.splits fault.splits)

lemma svc_open_result:
  "svc_open n s = (r, t) \<Longrightarrow> os_files t = os_files s \<and> os_services t = os_services s
     \<and> os_processes t = os_processes s \<and> os_env t = os_env s
     \<and> (r = Inl () \<longrightarrow> os_services s n = None \<or> \<not> opens (os_env s))
     \<and> (r = Inr () \<longrightarrow> os_services s n \<noteq> None)"
  by (auto simp: svc_open_def os_call_def opens_def split: if_splits)

lemma svc_delete_success: "svc_delete n s = (Inr u, t) \<Longrightarrow> os_services t = (os_services s)(n := None)"
  by (auto simp: svc_delete_def dest: os_call_same split: prod.splits fault.splits)

lemma delete_service_success:
  assumes "delete_service n k s = (Inr u, t)" "opens (os_env s)"
  shows "os_services t n = None"
proof -
  from assms(1) obtain v where v: "svc_manager s = (Inr (), v)"
    and d: "(case svc_open n v of (Inl e, t) \<Rightarrow> (Inr (), t)
        | (Inr u, t) \<Rightarrow>
            try_then (or_fail Internal (svc_query n)) (\<lambda>state.
            try_then
              (if state \<noteq> Svc_Stopped then
                 try_then (or_fail Internal (svc_stop n)) (\<lambda>_.
                   or_fail Internal (wait_for_state n Svc_Stopped k))
               else returning (Inr ())) (\<lambda>_.
              or_fail Internal (svc_delete n))) t) = (Inr u, t)"
    unfolding delete_service_def success_simps by auto
  obtain r w where r: "svc_open n v = (r, w)" by (cases "svc_open n v")
  note same = os_result_same [OF v [unfolded svc_manager_def]] and opened = svc_open_result [OF r]
  show ?thesis
  proof (cases r)
    case (Inl e)
    with d r opened same assms(2) show ?thesis by auto
  next
    case (Inr x)
    with d r obtain y where "svc_delete n y = (Inr u, t)" by (auto simp: success_simps)
    from svc_delete_success [OF this] show ?thesis by simp
  qed
qed

text \<open>The three effects of a cleanup that succeeds.\<close>

lemma cleanup_success:
  assumes "try_then (delete_service n k) (\<lambda>_. try_then (remove_if_present cfg) (\<lambda>_. remove_if_present tmp)) s = (Inr u, t)"
  shows "os_files t (file_key cfg) = None" "os_files t (file_key tmp) = None"
    "opens (os_env s) \<Longrightarrow> os_services t n = None"
proof -
  from assms obtain a b where a: "delete_service n k s = (Inr (), a)" and b: "remove_if_present cfg a = (Inr (), b)"
    and t: "remove_if_present tmp b = (Inr u, t)" by (auto simp: success_simps)
  show "os_files t (file_key cfg) = None" "os_files t (file_key tmp) = None"
    using remove_if_present_success [OF b] remove_if_present_success [OF t] by simp_all
  have W: "within F (\<lambda>_. False) C (remove_if_present p)" if "F (file_key p)" for F C p
    using that by (intro within_intros)
  have "os_services t = os_services a"
    using withinD [OF W [where F = "\<lambda>_. True"] b] withinD [OF W [where F = "\<lambda>_. True"] t]
    by (auto simp: evolves_def)
  then show "opens (os_env s) \<Longrightarrow> os_services t n = None" using delete_service_success [OF a] by simp
qed

lemma svc_create_success:
  "svc_create n c s = (Inr u, t) \<Longrightarrow>
     os_services t = (os_services s)(n \<mapsto> \<lparr>sc_command = c, sc_state = Svc_Stopped\<rparr>)"
  by (auto simp: svc_create_def dest: os_call_same split: prod.splits fault.splits option.splits)

lemma run_service_success:
  assumes "run_service n c k s = (Inr u, t)"
  shows "os_services t n = Some \<lparr>sc_command = c, sc_state = Svc_Running\<rparr> \<and> os_files t = os_files s"
proof -
  from assms obtain s1 s2 s3 s4 where s: "svc_manager s = (Inr (), s1)" "svc_create n c s1 = (Inr (), s2)"
    "svc_set_sid n s2 = (Inr (), s3)" "svc_start n s3 = (Inr (), s4)" "wait_for_state n Svc_Running k s4 = (Inr u, t)"
    by (auto simp: run_service_def success_simps)
  note created = svc_create_success [OF s(2)]
  have "os_services s4 = os_services s2"
    using os_result_same [OF s(3) [unfolded svc_set_sid_def]] os_result_same [OF s(4) [unfolded svc_start_def]] by simp
  with created have "os_services t n = Some \<lparr>sc_command = c, sc_state = Svc_Running\<rparr>"
    using wait_until_result [OF s(5) [unfolded wait_for_state_def]] by simp
  moreover have "within (\<lambda>_. False) (\<lambda>_. True) (\<lambda>_. True) (run_service n c k)" by (intro within_intros) simp
  ultimately show ?thesis
    using withinD [of "\<lambda>_. False" "\<lambda>_. True" "\<lambda>_. True" "run_service n c k", OF _ assms]
    by (auto simp: evolves_def)
qed

text \<open>The three last steps of every \<open>write_config\<close>.\<close>

lemma written_config:
  assumes "try_then (or_fail Internal (fs_create_new tmp)) (\<lambda>_.
     try_then (write_or_remove tmp b) (\<lambda>_. or_fail Internal (fs_rename tmp cfg))) s = (Inr u, t)"
    "file_key tmp \<noteq> file_key cfg"
  shows "os_files t (file_key cfg) = Some b" "os_files t (file_key tmp) = None"
proof -
  from assms(1) obtain s1 s2 where s: "fs_create_new tmp s = (Inr (), s1)" "write_or_remove tmp b s1 = (Inr (), s2)"
    "fs_rename tmp cfg s2 = (Inr u, t)" by (auto simp: success_simps)
  from fs_write_synced_result [OF write_or_remove_success [OF s(2)]] fs_rename_result [OF s(3)] assms(2)
  show "os_files t (file_key cfg) = Some b" "os_files t (file_key tmp) = None" by auto
qed

lemma verify_hash_success:
  assumes "verify_hash sha p x s = (Inr u, t)"
  shows "(\<exists>bytes. os_files s (file_key p) = Some bytes \<and> sha bytes = x) \<and> os_files t = os_files s"
proof -
  from assms obtain bytes where b: "fs_read p s = (Inr bytes, t)" "sha bytes = x"
    by (auto simp: verify_hash_def success_simps split: if_splits)
  from fs_read_result [OF b(1), of "\<lambda>_. False"] b(2) show ?thesis by auto
qed

text \<open>The content of the files a payload check looked at.\<close>

definition pinned :: "(u8 list \<Rightarrow> string) \<Rightarrow> (string \<Rightarrow> u8 list option) \<Rightarrow> string \<Rightarrow> string \<Rightarrow> bool" where
  "pinned sha files path hash \<longleftrightarrow> (\<exists>bytes. files (file_key path) = Some bytes \<and> sha bytes = hash)"

lemma wireguard_verify_success:
  assumes "wireguard_verify_payloads sha e s = (Inr u, t)"
  shows "\<exists>root. wireguard_payload_root e = Inr root
    \<and> pinned sha (os_files s) (path_join root ''tunnel.dll'') TUNNEL_SHA256
    \<and> pinned sha (os_files s) (path_join root ''wireguard.dll'') DRIVER_SHA256 \<and> os_files t = os_files s"
  using assms
  by (auto simp: wireguard_verify_payloads_def success_simps pinned_def dest!: verify_hash_success)

lemma amneziawg_verify_success:
  assumes "amneziawg_verify_payloads sha e s = (Inr u, t)"
  shows "\<exists>root. amneziawg_payload_root e = Inr root
    \<and> pinned sha (os_files s) (path_join root ''amneziawg.exe'') ENGINE_SHA256
    \<and> pinned sha (os_files s) (path_join root ''awg.exe'') TOOLS_SHA256
    \<and> pinned sha (os_files s) (path_join root ''wintun.dll'') WINTUN_SHA256 \<and> os_files t = os_files s"
  using assms
  by (auto simp: amneziawg_verify_payloads_def success_simps pinned_def dest!: verify_hash_success)

text \<open>Two paths whose names end differently are different files.\<close>

lemma key_neq:
  assumes "n \<noteq> []" "m \<noteq> []" "ascii_lower (last n) \<noteq> ascii_lower (last m)"
  shows "file_key (path_join r n) \<noteq> file_key (path_join q m)"
proof
  assume "file_key (path_join r n) = file_key (path_join q m)"
  then have "last (file_key (path_join r n)) = last (file_key (path_join q m))" by simp
  with assms show False by (simp add: file_key_def path_join_def last_map)
qed

lemma last_lower:
  "ascii_lower (last ''.conf'') = CHR ''f''" "ascii_lower (last ''.conf.new'') = CHR ''w''"
  "ascii_lower (last ''tunnel.dll'') = CHR ''l''" "ascii_lower (last ''wireguard.dll'') = CHR ''l''"
  "ascii_lower (last ''amneziawg.exe'') = CHR ''e''" "ascii_lower (last ''awg.exe'') = CHR ''e''"
  "ascii_lower (last ''wintun.dll'') = CHR ''l''" "ascii_lower (last ''xray.exe'') = CHR ''e''"
  "ascii_lower (last ''KenaiXray.json'') = CHR ''n''" "ascii_lower (last ''KenaiXray.json.new'') = CHR ''w''"
  by code_simp+

lemma pinned_evolves:
  "evolves F S C s t \<Longrightarrow> \<not> F (file_key path) \<Longrightarrow> pinned sha (os_files s) path hash \<Longrightarrow> pinned sha (os_files t) path hash"
  by (auto simp: evolves_def pinned_def)

text \<open>
  \<open>started_with\<close>: on the way from \<open>s\<close> to \<open>t\<close> the service was created and run from a state \<open>u\<close> whose
  configuration file held exactly \<open>config\<close> and whose payload files had the pinned hashes; it runs now,
  and both configuration files are gone.
\<close>

definition started_with ::
  "(u8 list \<Rightarrow> string) \<Rightarrow> string \<Rightarrow> string list \<Rightarrow> string \<Rightarrow> string \<Rightarrow> u8 list \<Rightarrow> (string \<times> string) list \<Rightarrow>
   os \<Rightarrow> os \<Rightarrow> bool" where
  "started_with sha n command cfg tmp config payloads s t \<longleftrightarrow>
     (\<exists>u v k. evolves (\<lambda>x. x \<in> {file_key cfg, file_key tmp}) ((=) n) (\<lambda>_. False) s u
        \<and> os_files u (file_key cfg) = Some config
        \<and> list_all (\<lambda>(path, hash). pinned sha (os_files u) path hash) payloads
        \<and> run_service n command k u = (Inr (), v)
        \<and> evolves ((=) (file_key cfg)) (\<lambda>_. False) (\<lambda>_. False) v t)
     \<and> os_services t n = Some \<lparr>sc_command = command, sc_state = Svc_Running\<rparr>
     \<and> os_files t (file_key cfg) = None \<and> os_files t (file_key tmp) = None"

lemma started_withI:
  assumes "evolves (\<lambda>x. x \<in> {file_key cfg, file_key tmp}) ((=) n) (\<lambda>_. False) s u"
    "list_all (\<lambda>(path, hash). pinned sha (os_files u) path hash) payloads" "run_service n c k u = (Inr (), v)"
    "os_files u (file_key cfg) = Some config" "os_files u (file_key tmp) = None"
    "evolves ((=) (file_key cfg)) (\<lambda>_. False) (\<lambda>_. False) v t" "os_files t (file_key cfg) = None"
  shows "started_with sha n c cfg tmp config payloads s t"
proof -
  have "os_services t n = os_services v n" "os_files t (file_key tmp) = None"
    using assms(5-7) run_service_success [OF assms(3)] by (auto simp: evolves_def) metis
  with run_service_success [OF assms(3)] assms show ?thesis unfolding started_with_def by auto
qed

text \<open>A payload that was verified is still the pinned one when the configuration has been written.\<close>

lemma pinned_kept:
  assumes "evolves (\<lambda>x. x \<in> {file_key cfg, file_key tmp}) S C s t" "pinned sha (os_files s) (path_join root name) hash"
    "cfg = path_join r (tunnel @ ''.conf'')" "tmp = path_join r (tunnel @ ''.conf.new'')" "name \<noteq> []"
    "ascii_lower (last name) \<notin> {CHR ''f'', CHR ''w''}"
  shows "pinned sha (os_files t) (path_join root name) hash"
proof (rule pinned_evolves [OF assms(1) _ assms(2)])
  have "last (tunnel @ ''.conf'') = last ''.conf''" "last (tunnel @ ''.conf.new'') = last ''.conf.new''"
    by simp_all
  then show "file_key (path_join root name) \<notin> {file_key cfg, file_key tmp}"
    using key_neq [of name "tunnel @ ''.conf''" root r] key_neq [of name "tunnel @ ''.conf.new''" root r]
      assms(3-6) last_lower by auto
qed

lemma case_success:
  "(case m s of (Inl e, t) \<Rightarrow> (Inl e, f t) | (Inr u, t) \<Rightarrow> (Inr (), t)) = (Inr (), t) \<Longrightarrow> m s = (Inr (), t)"
  by (auto split: prod.splits sum.splits)

text \<open>The paths \<open>system_default\<close> gives an engine.\<close>

definition standard_paths :: "string \<Rightarrow> tunnel_backend \<Rightarrow> bool" where
  "standard_paths tunnel e \<longleftrightarrow> tb_config_path e = path_join (tb_runtime_root e) (tunnel @ ''.conf'')"

lemma standard_paths_neq:
  "standard_paths WG_TUNNEL_NAME e \<Longrightarrow> file_key (wireguard_temporary e) \<noteq> file_key (tb_config_path e)"
  "standard_paths AWG_TUNNEL_NAME e \<Longrightarrow> file_key (amneziawg_temporary e) \<noteq> file_key (tb_config_path e)"
  by (auto simp: standard_paths_def wireguard_temporary_def amneziawg_temporary_def file_key_def path_join_def
      WG_TUNNEL_NAME_def AWG_TUNNEL_NAME_def)

lemma wireguard_connect_success:
  assumes "wireguard_connect b64 sha e p k s = (Inr (), t)" "standard_paths WG_TUNNEL_NAME e"
  shows "\<not> k \<and> validate_wireguard p = Inr ()
    \<and> (\<exists>root. wireguard_payload_root e = Inr root
        \<and> started_with sha WG_SERVICE_NAME [tb_executable e, ''/wireguard-service'', tb_config_path e] (tb_config_path e)
            (wireguard_temporary e) (as_bytes (render_wireguard b64 p))
            [(path_join root ''tunnel.dll'', TUNNEL_SHA256), (path_join root ''wireguard.dll'', DRIVER_SHA256)] s t)"
proof -
  from assms(1) have k: "\<not> k"
    by (auto simp: wireguard_connect_def success_simps split: if_splits)
  with assms(1) obtain s1 s2 s3 where v: "validate_wireguard p = Inr ()"
    and s: "wireguard_cleanup_stale e s = (Inr (), s1)" "wireguard_verify_payloads sha e s1 = (Inr (), s2)"
      "wireguard_write_config b64 e p s2 = (Inr (), s3)" "wireguard_create_and_start_service e s3 = (Inr (), t)"
    by (auto simp: wireguard_connect_def success_simps result_simps dest!: case_success)
  from s(3) obtain s2' where w: "try_then (or_fail Internal (fs_create_new (wireguard_temporary e))) (\<lambda>_.
       try_then (write_or_remove (wireguard_temporary e) (as_bytes (render_wireguard b64 p))) (\<lambda>_.
         or_fail Internal (fs_rename (wireguard_temporary e) (tb_config_path e)))) s2' = (Inr (), s3)"
    by (auto simp: wireguard_write_config_def success_simps)
  from s(4) obtain s4 where r: "run_service WG_SERVICE_NAME [tb_executable e, ''/wireguard-service'', tb_config_path e]
       WG_TIMEOUT s3 = (Inr (), s4)" and f: "fs_remove_file (tb_config_path e) s4 = (Inr (), t)"
    by (auto simp: wireguard_create_and_start_service_def success_simps)
  let ?W = "within (\<lambda>x. x \<in> {file_key (tb_config_path e), file_key (wireguard_temporary e)}) ((=) WG_SERVICE_NAME) (\<lambda>_. False)"
  have W: "?W (wireguard_cleanup_stale e)" "?W (wireguard_verify_payloads sha e)" "?W (wireguard_write_config b64 e p)"
    by (intro within_intros; simp)+
  note verified = withinD [OF W(3) s(3)]
    and before = evolves_trans [OF evolves_trans [OF withinD [OF W(1) s(1)] withinD [OF W(2) s(2)]] withinD [OF W(3) s(3)]]
  obtain root where root: "wireguard_payload_root e = Inr root"
    and p: "pinned sha (os_files s2) (path_join root ''tunnel.dll'') TUNNEL_SHA256"
      "pinned sha (os_files s2) (path_join root ''wireguard.dll'') DRIVER_SHA256"
    using wireguard_verify_success [OF s(2)] by auto
  have payloads: "list_all (\<lambda>(path, hash). pinned sha (os_files s3) path hash)
      [(path_join root ''tunnel.dll'', TUNNEL_SHA256), (path_join root ''wireguard.dll'', DRIVER_SHA256)]"
    using pinned_kept [OF verified p(1), of "tb_runtime_root e" WG_TUNNEL_NAME]
      pinned_kept [OF verified p(2), of "tb_runtime_root e" WG_TUNNEL_NAME] assms(2) last_lower
    by (simp add: standard_paths_def wireguard_temporary_def)
  from fs_remove_result [OF f] have gone: "os_files t (file_key (tb_config_path e)) = None" by auto
  have "within ((=) (file_key (tb_config_path e))) (\<lambda>_. False) (\<lambda>_. False) (fs_remove_file (tb_config_path e))"
    by (intro within_intros) simp
  from started_withI [OF before payloads r written_config [OF w standard_paths_neq(1) [OF assms(2)]] withinD [OF this f] gone]
    k v root show ?thesis by blast
qed

lemma amneziawg_connect_success:
  assumes "amneziawg_connect b64 sha e p k s = (Inr (), t)" "standard_paths AWG_TUNNEL_NAME e"
  shows "\<not> k \<and> validate_amneziawg p = Inr ()
    \<and> (\<exists>root. amneziawg_payload_root e = Inr root
        \<and> started_with sha AWG_SERVICE_NAME
            [path_join root ''amneziawg.exe'', ''/tunnelservice'', tb_config_path e] (tb_config_path e)
            (amneziawg_temporary e) (as_bytes (render_amneziawg b64 p))
            [(path_join root ''amneziawg.exe'', ENGINE_SHA256), (path_join root ''awg.exe'', TOOLS_SHA256),
             (path_join root ''wintun.dll'', WINTUN_SHA256)] s t)"
proof -
  from assms(1) have k: "\<not> k"
    by (auto simp: amneziawg_connect_def success_simps split: if_splits)
  with assms(1) obtain s1 s2 s3 where v: "validate_amneziawg p = Inr ()"
    and s: "amneziawg_cleanup_stale e s = (Inr (), s1)" "amneziawg_verify_payloads sha e s1 = (Inr (), s2)"
      "amneziawg_write_config b64 e p s2 = (Inr (), s3)" "amneziawg_start_service e s3 = (Inr (), t)"
    by (auto simp: amneziawg_connect_def success_simps result_simps dest!: case_success)
  from s(3) obtain s2' where w: "try_then (or_fail Internal (fs_create_new (amneziawg_temporary e))) (\<lambda>_.
       try_then (write_or_remove (amneziawg_temporary e) (as_bytes (render_amneziawg b64 p))) (\<lambda>_.
         or_fail Internal (fs_rename (amneziawg_temporary e) (tb_config_path e)))) s2' = (Inr (), s3)"
    by (auto simp: amneziawg_write_config_def success_simps)
  let ?W = "within (\<lambda>x. x \<in> {file_key (tb_config_path e), file_key (amneziawg_temporary e)}) ((=) AWG_SERVICE_NAME) (\<lambda>_. False)"
  have W: "?W (amneziawg_cleanup_stale e)" "?W (amneziawg_verify_payloads sha e)" "?W (amneziawg_write_config b64 e p)"
    by (intro within_intros; simp)+
  note verified = withinD [OF W(3) s(3)]
    and before = evolves_trans [OF evolves_trans [OF withinD [OF W(1) s(1)] withinD [OF W(2) s(2)]] withinD [OF W(3) s(3)]]
  obtain root where root: "amneziawg_payload_root e = Inr root"
    and p: "pinned sha (os_files s2) (path_join root ''amneziawg.exe'') ENGINE_SHA256"
      "pinned sha (os_files s2) (path_join root ''awg.exe'') TOOLS_SHA256"
      "pinned sha (os_files s2) (path_join root ''wintun.dll'') WINTUN_SHA256"
    using amneziawg_verify_success [OF s(2)] by auto
  from s(4) root obtain s4 where r: "run_service AWG_SERVICE_NAME
       [path_join root ''amneziawg.exe'', ''/tunnelservice'', tb_config_path e] AWG_TIMEOUT s3 = (Inr (), s4)"
    and f: "remove_if_present (tb_config_path e) s4 = (Inr (), t)"
    by (auto simp: amneziawg_start_service_def success_simps)
  have payloads: "list_all (\<lambda>(path, hash). pinned sha (os_files s3) path hash)
      [(path_join root ''amneziawg.exe'', ENGINE_SHA256), (path_join root ''awg.exe'', TOOLS_SHA256),
       (path_join root ''wintun.dll'', WINTUN_SHA256)]"
    using pinned_kept [OF verified p(1), of "tb_runtime_root e" AWG_TUNNEL_NAME]
      pinned_kept [OF verified p(2), of "tb_runtime_root e" AWG_TUNNEL_NAME]
      pinned_kept [OF verified p(3), of "tb_runtime_root e" AWG_TUNNEL_NAME] assms(2) last_lower
    by (simp add: standard_paths_def amneziawg_temporary_def)
  have gone: "os_files t (file_key (tb_config_path e)) = None" using remove_if_present_success [OF f] by simp
  have "within ((=) (file_key (tb_config_path e))) (\<lambda>_. False) (\<lambda>_. False) (remove_if_present (tb_config_path e))"
    by (intro within_intros) simp
  from started_withI [OF before payloads r written_config [OF w standard_paths_neq(2) [OF assms(2)]] withinD [OF this f] gone]
    k v root show ?thesis by blast
qed

end
