(* ===== verification/Backend_Laws.thy ===== *)
theory Backend_Laws
  imports Engine_Laws
begin

text \<open>
  The engines together: which tunnels exist, the interface of an engine that touches only its own
  tunnel, its three interpretations, and the backend as a system of calls with its invariants (one
  tunnel at a time, no process without an owner).
\<close>

section \<open>What the steps of the Xray engine touch\<close>

lemma within_process [within_intros]:
  "C i \<Longrightarrow> within F S C (job_assign i)" "C i \<Longrightarrow> within F S C (job_terminate i)" "C i \<Longrightarrow> within F S C (process_kill i)"
  "C i \<Longrightarrow> within F S C (process_wait i)" "C i \<Longrightarrow> within F S C (process_try_wait i)"
  "within F S C (process_exit_code i)" "within F S C (run_command c)" "within F S (\<lambda>_. True) (process_spawn c)"
  by (auto intro!: withinI simp: job_assign_def job_terminate_def process_kill_def process_wait_def process_try_wait_def
      process_exit_code_def run_command_def process_spawn_def end_process_def evolves_def
      dest!: os_call_same split: prod.splits fault.splits option.splits)

lemma evolves_job_close: "C i \<Longrightarrow> evolves F S C s (job_close i s)"
  by (auto simp: job_close_def end_process_def evolves_def split: option.split)

lemma evolves_sleep: "evolves F S C s (os_sleep k s)"
  by (simp add: os_sleep_def evolves_def)

lemma within_then_close [within_intros]:
  assumes "C i" "within F S C m"
  shows "within F S C (\<lambda>s. case m s of (r, t) \<Rightarrow> (g r, job_close i t))"
proof (rule withinI)
  fix s r t
  assume run: "(case m s of (r, t) \<Rightarrow> (g r, job_close i t)) = (r, t)"
  obtain q u where q: "m s = (q, u)" by (cases "m s")
  have "evolves F S C u (job_close i u)" using assms(1) by (rule evolves_job_close)
  with evolves_trans [OF withinD [OF assms(2) q]] run q show "evolves F S C s t" by auto
qed

lemma within_sleep [within_intros]:
  assumes "within F S C m"
  shows "within F S C (\<lambda>s. m (os_sleep k s))"
proof (rule withinI)
  fix s r t
  assume "m (os_sleep k s) = (r, t)"
  from evolves_trans [OF evolves_sleep withinD [OF assms this]] show "evolves F S C s t" .
qed

lemma within_xray [within_intros]:
  assumes "F (file_key (xb_config_path e))" "F (file_key (xray_temporary e))"
  shows "within F S C (xray_verify_payloads sha e)" "within F S C (xray_write_config e p)"
    "within F S C (xray_validate_config e)" "C i \<Longrightarrow> within F S C (xray_stop i)" "within F S C (xray_is_running i)"
proof -
  show "within F S C (xray_verify_payloads sha e)" unfolding xray_verify_payloads_def by (intro within_intros)
  show "within F S C (xray_write_config e p)" unfolding xray_write_config_def by (intro within_intros assms)
  show "within F S C (xray_validate_config e)"
    unfolding xray_validate_config_def by (intro within_intros) (auto split: prod.split intro: within_intros)
  show "within F S C (xray_is_running i)" unfolding xray_is_running_def by (intro within_intros)
next
  show "C i \<Longrightarrow> within F S C (xray_stop i)" unfolding xray_stop_def [abs_def] by (intro within_intros)
qed

lemma within_launch [within_intros]: "within F S (\<lambda>_. True) (xray_launch e)"
proof -
  have attach: "within F S (\<lambda>_. True) (\<lambda>s. case job_assign i s of
      (Inl x, t) \<Rightarrow> (Inl Internal, job_close i (snd (process_wait i (snd (process_kill i t)))))
    | (Inr u, t) \<Rightarrow>
        (case process_try_wait i (os_sleep START_GRACE t) of
           (Inl x, t) \<Rightarrow> (Inl Internal, job_close i t)
         | (Inr (Some status), t) \<Rightarrow> (Inl BackendServerUnavailable, job_close i t)
         | (Inr None, t) \<Rightarrow> (Inr i, t)))" for i
  proof (rule within_case)
    have "within F S (\<lambda>_. True) (try_then (ignoring (process_kill i)) (\<lambda>_. ignoring (process_wait i)))"
      by (intro within_intros) simp_all
    then show "within F S (\<lambda>_. True)
        (\<lambda>t. (Inl Internal, job_close i (snd (process_wait i (snd (process_kill i t))))))" for x :: unit
      by (auto simp: within_def try_then_def ignoring_def intro: evolves_trans evolves_job_close)
    have "within F S (\<lambda>_. True) (\<lambda>t. process_try_wait i (os_sleep START_GRACE t))"
      by (intro within_intros) simp_all
    then show "within F S (\<lambda>_. True) (\<lambda>t. case process_try_wait i (os_sleep START_GRACE t) of
           (Inl x, t) \<Rightarrow> (Inl Internal, job_close i t)
         | (Inr (Some status), t) \<Rightarrow> (Inl BackendServerUnavailable, job_close i t)
         | (Inr None, t) \<Rightarrow> (Inr i, t))" for u :: unit
      by (rule within_case) (auto simp: within_def intro: evolves_job_close split: option.split)
  qed (intro within_intros, simp)
  show ?thesis
    unfolding xray_launch_def job_create_def
    by (rule within_try_then, intro within_intros, rule within_try_then, intro within_intros,
        rule within_try_then, intro within_intros, rule attach)
qed

section \<open>No process without an owner\<close>

text \<open>The only process is the one the engine keeps, and its job owns it.\<close>

definition only_child :: "nat option \<Rightarrow> os \<Rightarrow> bool" where
  "only_child p s \<longleftrightarrow> (\<forall>i ch. os_processes s i = Some ch \<longrightarrow> p = Some i \<and> ch_owned ch)"

lemma only_child_evolves: "evolves F S (\<lambda>_. False) s t \<Longrightarrow> only_child p s \<Longrightarrow> only_child p t"
  by (simp add: evolves_def only_child_def)

lemma only_child_within:
  "within (\<lambda>_. True) (\<lambda>_. True) (\<lambda>_. False) m \<Longrightarrow> m s = (r, t) \<Longrightarrow> only_child p s \<Longrightarrow> only_child p t"
  by (blast intro: only_child_evolves dest: withinD)

lemma process_ops:
  "process_kill i s = (r, t) \<Longrightarrow> os_processes t = (os_processes s)(i := None)"
  "process_wait i s = (r, t) \<Longrightarrow> os_processes t = os_processes s \<or> os_processes t = (os_processes s)(i := None)"
  "job_terminate i s = (q, t) \<Longrightarrow> (q = Inr () \<longrightarrow> os_processes t = (os_processes s)(i := None))
     \<and> (q = Inl () \<longrightarrow> os_processes t = os_processes s)"
  by (auto simp: process_kill_def process_wait_def job_terminate_def end_process_def dest: os_call_same
      split: prod.splits fault.splits)

lemma job_close_processes:
  "os_processes (job_close i s) = os_processes s \<or> os_processes (job_close i s) = (os_processes s)(i := None)"
  by (auto simp: job_close_def end_process_def split: option.split)

lemma xray_stop_processes:
  assumes "xray_stop i s = (r, t)"
  shows "os_processes t = (os_processes s)(i := None)"
proof -
  obtain q u where q: "job_terminate i s = (q, u)" by (cases "job_terminate i s")
  obtain k v where k: "process_kill i u = (k, v)" by (cases "process_kill i u")
  obtain a b where a: "process_wait i u = (a, b)" by (cases "process_wait i u")
  obtain c d where c: "process_wait i v = (c, d)" by (cases "process_wait i v")
  from process_ops(3) [OF q] process_ops(1) [OF k] process_ops(2) [OF a] process_ops(2) [OF c] q k a c assms
    job_close_processes [of i b] job_close_processes [of i d] job_close_processes [of i v]
  show ?thesis
    by (cases q; cases k) (auto simp: xray_stop_def try_then_def or_fail_def split: sum.splits)
qed

lemma only_child_stop:
  "xray_stop i s = (r, t) \<Longrightarrow> only_child (Some i) s \<Longrightarrow> only_child None t"
  unfolding only_child_def
  by (drule xray_stop_processes) (auto split: if_splits, metis option.distinct(1) option.exhaust)

lemma spawn_processes:
  "process_spawn c s = (q, t) \<Longrightarrow> (\<forall>e. q = Inl e \<longrightarrow> os_processes t = os_processes s)
     \<and> (\<forall>i. q = Inr i \<longrightarrow> os_processes t = (os_processes s)(i \<mapsto> \<lparr>ch_command = c, ch_owned = False\<rparr>))"
  by (auto simp: process_spawn_def dest: os_call_same split: prod.splits fault.splits)

lemma assign_processes:
  "job_assign i s = (q, t) \<Longrightarrow> (q = Inl () \<longrightarrow> os_processes t = os_processes s)
     \<and> (q = Inr () \<longrightarrow> os_processes t = (os_processes s)(i := map_option (ch_owned_update (\<lambda>_. True)) (os_processes s i)))"
  by (auto simp: job_assign_def dest: os_call_same split: prod.splits fault.splits)

lemma try_wait_processes:
  "process_try_wait i s = (q, t) \<Longrightarrow> os_processes t = os_processes s
     \<or> os_processes t = (os_processes s)(i := None) \<and> q \<noteq> Inr None"
  by (auto simp: process_try_wait_def end_process_def dest: os_call_same split: prod.splits fault.splits option.splits)

text \<open>From a state without processes, a failed start leaves none and a successful one leaves its own.\<close>

lemma attach_processes:
  assumes "os_processes s = Map.empty(i \<mapsto> ch)"
    "(case job_assign i s of
        (Inl x, t) \<Rightarrow> (Inl Internal, job_close i (snd (process_wait i (snd (process_kill i t)))))
      | (Inr u, t) \<Rightarrow>
          (case process_try_wait i (os_sleep k t) of
             (Inl x, t) \<Rightarrow> (Inl Internal, job_close i t)
           | (Inr (Some status), t) \<Rightarrow> (Inl BackendServerUnavailable, job_close i t)
           | (Inr None, t) \<Rightarrow> (Inr i, t))) = (r, t)"
  shows "only_child (case r of Inl e \<Rightarrow> None | Inr pid \<Rightarrow> Some pid) t"
proof -
  obtain q u where q: "job_assign i s = (q, u)" by (cases "job_assign i s")
  show ?thesis
  proof (cases q)
    case (Inl x)
    obtain a b where a: "process_kill i u = (a, b)" by (cases "process_kill i u")
    obtain c d where c: "process_wait i b = (c, d)" by (cases "process_wait i b")
    have "os_processes d = Map.empty"
      using process_ops(1) [OF a] process_ops(2) [OF c] assign_processes [OF q] Inl assms(1) by auto
    with job_close_processes [of i d] have "os_processes (job_close i d) = Map.empty" by auto
    with assms(2) q Inl a c show ?thesis by (auto simp: only_child_def)
  next
    case (Inr x)
    obtain a b where a: "process_try_wait i (os_sleep k u) = (a, b)" by (cases "process_try_wait i (os_sleep k u)")
    have owned: "os_processes (os_sleep k u) = Map.empty(i \<mapsto> ch\<lparr>ch_owned := True\<rparr>)"
      using assign_processes [OF q] Inr assms(1) by (simp add: os_sleep_def)
    have closed: "os_processes (job_close i b) = Map.empty"
      using try_wait_processes [OF a] owned by (auto simp: job_close_def end_process_def split: option.split)
    from try_wait_processes [OF a] owned closed assms(2) q Inr a show ?thesis
      by (cases a) (auto simp: only_child_def split: option.splits if_splits)
  qed
qed

lemma launch_processes:
  assumes "xray_launch e s = (r, t)" "only_child None s"
  shows "only_child (case r of Inl e \<Rightarrow> None | Inr pid \<Rightarrow> Some pid) t"
proof -
  obtain j s1 where j: "job_create s = (j, s1)" by (cases "job_create s")
  have "within (\<lambda>_. True) (\<lambda>_. True) (\<lambda>_. False) job_create" unfolding job_create_def by (intro within_intros)
  from only_child_within [OF this j assms(2)] have s1: "only_child None s1" .
  show ?thesis
  proof (cases "\<exists>command. j = Inr () \<and> xray_command e = Inr command")
    case False
    with assms(1) j s1 show ?thesis
      by (cases j; cases "xray_command e") (auto simp: xray_launch_def try_then_def returning_def)
  next
    case True
    then obtain command where c: "j = Inr ()" "xray_command e = Inr command" by blast
    obtain q s2 where q: "process_spawn (command @ [''run'', ''-config'', xb_config_path e]) s1 = (q, s2)"
      by (cases "process_spawn (command @ [''run'', ''-config'', xb_config_path e]) s1")
    have empty: "os_processes s1 = Map.empty" using s1 by (fastforce simp: only_child_def)
    show ?thesis
    proof (cases q)
      case (Inl x)
      with assms(1) j c q spawn_processes [OF q] empty show ?thesis
        by (auto simp: xray_launch_def try_then_def returning_def or_fail_def only_child_def)
    next
      case (Inr i)
      from spawn_processes [OF q] Inr empty obtain ch where ch: "os_processes s2 = Map.empty(i \<mapsto> ch)" by auto
      show ?thesis
        by (rule attach_processes [OF ch])
          (use assms(1) j c q Inr in \<open>simp add: xray_launch_def try_then_def returning_def or_fail_def\<close>)
    qed
  qed
qed

section \<open>Operations on the host\<close>

text \<open>
  \<open>step_ok X h h'\<close>: an operation of the engine \<open>X\<close> took \<open>h\<close> to \<open>h'\<close>; the environment and the
  active engine stay, the other engines' tunnels too, and no process lost its owner.
\<close>

primrec present :: "active_engine \<Rightarrow> host \<Rightarrow> bool" where
  "present ActiveWireGuard h = (os_services (ho_os h) WG_SERVICE_NAME \<noteq> None)"
| "present ActiveAmneziaWg h = (os_services (ho_os h) AWG_SERVICE_NAME \<noteq> None)"
| "present ActiveXray h = (ho_process h \<noteq> None)"

definition tunnels :: "host \<Rightarrow> active_engine set" where
  "tunnels h = {e. present e h}"

definition tidy :: "host \<Rightarrow> bool" where
  "tidy h \<longleftrightarrow> only_child (ho_process h) (ho_os h)"

definition host_opens :: "host \<Rightarrow> bool" where
  "host_opens h \<longleftrightarrow> opens (os_env (ho_os h))"

definition step_ok :: "active_engine \<Rightarrow> host \<Rightarrow> host \<Rightarrow> bool" where
  "step_ok engine h h' \<longleftrightarrow>
     os_env (ho_os h') = os_env (ho_os h) \<and> ho_active h' = ho_active h
     \<and> tunnels h' - {engine} = tunnels h - {engine} \<and> (tidy h \<longrightarrow> tidy h')"

lemma step_ok_refl [simp, intro]: "step_ok engine h h"
  by (simp add: step_ok_def)

lemma step_ok_trans [trans]: "step_ok engine h h' \<Longrightarrow> step_ok engine h' h'' \<Longrightarrow> step_ok engine h h''"
  by (simp add: step_ok_def)

lemma step_ok_env: "step_ok engine h h' \<Longrightarrow> os_env (ho_os h') = os_env (ho_os h)"
  by (simp add: step_ok_def)

lemma step_ok_opens: "step_ok engine h h' \<Longrightarrow> host_opens h' = host_opens h"
  by (simp add: step_ok_def host_opens_def)

lemma tunnels_iff [simp]: "e \<in> tunnels h \<longleftrightarrow> present e h"
  by (simp add: tunnels_def)

lemma service_names [simp]: "WG_SERVICE_NAME \<noteq> AWG_SERVICE_NAME" "AWG_SERVICE_NAME \<noteq> WG_SERVICE_NAME"
  by (simp_all add: WG_SERVICE_NAME_def AWG_SERVICE_NAME_def)

lemma diff_single_iff: "A - {x} = B - {x} \<longleftrightarrow> (\<forall>y. y = x \<or> (y \<in> A \<longleftrightarrow> y \<in> B))"
  by auto

lemma all_engines: "(\<forall>e. P e) \<longleftrightarrow> P ActiveWireGuard \<and> P ActiveAmneziaWg \<and> P ActiveXray"
  by (metis active_engine.exhaust)

lemma on_os_step:
  assumes "on_os m h = (r, h')"
  obtains t where "m (ho_os h) = (r, t)" "h' = h\<lparr>ho_os := t\<rparr>"
  using assms by (auto simp: on_os_def split: prod.splits)

lemma service_step:
  assumes "on_os m h = (r, h')" "within (\<lambda>_. True) ((=) n) (\<lambda>_. False) m"
    "n = WG_SERVICE_NAME \<and> engine = ActiveWireGuard \<or> n = AWG_SERVICE_NAME \<and> engine = ActiveAmneziaWg"
  shows "step_ok engine h h'"
proof -
  from assms(1) obtain t where t: "m (ho_os h) = (r, t)" "h' = h\<lparr>ho_os := t\<rparr>" by (rule on_os_step)
  have others: "os_services t n' = os_services (ho_os h) n'" if "n' \<noteq> n" for n'
    using withinD [OF assms(2) t(1)] that by (auto simp: evolves_def)
  have "os_env t = os_env (ho_os h)" using withinD [OF assms(2) t(1)] by (rule evolves_env)
  moreover have "\<forall>e. e = engine \<or> present e h' = present e h"
    using others [of WG_SERVICE_NAME] others [of AWG_SERVICE_NAME] assms(3) t(2) unfolding all_engines by fastforce
  moreover have "tidy h \<longrightarrow> tidy h'"
    using only_child_evolves [OF withinD [OF assms(2) t(1)]] t(2) by (simp add: tidy_def)
  ultimately show ?thesis using t(2) by (auto simp: step_ok_def diff_single_iff)
qed

text \<open>An operation of the Xray engine that leaves its process alone.\<close>

lemma quiet_step:
  assumes "on_os m h = (r, h')" "within (\<lambda>_. True) (\<lambda>_. False) (\<lambda>_. False) m"
  shows "step_ok ActiveXray h h' \<and> ho_process h' = ho_process h"
proof -
  from assms(1) obtain t where t: "m (ho_os h) = (r, t)" "h' = h\<lparr>ho_os := t\<rparr>" by (rule on_os_step)
  from withinD [OF assms(2) t(1)] t(2) show ?thesis
    unfolding step_ok_def diff_single_iff all_engines
    by (auto simp: evolves_def tidy_def intro: only_child_evolves [OF withinD [OF assms(2) t(1)]])
qed

lemma true_within: "within (\<lambda>_. True) (\<lambda>_. False) (\<lambda>_. False) (remove_if_present p)"
  by (intro within_intros) simp

lemma step_processI:
  assumes "evolves (\<lambda>_. True) (\<lambda>_. False) (\<lambda>_. True) (ho_os h) t" "only_child p t"
    "h' = h\<lparr>ho_os := t, ho_process := p\<rparr>"
  shows "step_ok ActiveXray h h'"
  using assms unfolding step_ok_def diff_single_iff all_engines by (auto simp: evolves_def tidy_def)

lemma cleanup_process:
  assumes "(case ho_process h of None \<Rightarrow> (Inr (), h)
      | Some pid \<Rightarrow> on_os (xray_stop pid) (h\<lparr>ho_process := None\<rparr>)) = (r, h')"
  shows "(tidy h \<longrightarrow> tidy h') \<and> ho_process h' = None \<and> ho_active h' = ho_active h
    \<and> evolves (\<lambda>_. False) (\<lambda>_. False) (\<lambda>_. True) (ho_os h) (ho_os h')"
proof (cases "ho_process h")
  case None
  with assms show ?thesis by (auto simp: tidy_def)
next
  case (Some pid)
  with assms obtain t where t: "xray_stop pid (ho_os h) = (r, t)" "h' = h\<lparr>ho_process := None, ho_os := t\<rparr>"
    by (auto elim: on_os_step)
  have "within (\<lambda>_. False) (\<lambda>_. False) (\<lambda>_. True) (xray_stop pid)"
    unfolding xray_stop_def [abs_def] by (intro within_intros) simp_all
  from withinD [OF this t(1)] only_child_stop [OF t(1)] t(2) Some show ?thesis
    by (auto simp: tidy_def)
qed

lemma xray_cleanup_evolves:
  assumes "xray_cleanup e h = (r, h')" "F (file_key (xb_config_path e))" "F (file_key (xray_temporary e))"
  shows "evolves F (\<lambda>_. False) (\<lambda>_. True) (ho_os h) (ho_os h')"
proof -
  obtain q h1 where q: "(case ho_process h of None \<Rightarrow> (Inr (), h)
      | Some pid \<Rightarrow> on_os (xray_stop pid) (h\<lparr>ho_process := None\<rparr>)) = (q, h1)" by fastforce
  obtain c t where c: "remove_if_present (xb_config_path e) (ho_os h1) = (c, t)" by fastforce
  obtain d v where d: "remove_if_present (xray_temporary e) t = (d, v)" by fastforce
  have "ho_os h' = v" using assms(1) q c d by (auto simp: xray_cleanup_def on_os_def)
  moreover have "evolves F (\<lambda>_. False) (\<lambda>_. True) (ho_os h) (ho_os h1)"
    using cleanup_process [OF q] by (auto intro: evolves_mono)
  moreover have R: "within F (\<lambda>_. False) (\<lambda>_. True) (remove_if_present (xb_config_path e))"
    "within F (\<lambda>_. False) (\<lambda>_. True) (remove_if_present (xray_temporary e))" by (intro within_intros assms(2,3))+
  ultimately show ?thesis using withinD [OF R(1) c] withinD [OF R(2) d] by (blast intro: evolves_trans)
qed

lemma xray_cleanup_result:
  assumes "xray_cleanup e h = (r, h')"
  shows "step_ok ActiveXray h h'" "ho_process h' = None"
    "r = Inr () \<Longrightarrow> os_files (ho_os h') (file_key (xb_config_path e)) = None
       \<and> os_files (ho_os h') (file_key (xray_temporary e)) = None"
proof -
  obtain q h1 where q: "(case ho_process h of None \<Rightarrow> (Inr (), h)
      | Some pid \<Rightarrow> on_os (xray_stop pid) (h\<lparr>ho_process := None\<rparr>)) = (q, h1)" by fastforce
  obtain c h2 where c: "on_os (remove_if_present (xb_config_path e)) h1 = (c, h2)" by fastforce
  obtain d h3 where d: "on_os (remove_if_present (xray_temporary e)) h2 = (d, h3)" by fastforce
  have r: "r = result_and (result_and q c) d" "h' = h3"
    using assms q c d by (auto simp: xray_cleanup_def split: prod.splits)
  note first = cleanup_process [OF q] and second = quiet_step [OF c true_within] and third = quiet_step [OF d true_within]
  have "step_ok ActiveXray h h1"
    using first unfolding step_ok_def diff_single_iff all_engines by (auto simp: evolves_def)
  with second third r(2) show "step_ok ActiveXray h h'" by (blast intro: step_ok_trans)
  show "ho_process h' = None" using first second third r(2) by simp
  show "os_files (ho_os h') (file_key (xb_config_path e)) = None
       \<and> os_files (ho_os h') (file_key (xray_temporary e)) = None" if "r = Inr ()"
  proof -
    from that r(1) have ok: "c = Inr ()" "d = Inr ()" by (auto simp: result_and_def result_simps)
    from c ok(1) obtain t where t: "remove_if_present (xb_config_path e) (ho_os h1) = (Inr (), t)" "h2 = h1\<lparr>ho_os := t\<rparr>"
      by (auto elim: on_os_step)
    from d ok(2) obtain v where v: "remove_if_present (xray_temporary e) (ho_os h2) = (Inr (), v)" "h3 = h2\<lparr>ho_os := v\<rparr>"
      by (auto elim: on_os_step)
    from remove_if_present_success [OF t(1)] remove_if_present_success [OF v(1)] t(2) v(2) r(2) show ?thesis by auto
  qed
qed

lemma xray_start_result:
  assumes "xray_start e h = (r, h')" "ho_process h = None" "tidy h"
  shows "step_ok ActiveXray h h'"
    "r = Inr () \<Longrightarrow> ho_process h' \<noteq> None \<and> os_files (ho_os h') (file_key (xb_config_path e)) = None"
proof -
  obtain q t where q: "xray_launch e (ho_os h) = (q, t)" by fastforce
  from withinD [OF within_launch q] have ev: "evolves (\<lambda>_. True) (\<lambda>_. False) (\<lambda>_. True) (ho_os h) t"
    by (auto simp: evolves_def)
  have one: "only_child (case q of Inl e \<Rightarrow> None | Inr pid \<Rightarrow> Some pid) t"
    using launch_processes [OF q] assms(2,3) by (simp add: tidy_def)
  have "step_ok ActiveXray h h' \<and> (r = Inr () \<longrightarrow> ho_process h' \<noteq> None
      \<and> os_files (ho_os h') (file_key (xb_config_path e)) = None)"
  proof (cases q)
    case (Inl x)
    with assms(1) q have "r = Inl x" "h' = h\<lparr>ho_os := t\<rparr>" by (auto simp: xray_start_def try_then_def on_os_def)
    with step_processI [OF ev, of None "h\<lparr>ho_os := t\<rparr>"] one Inl assms(2) show ?thesis by simp
  next
    case (Inr pid)
    with assms(1) q have rm: "on_os (remove_if_present (xb_config_path e)) (h\<lparr>ho_os := t, ho_process := Some pid\<rparr>) = (r, h')"
      by (auto simp: xray_start_def try_then_def on_os_def split: prod.splits)
    have "step_ok ActiveXray h (h\<lparr>ho_os := t, ho_process := Some pid\<rparr>)"
      using step_processI [OF ev] one Inr by simp
    moreover note quiet_step [OF rm true_within]
    moreover from rm obtain v where "remove_if_present (xb_config_path e) t = (r, v)"
      "h' = h\<lparr>ho_os := t, ho_process := Some pid\<rparr>\<lparr>ho_os := v\<rparr>" by (auto elim: on_os_step)
    ultimately show ?thesis by (auto intro: step_ok_trans dest: remove_if_present_success)
  qed
  then show "step_ok ActiveXray h h'"
    "r = Inr () \<Longrightarrow> ho_process h' \<noteq> None \<and> os_files (ho_os h') (file_key (xb_config_path e)) = None" by auto
qed

lemma on_os_success:
  assumes "on_os m h = (Inr x, h')"
  obtains t where "m (ho_os h) = (Inr x, t)" "h' = h\<lparr>ho_os := t\<rparr>"
  using assms by (auto elim: on_os_step)

lemma xray_verify_success:
  assumes "xray_verify_payloads sha e s = (Inr u, t)"
  shows "\<exists>root. xray_payload_root e = Inr root
    \<and> pinned sha (os_files s) (path_join root ''xray.exe'') XRAY_SHA256
    \<and> pinned sha (os_files s) (path_join root ''wintun.dll'') XRAY_WINTUN_SHA256 \<and> os_files t = os_files s"
  using assms
  by (auto simp: xray_verify_payloads_def success_simps pinned_def dest!: verify_hash_success)

lemma xray_write_success:
  assumes "xray_write_config e p s = (Inr u, t)" "file_key (xray_temporary e) \<noteq> file_key (xb_config_path e)"
  shows "os_files t (file_key (xb_config_path e)) = Some (as_bytes (render_vless p))
    \<and> os_files t (file_key (xray_temporary e)) = None"
proof -
  from assms(1) obtain s' where "try_then (or_fail Internal (fs_create_new (xray_temporary e))) (\<lambda>_.
       try_then (write_or_remove (xray_temporary e) (as_bytes (render_vless p))) (\<lambda>_.
         or_fail Internal (fs_rename (xray_temporary e) (xb_config_path e)))) s' = (Inr u, t)"
    by (auto simp: xray_write_config_def success_simps)
  from written_config [OF this assms(2)] show ?thesis by simp
qed

lemma within_any:
  "within (\<lambda>_. True) (\<lambda>_. False) (\<lambda>_. False) (xray_verify_payloads sha e)"
  "within (\<lambda>_. True) (\<lambda>_. False) (\<lambda>_. False) (xray_write_config e p)"
  "within (\<lambda>_. True) (\<lambda>_. False) (\<lambda>_. False) (xray_validate_config e)"
  by (intro within_intros; simp)+

lemma try_then_step: "m s = (q, u) \<Longrightarrow> try_then m f s = (case q of Inl e \<Rightarrow> (Inl e, u) | Inr x \<Rightarrow> f x u)"
  by (simp add: try_then_def)

text \<open>The last two steps of a connect, with the cleanup that follows a failure.\<close>

lemma xray_finish:
  assumes "(case try_then (on_os (xray_validate_config e)) (\<lambda>_. xray_start e) h of
       (Inl error, h') \<Rightarrow> (Inl error, snd (xray_cleanup e h'))
     | (Inr u, h') \<Rightarrow> (Inr (), h')) = (r, h')" "ho_process h = None" "tidy h"
  shows "step_ok ActiveXray h h' \<and> (ho_process h' = None \<longleftrightarrow> r \<noteq> Inr ())
    \<and> (r = Inr () \<longrightarrow> os_files (ho_os h') (file_key (xb_config_path e)) = None)"
proof -
  obtain v h1 where v: "on_os (xray_validate_config e) h = (v, h1)" by fastforce
  note quiet = quiet_step [OF v within_any(3)]
  obtain q h2 where q: "try_then (on_os (xray_validate_config e)) (\<lambda>_. xray_start e) h = (q, h2)" by fastforce
  have start: "step_ok ActiveXray h h2 \<and> (q = Inr () \<longrightarrow> ho_process h2 \<noteq> None
      \<and> os_files (ho_os h2) (file_key (xb_config_path e)) = None)"
  proof (cases v)
    case (Inl x)
    with q v quiet show ?thesis by (auto simp: try_then_def)
  next
    case (Inr u)
    with q v have "xray_start e h1 = (q, h2)" by (simp add: try_then_def)
    from xray_start_result [OF this] quiet assms(2,3) show ?thesis
      by (auto simp: step_ok_def)
  qed
  show ?thesis
  proof (cases q)
    case (Inl x)
    obtain c h3 where c: "xray_cleanup e h2 = (c, h3)" by fastforce
    from xray_cleanup_result(1,2) [OF c] start assms(1) q Inl c show ?thesis by (auto intro: step_ok_trans)
  next
    case (Inr u)
    with assms(1) q start show ?thesis by auto
  qed
qed

lemma xray_connect_result:
  assumes "xray_connect sha e p k h = (r, h')" "tidy h"
  shows "step_ok ActiveXray h h'"
    "ho_process h = None \<Longrightarrow> r \<noteq> Inr () \<Longrightarrow> ho_process h' = None"
    "r = Inr () \<Longrightarrow> \<not> k \<and> validate_vless p = Inr () \<and> ho_process h' \<noteq> None
      \<and> os_files (ho_os h') (file_key (xb_config_path e)) = None"
proof -
  let ?finish = "\<lambda>_ h. (case try_then (on_os (xray_validate_config e)) (\<lambda>_. xray_start e) h of
       (Inl error, h') \<Rightarrow> (Inl error, snd (xray_cleanup e h'))
     | (Inr u, h') \<Rightarrow> (Inr (), h'))"
  have "step_ok ActiveXray h h' \<and> (ho_process h = None \<and> r \<noteq> Inr () \<longrightarrow> ho_process h' = None)
    \<and> (r = Inr () \<longrightarrow> \<not> k \<and> validate_vless p = Inr () \<and> ho_process h' \<noteq> None
      \<and> os_files (ho_os h') (file_key (xb_config_path e)) = None)"
  proof (cases "\<not> k \<and> validate_vless p = Inr ()")
    case False
    with assms(1) show ?thesis
      by (cases "validate_vless p") (auto simp: xray_connect_def try_then_def map_err_def split: if_splits)
  next
    case True
    obtain c h1 where c: "xray_cleanup e h = (c, h1)" by fastforce
    obtain v h2 where v: "on_os (xray_verify_payloads sha e) h1 = (v, h2)" by fastforce
    obtain w h3 where w: "on_os (xray_write_config e p) h2 = (w, h3)" by fastforce
    note one = xray_cleanup_result(1,2) [OF c] and two = quiet_step [OF v within_any(1)]
      and three = quiet_step [OF w within_any(2)]
    have steps: "step_ok ActiveXray h h2" "step_ok ActiveXray h h3" using one two three by (blast intro: step_ok_trans)+
    then have tidy: "tidy h3" using assms(2) by (simp add: step_ok_def)
    have valid: "try_then (\<lambda>h. (map_err (\<lambda>_. BackendInvalidProfile) (validate_vless p), h)) f h = f () h"
      for f :: "unit \<Rightarrow> unit host_op" using True by (simp add: try_then_def)
    have run: "(case c of Inl x \<Rightarrow> (Inl x, h1) | Inr _ \<Rightarrow> (case v of Inl x \<Rightarrow> (Inl x, h2) | Inr _ \<Rightarrow>
        (case w of Inl x \<Rightarrow> (Inl x, h3) | Inr _ \<Rightarrow> ?finish () h3))) = (r, h')"
      using assms(1) True unfolding xray_connect_def
      by (simp add: valid try_then_step [where m = "xray_cleanup e", OF c]
          try_then_step [where m = "on_os (xray_verify_payloads sha e)", OF v]
          try_then_step [where m = "on_os (xray_write_config e p)", OF w] cong: sum.case_cong)
    show ?thesis
    proof (cases "c = Inr () \<and> v = Inr () \<and> w = Inr ()")
      case True
      then have "?finish () h3 = (r, h')" using run by simp
      from xray_finish [OF this _ tidy] one two three steps \<open>\<not> k \<and> validate_vless p = Inr ()\<close> show ?thesis
        by (auto intro: step_ok_trans)
    next
      case False
      then have "r \<noteq> Inr () \<and> h' \<in> {h1, h2, h3}" using run
        by (cases c; cases v; cases w) auto
      with one two three steps show ?thesis by auto
    qed
  qed
  then show "step_ok ActiveXray h h'"
    "ho_process h = None \<Longrightarrow> r \<noteq> Inr () \<Longrightarrow> ho_process h' = None"
    "r = Inr () \<Longrightarrow> \<not> k \<and> validate_vless p = Inr () \<and> ho_process h' \<noteq> None
      \<and> os_files (ho_os h') (file_key (xb_config_path e)) = None" by auto
qed

section \<open>Operations that add nothing\<close>

text \<open>\<open>shrinks m\<close>: whatever happens, \<open>m\<close> creates no file and no service.\<close>

definition shrinks :: "('e, 'a) os_op \<Rightarrow> bool" where
  "shrinks m \<longleftrightarrow>
     (\<forall>s k. (os_files s k = None \<longrightarrow> os_files (snd (m s)) k = None)
       \<and> (os_services s k = None \<longrightarrow> os_services (snd (m s)) k = None))"

named_theorems shrinks_intros \<open>operations that create nothing\<close>

lemma shrinksI:
  "(\<And>s r t k. m s = (r, t) \<Longrightarrow> (os_files s k = None \<longrightarrow> os_files t k = None)
     \<and> (os_services s k = None \<longrightarrow> os_services t k = None)) \<Longrightarrow> shrinks m"
  unfolding shrinks_def by (metis surjective_pairing)

lemma shrinksD:
  "shrinks m \<Longrightarrow> m s = (r, t) \<Longrightarrow> (os_files s k = None \<longrightarrow> os_files t k = None)
     \<and> (os_services s k = None \<longrightarrow> os_services t k = None)"
  unfolding shrinks_def by (metis snd_conv)

lemma shrinks_within: "within (\<lambda>_. False) (\<lambda>_. False) (\<lambda>_. True) m \<Longrightarrow> shrinks m"
  by (rule shrinksI) (auto simp: evolves_def dest: withinD)

lemma shrinks_try_then [shrinks_intros]:
  assumes "shrinks m" "\<And>x. shrinks (f x)"
  shows "shrinks (try_then m f)"
proof (rule shrinksI)
  fix s r t k
  assume run: "try_then m f s = (r, t)"
  obtain q u where q: "m s = (q, u)" by (cases "m s")
  show "(os_files s k = None \<longrightarrow> os_files t k = None) \<and> (os_services s k = None \<longrightarrow> os_services t k = None)"
    using shrinksD [OF assms(1) q, of k] shrinksD [OF assms(2), of _ u r t k] run q by (cases q) auto
qed

lemma shrinks_or_fail [shrinks_intros]: "shrinks m \<Longrightarrow> shrinks (or_fail e m)"
  by (auto simp: shrinks_def or_fail_def split: prod.split) (metis snd_conv)+

lemma shrinks_if [shrinks_intros]: "shrinks m \<Longrightarrow> shrinks n \<Longrightarrow> shrinks (if b then m else n)"
  by simp

lemma shrinks_case [shrinks_intros]:
  assumes "shrinks m" "\<And>e. shrinks (g e)" "\<And>x. shrinks (f x)"
  shows "shrinks (\<lambda>s. case m s of (Inl e, t) \<Rightarrow> g e t | (Inr x, t) \<Rightarrow> f x t)"
proof (rule shrinksI)
  fix s r t k
  assume run: "(case m s of (Inl e, t) \<Rightarrow> g e t | (Inr x, t) \<Rightarrow> f x t) = (r, t)"
  obtain q u where q: "m s = (q, u)" by (cases "m s")
  show "(os_files s k = None \<longrightarrow> os_files t k = None) \<and> (os_services s k = None \<longrightarrow> os_services t k = None)"
    using shrinksD [OF assms(1) q, of k] shrinksD [OF assms(2), of _ u r t k] shrinksD [OF assms(3), of _ u r t k]
      run q by (cases q) auto
qed

lemma shrinks_calls [shrinks_intros]:
  "shrinks svc_manager" "shrinks (svc_stop n)" "shrinks (svc_open n)" "shrinks (returning r)" "shrinks (\<lambda>s. (x, s))"
  by (rule shrinks_within, intro within_intros)+

lemma shrinks_remove [shrinks_intros]: "shrinks (remove_if_present p)"
  by (auto intro!: shrinksI simp: remove_if_present_def fs_remove_file_def dest!: os_call_same
      split: prod.splits fault.splits option.splits sum.splits)

lemma shrinks_service [shrinks_intros]:
  "shrinks (svc_query n)" "shrinks (svc_delete n)" "shrinks (wait_for_state n q k)"
proof -
  show "shrinks (svc_query n)"
  proof (rule shrinksI)
    fix s r t k
    assume "svc_query n s = (r, t)"
    from svc_query_result [OF this] show "(os_files s k = None \<longrightarrow> os_files t k = None)
        \<and> (os_services s k = None \<longrightarrow> os_services t k = None)" by (cases r) auto
  qed
  show "shrinks (svc_delete n)"
    by (auto intro!: shrinksI simp: svc_delete_def dest!: os_call_same split: prod.splits fault.splits)
  show "shrinks (wait_for_state n q k)"
  proof (rule shrinksI)
    fix s r t k'
    assume "wait_for_state n q k s = (r, t)"
    from wait_until_result [OF this [unfolded wait_for_state_def]]
    show "(os_files s k' = None \<longrightarrow> os_files t k' = None)
        \<and> (os_services s k' = None \<longrightarrow> os_services t k' = None)" by (cases "k' = n") auto
  qed
qed

lemma shrinks_cleanup:
  "shrinks (delete_service n k)" "shrinks (wireguard_cleanup_stale e)" "shrinks (amneziawg_cleanup_stale e')"
proof -
  show d: "shrinks (delete_service n k)" for n k
    unfolding delete_service_def by (intro shrinks_intros)
  show "shrinks (wireguard_cleanup_stale e)" unfolding wireguard_cleanup_stale_def by (intro shrinks_intros d)
  show "shrinks (amneziawg_cleanup_stale e')" unfolding amneziawg_cleanup_stale_def by (intro shrinks_intros d)
qed

section \<open>What a successful Xray connect did\<close>

lemma assign_success:
  "job_assign i s = (Inr u, t) \<Longrightarrow>
     os_processes t = (os_processes s)(i := map_option (ch_owned_update (\<lambda>_. True)) (os_processes s i))"
  by (cases u) (auto dest!: assign_processes)

lemma launch_success:
  assumes "xray_launch e s = (Inr pid, t)"
  shows "\<exists>root. xray_payload_root e = Inr root
    \<and> os_processes t pid = Some \<lparr>ch_command = [path_join root ''xray.exe'', ''run'', ''-config'', xb_config_path e], ch_owned = True\<rparr>"
proof -
  from assms obtain root s1 s2 i where root: "xray_payload_root e = Inr root"
    and s: "process_spawn [path_join root ''xray.exe'', ''run'', ''-config'', xb_config_path e] s1 = (Inr i, s2)"
    and rest: "(case job_assign i s2 of
            (Inl error, t) \<Rightarrow> (Inl Internal, job_close i (snd (process_wait i (snd (process_kill i t)))))
          | (Inr u, t) \<Rightarrow>
              (case process_try_wait i (os_sleep START_GRACE t) of
                 (Inl error, t) \<Rightarrow> (Inl Internal, job_close i t)
               | (Inr (Some status), t) \<Rightarrow> (Inl BackendServerUnavailable, job_close i t)
               | (Inr None, t) \<Rightarrow> (Inr i, t))) = (Inr pid, t)"
    by (auto simp: xray_launch_def success_simps xray_command_def and_then_def split: sum.splits)
  obtain q s3 where q: "job_assign i s2 = (q, s3)" by fastforce
  obtain a s4 where a: "process_try_wait i (os_sleep START_GRACE s3) = (a, s4)" by fastforce
  have r: "q = Inr ()" "a = Inr None" "pid = i" "t = s4"
    using rest q a by (auto split: sum.splits option.splits)
  have "os_processes s4 = os_processes s3"
    using try_wait_processes [OF a] r(2) by (auto simp: os_sleep_def)
  with assign_success [OF q [unfolded r(1)]] spawn_processes [OF s] root r show ?thesis by auto
qed

text \<open>
  \<open>launched_with\<close>: on the way from \<open>s\<close> to \<open>t\<close> the process was launched from a state whose configuration
  file held exactly \<open>config\<close> and whose payload files had the pinned hashes; a kill-on-close job owns
  it, and both configuration files are gone.
\<close>

definition launched_with ::
  "(u8 list \<Rightarrow> string) \<Rightarrow> xray_backend \<Rightarrow> string \<Rightarrow> u8 list \<Rightarrow> nat option \<Rightarrow> os \<Rightarrow> os \<Rightarrow> bool" where
  "launched_with sha e root config child s t \<longleftrightarrow>
     (\<exists>u v pid. evolves (\<lambda>x. x \<in> {file_key (xb_config_path e), file_key (xray_temporary e)}) (\<lambda>_. False) (\<lambda>_. True) s u
        \<and> os_files u (file_key (xb_config_path e)) = Some config
        \<and> pinned sha (os_files u) (path_join root ''xray.exe'') XRAY_SHA256
        \<and> pinned sha (os_files u) (path_join root ''wintun.dll'') XRAY_WINTUN_SHA256
        \<and> xray_launch e u = (Inr pid, v) \<and> child = Some pid
        \<and> evolves ((=) (file_key (xb_config_path e))) (\<lambda>_. False) (\<lambda>_. False) v t
        \<and> os_processes t pid =
            Some \<lparr>ch_command = [path_join root ''xray.exe'', ''run'', ''-config'', xb_config_path e], ch_owned = True\<rparr>)
     \<and> os_files t (file_key (xb_config_path e)) = None \<and> os_files t (file_key (xray_temporary e)) = None"

definition xray_paths :: "xray_backend \<Rightarrow> bool" where
  "xray_paths e \<longleftrightarrow> xb_config_path e = path_join (xb_runtime_root e) ''KenaiXray.json''"

lemma on_os_Inr: "on_os m h = (Inr x, h') \<longleftrightarrow> (\<exists>t. m (ho_os h) = (Inr x, t) \<and> h' = h\<lparr>ho_os := t\<rparr>)"
  by (auto simp: on_os_def split: prod.splits)

lemma xray_connect_success:
  assumes "xray_connect sha e p k h = (Inr (), h')" "xray_paths e"
  shows "\<not> k \<and> validate_vless p = Inr ()
    \<and> (\<exists>root. xray_payload_root e = Inr root
        \<and> launched_with sha e root (as_bytes (render_vless p)) (ho_process h') (ho_os h) (ho_os h'))"
proof -
  let ?F = "\<lambda>x. x \<in> {file_key (xb_config_path e), file_key (xray_temporary e)}"
  let ?to = "evolves ?F (\<lambda>_. False) (\<lambda>_. True)"
  from assms(1) have k: "\<not> k" by (auto simp: xray_connect_def split: if_splits)
  with assms(1) have fin: "try_then (\<lambda>h. (map_err (\<lambda>_. BackendInvalidProfile) (validate_vless p), h)) (\<lambda>_.
      try_then (xray_cleanup e) (\<lambda>_. try_then (on_os (xray_verify_payloads sha e)) (\<lambda>_.
      try_then (on_os (xray_write_config e p)) (\<lambda>_ h.
          (case try_then (on_os (xray_validate_config e)) (\<lambda>_. xray_start e) h of
             (Inl error, h') \<Rightarrow> (Inl error, snd (xray_cleanup e h'))
           | (Inr u, h') \<Rightarrow> (Inr (), h')))))) h = (Inr (), h')"
    by (simp add: xray_connect_def)
  then obtain h1 s2 s3 where v: "validate_vless p = Inr ()" and c: "xray_cleanup e h = (Inr (), h1)"
    and ve: "xray_verify_payloads sha e (ho_os h1) = (Inr (), s2)" and w: "xray_write_config e p s2 = (Inr (), s3)"
    and f: "try_then (on_os (xray_validate_config e)) (\<lambda>_. xray_start e) (h1\<lparr>ho_os := s3\<rparr>) = (Inr (), h')"
    by (auto simp: try_then_success on_os_Inr result_simps dest!: case_success)
  then obtain s4 s5 pid s6 where va: "xray_validate_config e s3 = (Inr (), s4)" and l: "xray_launch e s4 = (Inr pid, s5)"
    and rm: "remove_if_present (xb_config_path e) s5 = (Inr (), s6)"
    and h': "ho_os h' = s6" "ho_process h' = Some pid"
    by (auto simp: try_then_success on_os_Inr xray_start_def)
  have neq: "file_key (xray_temporary e) \<noteq> file_key (xb_config_path e)"
    using assms(2) by (auto simp: xray_paths_def xray_temporary_def file_key_def path_join_def)
  obtain root where root: "xray_payload_root e = Inr root"
    and p: "pinned sha (os_files s2) (path_join root ''xray.exe'') XRAY_SHA256"
      "pinned sha (os_files s2) (path_join root ''wintun.dll'') XRAY_WINTUN_SHA256"
    using xray_verify_success [OF ve] by auto
  have clean: "?to (ho_os h) (ho_os h1)" by (rule xray_cleanup_evolves [OF c]) simp_all
  have W: "within ?F (\<lambda>_. False) (\<lambda>_. True) (xray_verify_payloads sha e)" "within ?F (\<lambda>_. False) (\<lambda>_. True) (xray_write_config e p)"
    by (intro within_intros; simp)+
  have V: "within (\<lambda>_. False) (\<lambda>_. False) (\<lambda>_. True) (xray_validate_config e)"
    unfolding xray_validate_config_def by (intro within_intros) (auto split: prod.split intro: within_intros)
  have L: "within (\<lambda>_. False) (\<lambda>_. False) (\<lambda>_. True) (xray_launch e)" by (intro within_intros)
  have R: "within ((=) (file_key (xb_config_path e))) (\<lambda>_. False) (\<lambda>_. False) (remove_if_present (xb_config_path e))"
    by (intro within_intros) simp
  note valid = withinD [OF V va] and last = withinD [OF R rm]
  have before: "?to (ho_os h) s4"
    using evolves_trans [OF evolves_trans [OF evolves_trans [OF clean withinD [OF W(1) ve]] withinD [OF W(2) w]]
        evolves_mono [OF valid]] by auto
  have key: "file_key (path_join root n) \<notin> {file_key (xb_config_path e), file_key (xray_temporary e)}"
    if "n \<noteq> []" "ascii_lower (last n) \<notin> {CHR ''n'', CHR ''w''}" for n
    using that key_neq [of n "''KenaiXray.json''" root "xb_runtime_root e"]
      key_neq [of n "''KenaiXray.json.new''" root "xb_runtime_root e"] last_lower assms(2)
    by (auto simp: xray_paths_def xray_temporary_def)
  have "pinned sha (os_files s3) (path_join root n) x"
    if "pinned sha (os_files s2) (path_join root n) x" "n \<noteq> []" "ascii_lower (last n) \<notin> {CHR ''n'', CHR ''w''}" for n x
    by (rule pinned_evolves [OF withinD [OF W(2) w] key [OF that(2,3)] that(1)])
  from this [OF p(1)] this [OF p(2)] last_lower valid
  have pins: "pinned sha (os_files s4) (path_join root ''xray.exe'') XRAY_SHA256"
    "pinned sha (os_files s4) (path_join root ''wintun.dll'') XRAY_WINTUN_SHA256"
    by (simp_all add: pinned_def evolves_def)
  have files: "os_files s4 = os_files s3" "os_files s5 = os_files s4"
    using valid withinD [OF L l] by (auto simp: evolves_def)
  have "os_processes s6 = os_processes s5" using last by (auto simp: evolves_def)
  with launch_success [OF l] root have child: "os_processes s6 pid =
      Some \<lparr>ch_command = [path_join root ''xray.exe'', ''run'', ''-config'', xb_config_path e], ch_owned = True\<rparr>" by simp
  have "launched_with sha e root (as_bytes (render_vless p)) (Some pid) (ho_os h) s6"
    unfolding launched_with_def
    using before pins l last child files xray_write_success [OF w neq] remove_if_present_success [OF rm] by auto
  with k v root h' show ?thesis by simp
qed

end
