(* ===== verification/Backend_System.thy ===== *)
theory Backend_System
  imports Backend_Laws Provisioning
begin

text \<open>
  The contract of an engine, its three interpretations, and \<open>WindowsVpnBackend\<close> as a system of calls.
  The invariant says that at most one tunnel exists, that the active engine is the one whose tunnel
  exists, and that no process is without an owner.
\<close>

section \<open>The contract of an engine\<close>

locale exclusive_engine =
  fixes engine :: active_engine
    and stop :: "unit host_op"
    and start :: "'p \<Rightarrow> bool \<Rightarrow> unit host_op"
    and secrets :: "string set"
  assumes stop_step: "stop h = (r, h') \<Longrightarrow> step_ok engine h h'"
    and stop_shrinks: "stop h = (r, h') \<Longrightarrow>
      (present engine h' \<longrightarrow> present engine h) \<and> (os_files (ho_os h) k = None \<longrightarrow> os_files (ho_os h') k = None)"
    and stop_success: "stop h = (Inr (), h') \<Longrightarrow>
      (host_opens h \<longrightarrow> \<not> present engine h') \<and> (k \<in> secrets \<longrightarrow> os_files (ho_os h') k = None)"
    and start_step: "tidy h \<Longrightarrow> start p kill_switch h = (r, h') \<Longrightarrow> step_ok engine h h'"
    and start_success: "tidy h \<Longrightarrow> start p kill_switch h = (Inr (), h') \<Longrightarrow> present engine h' \<and> \<not> kill_switch"
begin

lemma stopped:
  assumes "stop h = (r, h')"
  shows "tunnels h' \<subseteq> tunnels h" "r = Inr () \<Longrightarrow> host_opens h \<Longrightarrow> tunnels h' = tunnels h - {engine}"
proof -
  have others: "e = engine \<or> present e h' = present e h" for e
    using stop_step [OF assms] by (auto simp: step_ok_def diff_single_iff)
  show "tunnels h' \<subseteq> tunnels h" using stop_shrinks [OF assms] others by (metis subsetI tunnels_iff)
  show "tunnels h' = tunnels h - {engine}" if "r = Inr ()" "host_opens h"
    using stop_success [of h h'] assms that others
    by (intro set_eqI) (metis Diff_iff singletonD singletonI tunnels_iff)
qed

lemma started:
  assumes "start p kill_switch h = (r, h')" "tidy h" "tunnels h = {}"
  shows "tunnels h' \<subseteq> {engine} \<and> (r = Inr () \<longrightarrow> tunnels h' = {engine} \<and> \<not> kill_switch)"
proof -
  have "tunnels h' - {engine} = {}" using start_step [OF assms(2,1)] assms(3) by (simp add: step_ok_def)
  moreover have "engine \<in> tunnels h' \<and> \<not> kill_switch" if "r = Inr ()"
    using start_success [OF assms(2)] assms(1) that by auto
  ultimately show ?thesis by auto
qed

end

section \<open>The three engines meet it\<close>

lemma start_runs:
  assumes "run_service n c k s = (Inr u, v)" "os_services t = os_services v"
  shows "os_services t n \<noteq> None"
  using run_service_success [OF assms(1)] assms(2) by simp

lemma remove_same_services: "fs_remove_file p s = (r, t) \<Longrightarrow> os_services t = os_services s"
  by (auto dest!: fs_remove_result simp: changes_def)

lemma remove_present_services: "remove_if_present p s = (r, t) \<Longrightarrow> os_services t = os_services s"
  by (auto simp: remove_if_present_def dest: remove_same_services split: prod.splits sum.splits)

lemma wireguard_connect_runs:
  assumes "wireguard_connect b64 sha e p k s = (Inr u, t)"
  shows "os_services t WG_SERVICE_NAME \<noteq> None \<and> \<not> k"
proof -
  from assms have k: "\<not> k" by (auto simp: wireguard_connect_def success_simps split: if_splits)
  with assms obtain s3 where "wireguard_create_and_start_service e s3 = (Inr (), t)"
    by (auto simp: wireguard_connect_def success_simps result_simps dest!: case_success)
  then obtain v where "run_service WG_SERVICE_NAME [tb_executable e, ''/wireguard-service'', tb_config_path e]
      WG_TIMEOUT s3 = (Inr (), v)" "fs_remove_file (tb_config_path e) v = (Inr (), t)"
    by (auto simp: wireguard_create_and_start_service_def success_simps)
  from start_runs [OF this(1) remove_same_services [OF this(2)]] k show ?thesis by simp
qed

lemma amneziawg_connect_runs:
  assumes "amneziawg_connect b64 sha e p k s = (Inr u, t)"
  shows "os_services t AWG_SERVICE_NAME \<noteq> None \<and> \<not> k"
proof -
  from assms have k: "\<not> k" by (auto simp: amneziawg_connect_def success_simps split: if_splits)
  with assms obtain s3 where "amneziawg_start_service e s3 = (Inr (), t)"
    by (auto simp: amneziawg_connect_def success_simps result_simps dest!: case_success)
  then obtain v root where "run_service AWG_SERVICE_NAME
      [path_join root ''amneziawg.exe'', ''/tunnelservice'', tb_config_path e] AWG_TIMEOUT s3 = (Inr (), v)"
    "remove_if_present (tb_config_path e) v = (Inr (), t)"
    by (auto simp: amneziawg_start_service_def success_simps)
  from start_runs [OF this(1) remove_present_services [OF this(2)]] k show ?thesis by simp
qed

lemma wireguard_cleanup_success:
  "wireguard_cleanup_stale e s = (Inr u, t) \<Longrightarrow>
     os_files t (file_key (tb_config_path e)) = None \<and> os_files t (file_key (wireguard_temporary e)) = None
     \<and> (opens (os_env s) \<longrightarrow> os_services t WG_SERVICE_NAME = None)"
  unfolding wireguard_cleanup_stale_def by (auto dest: cleanup_success)

lemma amneziawg_cleanup_success:
  "amneziawg_cleanup_stale e s = (Inr u, t) \<Longrightarrow>
     os_files t (file_key (tb_config_path e)) = None \<and> os_files t (file_key (amneziawg_temporary e)) = None
     \<and> (opens (os_env s) \<longrightarrow> os_services t AWG_SERVICE_NAME = None)"
  unfolding amneziawg_cleanup_stale_def by (auto dest: cleanup_success)

text \<open>What both tunnel engines share: their cleanup and their start as operations on the host.\<close>

lemma service_stop:
  assumes "on_os m h = (r, h')" "shrinks m"
    "\<And>s u t. m s = (Inr u, t) \<Longrightarrow> os_files t cfg = None \<and> os_files t tmp = None \<and> (opens (os_env s) \<longrightarrow> os_services t n = None)"
    "n = WG_SERVICE_NAME \<and> engine = ActiveWireGuard \<or> n = AWG_SERVICE_NAME \<and> engine = ActiveAmneziaWg"
  shows "(present engine h' \<longrightarrow> present engine h) \<and> (os_files (ho_os h) k = None \<longrightarrow> os_files (ho_os h') k = None)"
    "r = Inr () \<Longrightarrow> (host_opens h \<longrightarrow> \<not> present engine h') \<and> (k \<in> {cfg, tmp} \<longrightarrow> os_files (ho_os h') k = None)"
proof -
  from assms(1) obtain t where t: "m (ho_os h) = (r, t)" "h' = h\<lparr>ho_os := t\<rparr>" by (rule on_os_step)
  from shrinksD [OF assms(2) t(1)] t(2) assms(4)
  show "(present engine h' \<longrightarrow> present engine h) \<and> (os_files (ho_os h) k = None \<longrightarrow> os_files (ho_os h') k = None)"
    by fastforce
  show "(host_opens h \<longrightarrow> \<not> present engine h') \<and> (k \<in> {cfg, tmp} \<longrightarrow> os_files (ho_os h') k = None)" if "r = Inr ()"
    using assms(3) [of "ho_os h" "()" t] t assms(4) that by (auto simp: host_opens_def)
qed

lemma within_service_only:
  "within (\<lambda>_. True) ((=) WG_SERVICE_NAME) (\<lambda>_. False) (wireguard_cleanup_stale e)"
  "within (\<lambda>_. True) ((=) WG_SERVICE_NAME) (\<lambda>_. False) (wireguard_connect b64 sha e p k)"
  "within (\<lambda>_. True) ((=) AWG_SERVICE_NAME) (\<lambda>_. False) (amneziawg_cleanup_stale e)"
  "within (\<lambda>_. True) ((=) AWG_SERVICE_NAME) (\<lambda>_. False) (amneziawg_connect b64 sha e q k)"
  by (intro within_intros; simp)+

interpretation wg_engine:
  exclusive_engine ActiveWireGuard "on_os (wireguard_disconnect e)" "\<lambda>p k. on_os (wireguard_connect b64 sha e p k)"
    "{file_key (tb_config_path e), file_key (wireguard_temporary e)}"
  for e b64 sha
proof (unfold_locales, unfold wireguard_disconnect_def, goal_cases)
  case (1 h r h')
  then show ?case by (rule service_step) (simp_all add: within_service_only)
next
  case (2 h r h' k)
  then show ?case
    by (rule service_stop(1) [OF _ shrinks_cleanup(2) wireguard_cleanup_success]) simp_all
next
  case (3 h h' k)
  then show ?case
    by (rule service_stop(2) [OF _ shrinks_cleanup(2) wireguard_cleanup_success]) simp_all
next
  case (4 h p k r h')
  from 4(2) show ?case by (rule service_step) (simp_all add: within_service_only)
next
  case (5 h p k h')
  then show ?case by (auto elim!: on_os_success dest!: wireguard_connect_runs)
qed

interpretation awg_engine:
  exclusive_engine ActiveAmneziaWg "on_os (amneziawg_disconnect e)" "\<lambda>p k. on_os (amneziawg_connect b64 sha e p k)"
    "{file_key (tb_config_path e), file_key (amneziawg_temporary e)}"
  for e b64 sha
proof (unfold_locales, unfold amneziawg_disconnect_def, goal_cases)
  case (1 h r h')
  then show ?case by (rule service_step) (simp_all add: within_service_only)
next
  case (2 h r h' k)
  then show ?case
    by (rule service_stop(1) [OF _ shrinks_cleanup(3) amneziawg_cleanup_success]) simp_all
next
  case (3 h h' k)
  then show ?case
    by (rule service_stop(2) [OF _ shrinks_cleanup(3) amneziawg_cleanup_success]) simp_all
next
  case (4 h p k r h')
  from 4(2) show ?case by (rule service_step) (simp_all add: within_service_only)
next
  case (5 h p k h')
  then show ?case by (auto elim!: on_os_success dest!: amneziawg_connect_runs)
qed

lemma xray_cleanup_shrinks:
  assumes "xray_cleanup e h = (r, h')"
  shows "os_files (ho_os h) k = None \<longrightarrow> os_files (ho_os h') k = None"
proof -
  obtain q h1 where q: "(case ho_process h of None \<Rightarrow> (Inr (), h)
      | Some pid \<Rightarrow> on_os (xray_stop pid) (h\<lparr>ho_process := None\<rparr>)) = (q, h1)" by fastforce
  obtain c h2 where c: "on_os (remove_if_present (xb_config_path e)) h1 = (c, h2)" by fastforce
  obtain d h3 where d: "on_os (remove_if_present (xray_temporary e)) h2 = (d, h3)" by fastforce
  have "h' = h3" using assms q c d by (auto simp: xray_cleanup_def split: prod.splits)
  moreover have "os_files (ho_os h1) k = os_files (ho_os h) k"
    using cleanup_process [OF q] by (auto simp: evolves_def)
  moreover from c obtain t where "remove_if_present (xb_config_path e) (ho_os h1) = (c, t)" "h2 = h1\<lparr>ho_os := t\<rparr>"
    by (rule on_os_step)
  moreover from d obtain v where "remove_if_present (xray_temporary e) (ho_os h2) = (d, v)" "h3 = h2\<lparr>ho_os := v\<rparr>"
    by (rule on_os_step)
  ultimately show ?thesis using shrinksD [OF shrinks_remove] by fastforce
qed

interpretation xr_engine:
  exclusive_engine ActiveXray "xray_disconnect e" "xray_connect sha e"
    "{file_key (xb_config_path e), file_key (xray_temporary e)}"
  for e sha
proof (unfold_locales, unfold xray_disconnect_def, goal_cases)
  case (1 h r h')
  then show ?case by (rule xray_cleanup_result(1))
next
  case (2 h r h' k)
  then show ?case using xray_cleanup_result(2) [OF 2] xray_cleanup_shrinks [OF 2, of k] by simp
next
  case (3 h h' k)
  then show ?case using xray_cleanup_result(2,3) [OF 3] by auto
next
  case (4 h p k r h')
  then show ?case by (rule xray_connect_result(1) [rotated])
next
  case (5 h p k h')
  then show ?case using xray_connect_result(3) [OF 5(2,1)] by simp
qed

section \<open>Stopping everything\<close>

text \<open>The files that hold key material while an engine starts.\<close>

definition secret_files :: "windows_backend \<Rightarrow> string set" where
  "secret_files B =
     {file_key (tb_config_path (wb_wireguard B)), file_key (wireguard_temporary (wb_wireguard B)),
      file_key (tb_config_path (wb_amneziawg B)), file_key (amneziawg_temporary (wb_amneziawg B)),
      file_key (xb_config_path (wb_xray B)), file_key (xray_temporary (wb_xray B))}"

lemma result_and_Inr [simp]: "result_and r q = Inr u \<longleftrightarrow> r = Inr () \<and> q = Inr ()"
  by (cases r) (auto simp: result_and_def)

lemma disconnect_all_result:
  assumes "disconnect_all B h = (r, h')"
  shows "os_env (ho_os h') = os_env (ho_os h)" "ho_active h' = None" "ho_process h' = None" "tidy h \<Longrightarrow> tidy h'"
    "tunnels h' \<subseteq> tunnels h"
    "r = Inr () \<Longrightarrow> \<forall>k \<in> secret_files B. os_files (ho_os h') k = None"
    "r = Inr () \<Longrightarrow> host_opens h \<Longrightarrow> tunnels h' = {}"
proof -
  obtain a h1 where a: "on_os (wireguard_disconnect (wb_wireguard B)) h = (a, h1)" by fastforce
  obtain b h2 where b: "on_os (amneziawg_disconnect (wb_amneziawg B)) h1 = (b, h2)" by fastforce
  obtain c h3 where c: "xray_disconnect (wb_xray B) h2 = (c, h3)" by fastforce
  have run: "r = result_and (result_and a b) c" "h' = h3\<lparr>ho_active := None\<rparr>"
    using assms a b c by (auto simp: disconnect_all_def)
  note steps = wg_engine.stop_step [OF a] awg_engine.stop_step [OF b] xr_engine.stop_step [OF c]
  have same: "tunnels h' = tunnels h3" "tidy h' = tidy h3" "ho_os h' = ho_os h3" "ho_process h' = ho_process h3"
  proof -
    have "present e h' = present e h3" for e by (cases e) (simp_all add: run(2))
    then show "tunnels h' = tunnels h3" by (simp add: tunnels_def)
  qed (simp_all add: run(2) tidy_def)
  show "os_env (ho_os h') = os_env (ho_os h)" "tidy h \<Longrightarrow> tidy h'"
    using steps same by (simp_all add: step_ok_def)
  show "ho_active h' = None" by (simp add: run(2))
  show "ho_process h' = None"
    using xray_cleanup_result(2) [OF c [unfolded xray_disconnect_def]] same by simp
  show "tunnels h' \<subseteq> tunnels h"
    using wg_engine.stopped(1) [OF a] awg_engine.stopped(1) [OF b] xr_engine.stopped(1) [OF c] same by simp
  show "\<forall>k \<in> secret_files B. os_files (ho_os h') k = None" if "r = Inr ()"
  proof -
    from that run(1) have ok: "a = Inr ()" "b = Inr ()" "c = Inr ()" by auto
    note a' = wg_engine.stop_success [OF a [unfolded ok]] and b' = awg_engine.stop_success [OF b [unfolded ok]]
      and c' = xr_engine.stop_success [OF c [unfolded ok]]
      and b'' = awg_engine.stop_shrinks [OF b] and c'' = xr_engine.stop_shrinks [OF c]
    show ?thesis unfolding secret_files_def same using a' b' c' b'' c'' by simp
  qed
  show "tunnels h' = {}" if "r = Inr ()" "host_opens h"
  proof -
    from that(1) run(1) have ok: "a = Inr ()" "b = Inr ()" "c = Inr ()" by auto
    have opens: "host_opens h1" "host_opens h2"
      using that(2) step_ok_opens [OF steps(1)] step_ok_opens [OF steps(2)] by simp_all
    have "tunnels h3 = tunnels h - {ActiveWireGuard} - {ActiveAmneziaWg} - {ActiveXray}"
      using wg_engine.stopped(2) [OF a ok(1) that(2)] awg_engine.stopped(2) [OF b ok(2) opens(1)]
        xr_engine.stopped(2) [OF c ok(3) opens(2)] by simp
    moreover have "(UNIV :: active_engine set) = {ActiveWireGuard, ActiveAmneziaWg, ActiveXray}"
      by (auto intro: active_engine.exhaust)
    ultimately show ?thesis using same by (auto intro: active_engine.exhaust)
  qed
qed

section \<open>At most one tunnel\<close>

definition exclusive :: "host \<Rightarrow> bool" where
  "exclusive h \<longleftrightarrow> host_opens h \<and> tidy h \<and> (\<exists>e. tunnels h \<subseteq> {e})
     \<and> (\<forall>e. ho_active h = Some e \<longrightarrow> tunnels h = {e})"

lemma exclusive_idle: "host_opens h \<Longrightarrow> tidy h \<Longrightarrow> tunnels h \<subseteq> {e} \<Longrightarrow> ho_active h = None \<Longrightarrow> exclusive h"
  by (auto simp: exclusive_def)

lemma set_active_fields:
  "tunnels (h\<lparr>ho_active := a\<rparr>) = tunnels h" "tidy (h\<lparr>ho_active := a\<rparr>) = tidy h"
  "host_opens (h\<lparr>ho_active := a\<rparr>) = host_opens h"
proof -
  have "present e (h\<lparr>ho_active := a\<rparr>) = present e h" for e by (cases e) simp_all
  then show "tunnels (h\<lparr>ho_active := a\<rparr>) = tunnels h" by (simp add: tunnels_def)
qed (simp_all add: tidy_def host_opens_def)

lemma disconnect_exclusive:
  assumes "disconnect_all B h = (r, h')" "exclusive h"
  shows "exclusive h'" "r = Inr () \<Longrightarrow> tunnels h' = {}"
proof -
  note d = disconnect_all_result [OF assms(1)]
  from assms(2) obtain e where e: "tunnels h \<subseteq> {e}" and h: "host_opens h" "tidy h" by (auto simp: exclusive_def)
  have "host_opens h'" using d(1) h(1) by (simp add: host_opens_def)
  with d(2) d(4) [OF h(2)] order_trans [OF d(5) e] show "exclusive h'" by (intro exclusive_idle)
  show "r = Inr () \<Longrightarrow> tunnels h' = {}" using d(7) h(1) by simp
qed

context exclusive_engine
begin

text \<open>The body of the three connect methods of the backend.\<close>

lemma selected:
  assumes "try_then (disconnect_all B) (\<lambda>_. try_then (start p kill_switch) (\<lambda>_. set_active engine)) h = (r, h')"
    "exclusive h"
  shows "exclusive h' \<and> (r = Inr () \<longrightarrow> ho_active h' = Some engine \<and> \<not> kill_switch) \<and> (r \<noteq> Inr () \<longrightarrow> ho_active h' = None)"
proof -
  obtain d h1 where d: "disconnect_all B h = (d, h1)" by fastforce
  note stop = disconnect_exclusive [OF d assms(2)] and idle = disconnect_all_result(2) [OF d]
  show ?thesis
  proof (cases d)
    case (Inl x)
    with assms(1) d stop idle show ?thesis by (auto simp: try_then_def)
  next
    case (Inr u)
    obtain q h2 where q: "start p kill_switch h1 = (q, h2)" by fastforce
    have h1: "host_opens h1" "tidy h1" "tunnels h1 = {}" using stop Inr by (simp_all add: exclusive_def)
    have step: "step_ok engine h1 h2" using start_step [OF h1(2) q] .
    then have h2: "host_opens h2" "tidy h2" "ho_active h2 = None"
      using h1 idle step_ok_opens [OF step] by (simp_all add: step_ok_def)
    note new = started [OF q h1(2,3)]
    show ?thesis
    proof (cases q)
      case (Inl x)
      with assms(1) d Inr q have "r = Inl x" "h' = h2" by (auto simp: try_then_def)
      with exclusive_idle [OF h2(1,2) conjunct1 [OF new] h2(3)] h2(3) show ?thesis by simp
    next
      case (Inr v)
      with assms(1) d \<open>d = Inr u\<close> q have "r = Inr ()" "h' = h2\<lparr>ho_active := Some engine\<rparr>"
        by (auto simp: try_then_def set_active_def)
      with new Inr h2 show ?thesis by (auto simp: exclusive_def set_active_fields)
    qed
  qed
qed

end

primrec engine_of :: "protocol \<Rightarrow> active_engine" where
  "engine_of WireGuard = ActiveWireGuard"
| "engine_of AmneziaWg = ActiveAmneziaWg"
| "engine_of VlessReality = ActiveXray"

lemma backend_methods [simp]:
  "be_connect (WindowsVpnBackend B) = backend_connect B"
  "be_connect_amneziawg (WindowsVpnBackend B) = backend_connect_amneziawg B"
  "be_connect_vless (WindowsVpnBackend B) = backend_connect_vless B"
  "be_disconnect (WindowsVpnBackend B) = disconnect_all B"
  "be_is_connected (WindowsVpnBackend B) h = fst (backend_is_connected B h)"
  "be_statistics (WindowsVpnBackend B) h = fst (backend_statistics B h)"
  by (simp_all add: WindowsVpnBackend_def backend_disconnect_def)

lemma engine_start_selected:
  assumes "engine_start (WindowsVpnBackend B) x i k h = (r, h')" "exclusive h"
  shows "exclusive h' \<and> (r = Inr () \<longrightarrow> ho_active h' = Some (engine_of (protocol_of x)) \<and> \<not> k)
    \<and> (r \<noteq> Inr () \<longrightarrow> ho_active h' = None)"
proof (cases x)
  case (AnyWireGuard p)
  with assms show ?thesis by (auto simp: backend_connect_def dest!: wg_engine.selected)
next
  case (AnyAmneziaWg p)
  with assms show ?thesis by (auto simp: backend_connect_amneziawg_def dest!: awg_engine.selected)
next
  case (AnyVless p)
  with assms show ?thesis by (auto simp: backend_connect_vless_def dest!: xr_engine.selected)
qed

text \<open>The backend as a system of the calls that change it.\<close>

datatype backend_call = StartTunnel any_profile string bool | StopTunnel

primrec backend_step :: "windows_backend \<Rightarrow> backend_call \<Rightarrow> host \<Rightarrow> (backend_failure + unit) \<times> host" where
  "backend_step B (StartTunnel x i k) h = engine_start (WindowsVpnBackend B) x i k h"
| "backend_step B StopTunnel h = be_disconnect (WindowsVpnBackend B) h"

lemma backend_step_exclusive:
  assumes "exclusive h"
  shows "exclusive (snd (backend_step B call h))"
proof (cases call)
  case (StartTunnel x i k)
  then show ?thesis using engine_start_selected [OF _ assms, of B x i k] by (cases "engine_start (WindowsVpnBackend B) x i k h") auto
next
  case StopTunnel
  then show ?thesis using disconnect_exclusive(1) [OF _ assms, of B] by (cases "disconnect_all B h") auto
qed

interpretation one_tunnel: stable_system "backend_step B" "\<lambda>_. True" exclusive
  for B
  by unfold_locales (rule backend_step_exclusive)

end
