(* ===== verification/Whole_Service.thy ===== *)
theory Whole_Service
  imports Backend_System
begin

text \<open>
  The processor of \<open>vpn_service_core\<close> on \<open>WindowsVpnBackend\<close>: the state a new service starts in, and
  what its event says about the tunnels that exist.
\<close>

section \<open>A new service has no tunnel\<close>

lemma within_runtime [within_intros]: "within F S C (runtime_directory program_data)"
  unfolding runtime_directory_def apply_service_acl_def by (intro within_intros)

lemma settled [success_simps]:
  "(case m s of (Inl e, t) \<Rightarrow> (Inl (), t) | (Inr u, t) \<Rightarrow> (Inr x, t)) = (Inr y, t) \<longleftrightarrow> (\<exists>u. m s = (Inr u, t)) \<and> x = y"
  by (auto split: prod.splits sum.splits)

text \<open>What a successful construction of a tunnel engine leaves.\<close>

lemma tunnel_default_result:
  assumes "tunnel_system_default name cleanup executable program_data s = (Inr e, t)"
    "\<And>e s u t. cleanup e s = (Inr u, t) \<Longrightarrow> opens (os_env s) \<longrightarrow> os_services t n = None"
    "\<And>e. within (\<lambda>_. True) ((=) n) (\<lambda>_. False) (cleanup e)" "opens (os_env s)"
  shows "os_services t n = None" "evolves (\<lambda>_. True) ((=) n) (\<lambda>_. False) s t"
proof -
  from assms(1) obtain root s1 where s1: "runtime_directory program_data s = (Inr root, s1)"
    and c: "cleanup e s1 = (Inr (), t)"
    by (auto simp: tunnel_system_default_def success_simps Let_def)
  have ev: "evolves (\<lambda>_. True) ((=) n) (\<lambda>_. False) s s1" by (rule withinD [OF within_runtime s1])
  with c assms(2) [OF c] assms(4) show "os_services t n = None" by (simp add: evolves_def)
  show "evolves (\<lambda>_. True) ((=) n) (\<lambda>_. False) s t"
    using evolves_trans [OF ev withinD [OF assms(3) c]] .
qed

lemma xray_default_result:
  assumes "xray_system_default executable program_data s = (Inr e, t)"
  shows "evolves (\<lambda>_. True) (\<lambda>_. False) (\<lambda>_. False) s t"
proof -
  from assms obtain root s1 u where s1: "runtime_directory program_data s = (Inr root, s1)"
    and c: "remove_if_present (path_join root ''KenaiXray.json'') s1 = (Inr u, t)"
    by (auto simp: xray_system_default_def success_simps)
  show ?thesis using evolves_trans [OF withinD [OF within_runtime s1] withinD [OF true_within c]] .
qed

lemma evolves_services: "evolves F S C s t \<Longrightarrow> \<forall>n. S n \<or> os_services t n = os_services s n"
  by (simp add: evolves_def)

lemma backend_default_idle:
  assumes "backend_system_default b64 sha executable program_data s = (Inr (B, h), t)" "opens (os_env s)"
    "os_processes s = Map.empty"
  shows "exclusive h" "tunnels h = {}"
proof -
  from assms(1) obtain w s1 a s2 x where w: "wireguard_system_default executable program_data s = (Inr w, s1)"
    and a: "amneziawg_system_default executable program_data s1 = (Inr a, s2)"
    and x: "xray_system_default executable program_data s2 = (Inr x, t)"
    and h: "h = \<lparr>ho_os = t, ho_process = None, ho_active = None\<rparr>"
    by (auto simp: backend_system_default_def try_then_success)
  have one: "os_services s1 WG_SERVICE_NAME = None" "evolves (\<lambda>_. True) ((=) WG_SERVICE_NAME) (\<lambda>_. False) s s1"
    using tunnel_default_result [OF w [unfolded wireguard_system_default_def], of WG_SERVICE_NAME]
      wireguard_cleanup_success within_service_only(1) assms(2) by blast+
  have env: "opens (os_env s1)" using evolves_env [OF one(2)] assms(2) by simp
  have two: "os_services s2 AWG_SERVICE_NAME = None" "evolves (\<lambda>_. True) ((=) AWG_SERVICE_NAME) (\<lambda>_. False) s1 s2"
    using tunnel_default_result [OF a [unfolded amneziawg_system_default_def], of AWG_SERVICE_NAME]
      amneziawg_cleanup_success within_service_only(3) env by blast+
  note three = xray_default_result [OF x]
  have gone: "os_services t WG_SERVICE_NAME = None" "os_services t AWG_SERVICE_NAME = None"
    using one(1) two(1) spec [OF evolves_services [OF two(2)], of WG_SERVICE_NAME]
      spec [OF evolves_services [OF three], of WG_SERVICE_NAME] spec [OF evolves_services [OF three], of AWG_SERVICE_NAME]
    by auto
  have "present e h \<longleftrightarrow> False" for e using gone h by (cases e) simp_all
  then show none: "tunnels h = {}" by (simp add: tunnels_def)
  have "os_processes t = Map.empty" using one(2) two(2) three assms(3) by (auto simp: evolves_def fun_eq_iff)
  then have "tidy h" by (simp add: tidy_def only_child_def h)
  moreover have "host_opens h"
    using evolves_env [OF two(2)] evolves_env [OF three] env h by (simp add: host_opens_def)
  ultimately show "exclusive h" using none h by (intro exclusive_idle) simp_all
qed

section \<open>The event and the tunnels\<close>

lemma start_engine_backend:
  assumes "start_engine V B c p = (r, q)"
  shows "(\<exists>e. r = Inl e) \<and> pr_backend q = pr_backend p
    \<or> (\<exists>x f. protocol_of x = cr_protocol c \<and> r = Inr f
        \<and> engine_start B x (cr_profile_id c) (cr_kill_switch c) (pr_backend p) = (f, pr_backend q))"
proof (cases "cr_protocol c")
  case WireGuard
  with assms show ?thesis
    by (auto simp: start_engine_def try_then_def on_backend_def split: sum.splits prod.splits
        intro!: exI [of _ "AnyWireGuard p" for p])
next
  case AmneziaWg
  with assms show ?thesis
    by (auto simp: start_engine_def try_then_def on_backend_def split: sum.splits prod.splits
        intro!: exI [of _ "AnyAmneziaWg p" for p])
next
  case VlessReality
  with assms show ?thesis
    by (auto simp: start_engine_def try_then_def on_backend_def split: sum.splits prod.splits
        intro!: exI [of _ "AnyVless p" for p])
qed

text \<open>
  \<open>joined\<close>: at most one tunnel, and while the event says \<open>Connected\<close> an engine is active, so its tunnel
  exists and no other.
\<close>

definition joined :: "('v, host) processor \<Rightarrow> bool" where
  "joined p \<longleftrightarrow> exclusive (pr_backend p)
     \<and> (se_phase (pr_machine p) = Connected \<longrightarrow> ho_active (pr_backend p) \<noteq> None)"

lemma connect_joined:
  assumes "joined p"
  shows "joined (snd (processor_connect_request V (WindowsVpnBackend B) c p))
    \<and> (fst (processor_connect_request V (WindowsVpnBackend B) c p) = Inr ''CONNECTED'' \<longrightarrow>
        ho_active (pr_backend (snd (processor_connect_request V (WindowsVpnBackend B) c p)))
          = Some (engine_of (cr_protocol c)) \<and> \<not> cr_kill_switch c)"
proof -
  consider "trim (cr_operation_id c) = []" | "trim (cr_operation_id c) \<noteq> []" "trim (cr_profile_id c) = []"
    | "trim (cr_operation_id c) \<noteq> []" "trim (cr_profile_id c) \<noteq> []" "\<not> idle (se_phase (pr_machine p))"
    | "trim (cr_operation_id c) \<noteq> []" "trim (cr_profile_id c) \<noteq> []" "idle (se_phase (pr_machine p))"
    by blast
  then show ?thesis
  proof cases
    case 4
    obtain r q where s: "start_engine V (WindowsVpnBackend B) c (p\<lparr>pr_machine := started Connecting (cr_profile_id c)\<rparr>) = (r, q)"
      by fastforce
    have q: "pr_machine q = started Connecting (cr_profile_id c)" by (subst start_engine_frame [OF s]) simp
    have ex: "exclusive (pr_backend p)" using assms by (simp add: joined_def)
    have ok: "exclusive (pr_backend q)
        \<and> (r = Inr (Inr ()) \<longrightarrow> ho_active (pr_backend q) = Some (engine_of (cr_protocol c)) \<and> \<not> cr_kill_switch c)"
      using start_engine_backend [OF s] ex by (auto dest!: engine_start_selected [OF _ ex])
    show ?thesis
      unfolding connect_idle [OF 4] s using ok q
      by (auto simp: joined_def started_def failed_state_def split: sum.splits)
  qed (use assms in \<open>auto simp: connect_blank_operation connect_blank_profile connect_busy clear_failure_eq joined_def\<close>)
qed

lemma disconnect_joined:
  assumes "joined p"
  shows "joined (snd (processor_disconnect_request (WindowsVpnBackend B) i p))
    \<and> (fst (processor_disconnect_request (WindowsVpnBackend B) i p) = Inr ''DISCONNECTED'' \<longrightarrow>
        tunnels (pr_backend (snd (processor_disconnect_request (WindowsVpnBackend B) i p))) = {}
        \<and> (\<forall>k \<in> secret_files B.
             os_files (ho_os (pr_backend (snd (processor_disconnect_request (WindowsVpnBackend B) i p)))) k = None))"
proof -
  have ex: "exclusive (pr_backend p)" using assms by (simp add: joined_def)
  obtain r h where d: "disconnect_all B (pr_backend p) = (r, h)" by fastforce
  note stop = disconnect_exclusive [OF d ex] disconnect_all_result(6) [OF d]
  consider "is_failure (se_phase (pr_machine p))"
    | "\<not> is_failure (se_phase (pr_machine p))" "trim i = []"
    | "\<not> is_failure (se_phase (pr_machine p))" "trim i \<noteq> []" "\<not> active (se_phase (pr_machine p))"
    | "trim i \<noteq> []" "active (se_phase (pr_machine p))"
    by blast
  then show ?thesis
    by cases (use assms stop d in \<open>auto simp: disconnect_failed disconnect_blank disconnect_busy disconnect_active active_def
        joined_def with_phase_def default_state_event_def split: prod.splits sum.splits\<close>)
qed

lemma joined_same_backend:
  assumes "joined p" "pr_backend q = pr_backend p" "se_phase (pr_machine q) = Connected \<Longrightarrow> pr_machine q = pr_machine p"
  shows "joined q"
  using assms by (auto simp: joined_def)

lemma dispatch_joined:
  assumes "joined p"
  shows "joined (snd (dispatch V (WindowsVpnBackend B) cmd p))"
proof (cases "drives_engine cmd")
  case True
  then show ?thesis using connect_joined [OF assms, of V B] disconnect_joined [OF assms, of B] by (cases cmd) auto
next
  case False
  then have "\<nexists>c. cmd = Connect c" by (cases cmd) auto
  then show ?thesis
    using observed_connected [OF dispatch_observed] dispatch_backend [OF False]
    by (intro joined_same_backend [OF assms]) blast+
qed

lemma remember_joined: "joined (remember i p) = joined p"
  by (simp add: joined_def)

lemma process_joined: "joined p \<Longrightarrow> joined (snd (process V (WindowsVpnBackend B) ctx request p))"
  by (simp add: process_state dispatch_joined remember_joined)

text \<open>Between two requests the system may change, but nobody else touches the tunnels.\<close>

definition keeps_tunnels :: "(host \<Rightarrow> host) \<Rightarrow> bool" where
  "keeps_tunnels g \<longleftrightarrow> (\<forall>h. exclusive (g h) = exclusive h \<and> ho_active (g h) = ho_active h)"

primrec undisturbed :: "('v, host) event \<Rightarrow> bool" where
  "undisturbed (Request ctx request) = True"
| "undisturbed (Outside f g) = keeps_tunnels g"

interpretation whole: stable_system "processor_step V (WindowsVpnBackend B)" undisturbed joined
  for V B
proof
  show "joined (snd (processor_step V (WindowsVpnBackend B) e p))" if "undisturbed e" "joined p"
    for e and p :: "('a, host) processor"
  proof (cases e)
    case (Request ctx request)
    then show ?thesis using that(2) by (simp add: process_joined)
  next
    case (Outside f g)
    then show ?thesis using that by (auto simp: joined_def keeps_tunnels_def)
  qed
qed

lemma joined_start: "exclusive h \<Longrightarrow> joined (with_backend vault h)"
  by (simp add: joined_def with_backend_def default_state_event_def)

end
