(* ===== verification/Sample_System.thy ===== *)
theory Sample_System
  imports Whole_Service
begin

text \<open>
  A machine for the instances of the engine properties, on which every call works. The payload files
  have one byte each, and the hash function knows these files; services report that they run until
  tick 29 and that they are stopped later, and processes end if they are asked before tick 10.
\<close>

definition install_root :: string where
  "install_root = path_join ''C:'' ''Kenai''"

definition sample_executable :: string where
  "sample_executable = path_join install_root ''service.exe''"

definition payload_path :: "string \<Rightarrow> string \<Rightarrow> string" where
  "payload_path product name = path_join (path_join (path_join install_root product) ''amd64'') name"

definition sample_sha :: "u8 list \<Rightarrow> string" where
  "sample_sha bytes =
     (if bytes = [1] then TUNNEL_SHA256 else if bytes = [2] then DRIVER_SHA256 else if bytes = [3] then ENGINE_SHA256
      else if bytes = [4] then TOOLS_SHA256 else if bytes = [5] then WINTUN_SHA256
      else if bytes = [6] then XRAY_SHA256 else [])"

definition sample_base64 :: "u8 list \<Rightarrow> string" where
  "sample_base64 bytes = map (\<lambda>b. char_of (65 + unat b mod 26)) bytes"

definition installed_files :: "string \<Rightarrow> u8 list option" where
  "installed_files =
     [file_key (payload_path ''wireguard'' ''tunnel.dll'') \<mapsto> [1],
      file_key (payload_path ''wireguard'' ''wireguard.dll'') \<mapsto> [2],
      file_key (payload_path ''amneziawg'' ''amneziawg.exe'') \<mapsto> [3],
      file_key (payload_path ''amneziawg'' ''awg.exe'') \<mapsto> [4],
      file_key (payload_path ''amneziawg'' ''wintun.dll'') \<mapsto> [5],
      file_key (payload_path ''xray'' ''xray.exe'') \<mapsto> [6],
      file_key (payload_path ''xray'' ''wintun.dll'') \<mapsto> [5]]"

definition working :: environment where
  "working =
     calm\<lparr>en_state := (\<lambda>t. if t \<le> 29 then Svc_Running else Svc_Stopped),
       en_exit := (\<lambda>t. if t \<le> 9 then Some 0 else None)\<rparr>"

definition fresh_os :: os where
  "fresh_os = calm_os\<lparr>os_files := installed_files, os_env := working\<rparr>"

definition runtime_root :: string where
  "runtime_root = path_join (path_join (path_join ''C:'' ''ProgramData'') ''KenaiVPN'') ''runtime''"

definition system_engines :: windows_backend where
  "system_engines =
     \<lparr>wb_wireguard = \<lparr>tb_executable = sample_executable, tb_runtime_root = runtime_root,
        tb_config_path = path_join runtime_root ''KenaiMvp.conf''\<rparr>,
      wb_amneziawg = \<lparr>tb_executable = sample_executable, tb_runtime_root = runtime_root,
        tb_config_path = path_join runtime_root ''KenaiAwg.conf''\<rparr>,
      wb_xray = \<lparr>xb_executable = sample_executable, xb_runtime_root = runtime_root,
        xb_config_path = path_join runtime_root ''KenaiXray.json''\<rparr>,
      wb_base64 = sample_base64, wb_sha256 = sample_sha\<rparr>"

definition fresh_host :: host where
  "fresh_host = \<lparr>ho_os = fresh_os, ho_process = None, ho_active = None\<rparr>"

definition connect_vpn :: request_envelope where
  "connect_vpn = sample_envelope ''r1'' (Connect
     \<lparr>cr_operation_id = ''connect-1'', cr_profile_id = ''profile-1'', cr_protocol = WireGuard, cr_kill_switch = False\<rparr>)"

definition disconnect_vpn :: request_envelope where
  "disconnect_vpn = sample_envelope ''r2'' (Disconnect ''disconnect-1'')"

definition connected_system :: "(wireguard_profile, host) processor" where
  "connected_system =
     snd (process sample_vault (WindowsVpnBackend system_engines) sample_caller connect_vpn (with_backend plain_profile fresh_host))"

definition system_start :: "(unit + windows_backend \<times> host) \<times> os" where
  "system_start =
     backend_system_default sample_base64 sample_sha sample_executable (Some (path_join ''C:'' ''ProgramData'')) fresh_os"

lemma system_start_ok: "is_ok (fst system_start)"
  by code_simp

lemma system_connects: "se_phase (pr_machine connected_system) = Connected"
  by code_simp

lemma system_disconnects:
  "map_sum id oc_code (fst (process sample_vault (WindowsVpnBackend system_engines) sample_caller disconnect_vpn connected_system))
   = Inr ''DISCONNECTED''"
  by code_simp

text \<open>Each engine connects on the new system.\<close>

lemma wireguard_works:
  "is_ok (fst (wireguard_connect sample_base64 sample_sha (wb_wireguard system_engines) sample_wireguard False fresh_os))"
  by code_simp

lemma amneziawg_works:
  "is_ok (fst (amneziawg_connect sample_base64 sample_sha (wb_amneziawg system_engines) sample_amneziawg False fresh_os))"
  by code_simp

lemma xray_works: "is_ok (fst (xray_connect sample_sha (wb_xray system_engines) sample_vless False fresh_host))"
  by code_simp

lemma system_paths:
  "standard_paths WG_TUNNEL_NAME (wb_wireguard system_engines)"
  "standard_paths AWG_TUNNEL_NAME (wb_amneziawg system_engines)" "xray_paths (wb_xray system_engines)"
  by code_simp+

text \<open>The same system, with one failing call.\<close>

definition failing_at :: "nat \<Rightarrow> host \<Rightarrow> host" where
  "failing_at tick h = h\<lparr>ho_os := (ho_os h)\<lparr>os_env := working\<lparr>en_fault := (\<lambda>t. if t = tick then Fails 0 else Works)\<rparr>\<rparr>\<rparr>"

text \<open>A system on which the tunnel service exists and cannot be opened.\<close>

definition closed_os :: os where
  "closed_os = fresh_os\<lparr>os_services := [WG_SERVICE_NAME \<mapsto> \<lparr>sc_command = [], sc_state = Svc_Running\<rparr>],
     os_env := working\<lparr>en_open := (\<lambda>t. False)\<rparr>\<rparr>"

lemma fresh_exclusive: "exclusive fresh_host"
proof -
  have "present e fresh_host \<longleftrightarrow> False" for e
    by (cases e) (simp_all add: fresh_host_def fresh_os_def calm_os_def)
  then have "tunnels fresh_host = {}" by (simp add: tunnels_def)
  moreover have "host_opens fresh_host" "tidy fresh_host" "ho_active fresh_host = None"
    by (simp_all add: host_opens_def tidy_def only_child_def fresh_host_def fresh_os_def calm_os_def working_def
        calm_def opens_def)
  ultimately show ?thesis by (intro exclusive_idle) simp_all
qed

end
