(* ===== verification/Engine_Costs.thy ===== *)
theory Engine_Costs
  imports Backend_System
begin

text \<open>
  How many calls into the system an operation makes at most, whatever the system answers. The bounds
  follow the program text; the only loops are the waits for a service and the reading of the driver.
\<close>

definition bounded :: "('s \<Rightarrow> nat) \<Rightarrow> nat \<Rightarrow> ('s \<Rightarrow> ('e + 'a) \<times> 's) \<Rightarrow> bool" where
  "bounded count n m \<longleftrightarrow> (\<forall>s. count (snd (m s)) \<le> count s + n)"

abbreviation costs :: "nat \<Rightarrow> ('e, 'a) os_op \<Rightarrow> bool" where
  "costs \<equiv> bounded os_clock"

abbreviation host_costs :: "nat \<Rightarrow> 'a host_op \<Rightarrow> bool" where
  "host_costs \<equiv> bounded (\<lambda>h. os_clock (ho_os h))"

named_theorems cost_rules \<open>how many calls an operation makes\<close>

lemma boundedI: "(\<And>s r t. m s = (r, t) \<Longrightarrow> count t \<le> count s + n) \<Longrightarrow> bounded count n m"
  unfolding bounded_def by (metis surjective_pairing)

lemma boundedD: "bounded count n m \<Longrightarrow> m s = (r, t) \<Longrightarrow> count t \<le> count s + n"
  unfolding bounded_def by (metis snd_conv)

lemma bounded_le: "bounded count n m \<Longrightarrow> n \<le> n' \<Longrightarrow> bounded count n' m"
  unfolding bounded_def by (meson add_le_cancel_left le_trans)

lemma bounded_case [cost_rules]:
  assumes "bounded count a m" "\<And>e. bounded count b (g e)" "\<And>x. bounded count c (f x)"
  shows "bounded count (a + max b c) (\<lambda>s. case m s of (Inl e, t) \<Rightarrow> g e t | (Inr x, t) \<Rightarrow> f x t)"
proof (rule boundedI)
  fix s r t
  assume run: "(case m s of (Inl e, t) \<Rightarrow> g e t | (Inr x, t) \<Rightarrow> f x t) = (r, t)"
  obtain q u where q: "m s = (q, u)" by (cases "m s")
  show "count t \<le> count s + (a + max b c)"
    using boundedD [OF assms(1) q] run q boundedD [OF assms(2), of _ u r t] boundedD [OF assms(3), of _ u r t]
    by (cases q) fastforce+
qed

lemma bounded_pure [cost_rules]: "bounded count 0 (Pair r)" "costs 0 (returning r)"
  by (simp_all add: bounded_def returning_def)

lemma bounded_try_then [cost_rules]:
  assumes "bounded count a m" "\<And>x. bounded count b (f x)"
  shows "bounded count (a + b) (try_then m f)"
proof (rule boundedI)
  fix s r t
  assume run: "try_then m f s = (r, t)"
  obtain q u where q: "m s = (q, u)" by (cases "m s")
  show "count t \<le> count s + (a + b)"
    using boundedD [OF assms(1) q] run q boundedD [OF assms(2), of _ u r t] by (cases q) fastforce+
qed

lemma bounded_if [cost_rules]:
  "bounded count a m \<Longrightarrow> bounded count b n \<Longrightarrow> bounded count (max a b) (if c then m else n)"
  by (auto intro: bounded_le)

lemma bounded_fail_then [cost_rules]:
  "bounded count a m \<Longrightarrow> bounded count b n \<Longrightarrow>
   bounded count (a + b) (\<lambda>s. case m s of (Inl e, t) \<Rightarrow> (Inl (g e), snd (n t)) | (Inr u, t) \<Rightarrow> (Inr (f u), t))"
  using bounded_case [of count a m b "\<lambda>e t. (Inl (g e), snd (n t))" 0 "\<lambda>u. Pair (Inr (f u))"]
  by (simp add: bounded_def)

lemma costs_or_fail [cost_rules]: "costs n m \<Longrightarrow> costs n (or_fail e m)"
  by (auto simp: bounded_def or_fail_def split: prod.split) (metis snd_conv)

lemma costs_ignoring [cost_rules]: "costs n m \<Longrightarrow> costs n (ignoring m)"
  by (simp add: bounded_def ignoring_def)

lemma costs_os_result [cost_rules]: "costs 1 os_result"
  by (rule boundedI) (auto simp: os_result_def dest!: os_call_same split: prod.splits fault.splits)

lemma costs_calls [cost_rules]:
  "costs 1 svc_manager" "costs 1 (svc_set_sid n)" "costs 1 (svc_start n)" "costs 1 (svc_stop n)" "costs 1 (svc_open n)"
  "costs 1 (svc_query n)" "costs 1 (svc_create n c)" "costs 1 (svc_delete n)"
  unfolding svc_manager_def svc_set_sid_def svc_start_def svc_stop_def
  by (rule costs_os_result)+
    (rule boundedI, auto simp: svc_open_def os_call_def svc_query_def svc_create_def svc_delete_def
      split: if_splits fault.splits option.splits)+

lemma costs_files [cost_rules]:
  "costs 1 (fs_read p)" "costs 1 (fs_create_new p)" "costs 1 (fs_write_all p b)" "costs 1 fs_sync_all"
  "costs 1 (fs_remove_file p)" "costs 1 (fs_rename p p')"
  by (rule boundedI, auto simp: fs_read_def fs_create_new_def fs_write_all_def fs_sync_all_def fs_remove_file_def
      fs_rename_def os_call_def split: if_splits fault.splits option.splits)+

lemma costs_processes [cost_rules]:
  "costs 1 (process_spawn c)" "costs 1 (job_assign i)" "costs 1 (job_terminate i)" "costs 1 (process_kill i)"
  "costs 1 (process_wait i)" "costs 1 (process_try_wait i)" "costs 1 (run_command c)"
  by (rule boundedI, auto simp: process_spawn_def job_assign_def job_terminate_def process_kill_def process_wait_def
      process_try_wait_def run_command_def end_process_def os_call_def split: if_splits fault.splits option.splits)+

text \<open>A wait polls at most once per 100 milliseconds, and once more.\<close>

lemma costs_wait [cost_rules]: "costs ((k + 99) div 100 + 1) (wait_for_state n q k)"
proof (rule boundedI)
  fix s r t
  assume "wait_for_state n q k s = (r, t)"
  from wait_until_result [OF this [unfolded wait_for_state_def]]
  show "os_clock t \<le> os_clock s + ((k + 99) div 100 + 1)" by simp
qed

lemma costs_steps [cost_rules]:
  "costs 1 (verify_hash sha p x)" "costs 1 (remove_if_present p)" "costs 3 (write_or_remove p b)"
proof -
  show "costs 1 (verify_hash sha p x)"
    unfolding verify_hash_def by (rule bounded_le, (rule cost_rules)+, simp)
  show "costs 1 (remove_if_present p)"
    unfolding remove_if_present_def [abs_def] by (rule bounded_le, (rule cost_rules)+, simp)
  show "costs 3 (write_or_remove p b)"
    unfolding write_or_remove_def [abs_def] fs_write_synced_def by (rule bounded_le, (rule cost_rules)+, simp)
qed

lemma costs_service [cost_rules]:
  "costs (k div 100 + 7) (delete_service n k)" "costs (k div 100 + 7) (run_service n c k)"
proof -
  have k: "(k + 99) div 100 \<le> k div 100 + 1" by linarith
  show "costs (k div 100 + 7) (delete_service n k)"
    unfolding delete_service_def by (rule bounded_le, (rule cost_rules)+, use k in simp)
  show "costs (k div 100 + 7) (run_service n c k)"
    unfolding run_service_def by (rule bounded_le, (rule cost_rules)+, use k in simp)
qed

text \<open>The engines: a cleanup, a start and a whole connect.\<close>

lemma costs_wireguard:
  "costs 309 (wireguard_cleanup_stale e)" "costs 934 (wireguard_connect b64 sha e p k)"
proof -
  show c: "costs 309 (wireguard_cleanup_stale e)"
    unfolding wireguard_cleanup_stale_def WG_TIMEOUT_def by (rule bounded_le, (rule cost_rules)+, simp)
  have v: "costs 2 (wireguard_verify_payloads sha e)"
    unfolding wireguard_verify_payloads_def by (rule bounded_le, (rule cost_rules)+, simp)
  have w: "costs 6 (wireguard_write_config b64 e p)"
    unfolding wireguard_write_config_def by (rule bounded_le, (rule cost_rules)+, simp)
  have s: "costs 308 (wireguard_create_and_start_service e)"
    unfolding wireguard_create_and_start_service_def WG_TIMEOUT_def by (rule bounded_le, (rule cost_rules)+, simp)
  show "costs 934 (wireguard_connect b64 sha e p k)"
    unfolding wireguard_connect_def by (rule bounded_le, (rule cost_rules c v w s)+, simp)
qed

lemma costs_amneziawg:
  "costs 309 (amneziawg_cleanup_stale e)" "costs 935 (amneziawg_connect b64 sha e p k)"
proof -
  show c: "costs 309 (amneziawg_cleanup_stale e)"
    unfolding amneziawg_cleanup_stale_def AWG_TIMEOUT_def by (rule bounded_le, (rule cost_rules)+, simp)
  have v: "costs 3 (amneziawg_verify_payloads sha e)"
    unfolding amneziawg_verify_payloads_def by (rule bounded_le, (rule cost_rules)+, simp)
  have w: "costs 6 (amneziawg_write_config b64 e p)"
    unfolding amneziawg_write_config_def by (rule bounded_le, (rule cost_rules)+, simp)
  have s: "costs 308 (amneziawg_start_service e)"
    unfolding amneziawg_start_service_def AWG_TIMEOUT_def by (rule bounded_le, (rule cost_rules)+, simp)
  show "costs 935 (amneziawg_connect b64 sha e p k)"
    unfolding amneziawg_connect_def by (rule bounded_le, (rule cost_rules c v w s)+, simp)
qed

lemma host_costs_on_os [cost_rules]: "costs n m \<Longrightarrow> host_costs n (on_os m)"
  by (auto simp: bounded_def on_os_def split: prod.split) (metis snd_conv)

lemma clock_job_close [simp]: "os_clock (job_close i s) = os_clock s"
  by (simp add: job_close_def end_process_def split: option.split)

lemma costs_then_close [cost_rules]: "costs n m \<Longrightarrow> costs n (\<lambda>s. case m s of (r, t) \<Rightarrow> (r, job_close i t))"
  by (auto simp: bounded_def split: prod.split) (metis snd_conv)

lemma costs_stop: "costs 3 (xray_stop i)"
  unfolding xray_stop_def [abs_def] by (rule bounded_le, (rule cost_rules)+, simp)

lemma costs_end: "costs 0 (\<lambda>t. (r, job_close i t))"
  by (simp add: bounded_def)

lemma costs_launch: "costs 6 (xray_launch e)"
proof -
  have give_up: "costs 2 (\<lambda>t. (Inl Internal :: backend_failure + nat,
      job_close i (snd (process_wait i (snd (process_kill i t))))))" for i
  proof -
    have "costs (1 + 1) (try_then (ignoring (process_kill i)) (\<lambda>_. ignoring (process_wait i)))" by (rule cost_rules)+
    then show ?thesis by (simp add: bounded_def try_then_def ignoring_def)
  qed
  have grace: "costs 1 (\<lambda>t. process_try_wait i (os_sleep k t))" for i k
    using costs_processes(6) [of i] by (simp add: bounded_def os_sleep_def) (metis os.select_convs(4) os.surjective os.update_convs(5))
  have ended: "costs 0 (\<lambda>t. case x of None \<Rightarrow> (Inr i :: backend_failure + nat, t)
      | Some status \<Rightarrow> (Inl BackendServerUnavailable, job_close i t))" for i and x :: "u32 option"
    by (simp add: bounded_def split: option.split)
  show ?thesis
    unfolding xray_launch_def job_create_def
    by (rule bounded_le, (rule cost_rules give_up grace costs_end ended)+, simp)
qed

lemma host_costs_process: "host_costs n m \<Longrightarrow> host_costs n (\<lambda>h. m (h\<lparr>ho_process := p\<rparr>))"
  by (simp add: bounded_def) (metis host.select_convs(1) host.surjective host.update_convs(2))

lemma host_costs_cleanup: "host_costs 5 (xray_cleanup e)"
proof (rule boundedI)
  fix h r h'
  assume run: "xray_cleanup e h = (r, h')"
  obtain q h1 where q: "(case ho_process h of None \<Rightarrow> (Inr (), h)
      | Some pid \<Rightarrow> on_os (xray_stop pid) (h\<lparr>ho_process := None\<rparr>)) = (q, h1)" by fastforce
  obtain c h2 where c: "on_os (remove_if_present (xb_config_path e)) h1 = (c, h2)" by fastforce
  obtain d h3 where d: "on_os (remove_if_present (xray_temporary e)) h2 = (d, h3)" by fastforce
  have "h' = h3" using run q c d by (auto simp: xray_cleanup_def split: prod.splits)
  moreover have "os_clock (ho_os h1) \<le> os_clock (ho_os h) + 3"
    using q boundedD [OF host_costs_on_os [OF costs_stop]] by (cases "ho_process h") fastforce+
  ultimately show "os_clock (ho_os h') \<le> os_clock (ho_os h) + 5"
    using boundedD [OF host_costs_on_os [OF costs_steps(2)] c] boundedD [OF host_costs_on_os [OF costs_steps(2)] d]
    by simp
qed

lemma host_costs_connect: "host_costs 26 (xray_connect sha e p k)"
proof -
  have v: "costs 2 (xray_verify_payloads sha e)"
    unfolding xray_verify_payloads_def by (rule bounded_le, (rule cost_rules)+, simp)
  have w: "costs 6 (xray_write_config e p)"
    unfolding xray_write_config_def by (rule bounded_le, (rule cost_rules)+, simp)
  have t: "costs 1 (xray_validate_config e)"
    unfolding xray_validate_config_def case_prod_beta by (rule bounded_le, (rule cost_rules)+, simp)
  have s: "host_costs 7 (xray_start e)"
    unfolding xray_start_def by (rule bounded_le, (rule cost_rules costs_launch host_costs_process)+, simp)
  have refuse: "host_costs 0 (\<lambda>h. (Inl UnsupportedFeature, h))"
    "host_costs 0 (\<lambda>h. (map_err (\<lambda>_. BackendInvalidProfile) (validate_vless p), h))" by (simp_all add: bounded_def)
  show ?thesis
    unfolding xray_connect_def
    by (rule bounded_le, (rule refuse cost_rules host_costs_cleanup v w t s)+, simp)
qed

lemma host_costs_disconnect_all: "host_costs 623 (disconnect_all B)"
proof (rule boundedI)
  fix h r h'
  assume run: "disconnect_all B h = (r, h')"
  obtain a h1 where a: "on_os (wireguard_disconnect (wb_wireguard B)) h = (a, h1)" by fastforce
  obtain b h2 where b: "on_os (amneziawg_disconnect (wb_amneziawg B)) h1 = (b, h2)" by fastforce
  obtain c h3 where c: "xray_disconnect (wb_xray B) h2 = (c, h3)" by fastforce
  have "h' = h3\<lparr>ho_active := None\<rparr>" using run a b c by (auto simp: disconnect_all_def)
  then show "os_clock (ho_os h') \<le> os_clock (ho_os h) + 623"
    using boundedD [OF host_costs_on_os [OF costs_wireguard(1)] a [unfolded wireguard_disconnect_def]]
      boundedD [OF host_costs_on_os [OF costs_amneziawg(1)] b [unfolded amneziawg_disconnect_def]]
      boundedD [OF host_costs_cleanup c [unfolded xray_disconnect_def]] by simp
qed

lemma host_costs_step: "host_costs 1558 (backend_step B call)"
proof -
  have active: "host_costs 0 (set_active e)" for e by (simp add: bounded_def set_active_def)
  note rules = cost_rules host_costs_disconnect_all costs_wireguard(2) costs_amneziawg(2) host_costs_connect active
  have "host_costs 1558 (backend_connect B i p k)" for i p k
    unfolding backend_connect_def by (rule bounded_le, (rule rules)+, simp)
  moreover have "host_costs 1558 (backend_connect_amneziawg B i p k)" for i p k
    unfolding backend_connect_amneziawg_def by (rule bounded_le, (rule rules)+, simp)
  moreover have "host_costs 1558 (backend_connect_vless B i p k)" for i p k
    unfolding backend_connect_vless_def by (rule bounded_le, (rule rules)+, simp)
  moreover have "host_costs 1558 (disconnect_all B)" by (rule bounded_le [OF host_costs_disconnect_all]) simp
  ultimately show ?thesis
  proof (cases call)
    case (StartTunnel x i k)
    with \<open>\<And>i p k. host_costs 1558 (backend_connect B i p k)\<close>
      \<open>\<And>i p k. host_costs 1558 (backend_connect_amneziawg B i p k)\<close>
      \<open>\<And>i p k. host_costs 1558 (backend_connect_vless B i p k)\<close>
    show ?thesis by (cases x) (simp_all add: bounded_def)
  next
    case StopTunnel
    with \<open>host_costs 1558 (disconnect_all B)\<close> show ?thesis by (simp add: bounded_def)
  qed
qed

text \<open>Each further call of the driver has a larger buffer, of 64 KiB at most.\<close>

lemma costs_read_adapter: "costs (64 * 1024 - length buffer + 1) (read_adapter buffer)"
proof (rule boundedI)
  fix s r t
  show "read_adapter buffer s = (r, t) \<Longrightarrow> os_clock t \<le> os_clock s + (64 * 1024 - length buffer + 1)"
  proof (induction buffer s arbitrary: r t rule: read_adapter.induct)
    case (1 buffer s)
    have clock: "os_clock (snd (os_call s)) = Suc (os_clock s)" by (simp add: os_call_def)
    obtain finished used bytes where d: "en_driver (os_env s) (os_clock s) (length buffer) = (finished, used, bytes)"
      by (cases "en_driver (os_env s) (os_clock s) (length buffer)")
    show ?case
    proof (cases "2 ^ 32 \<le> length buffer \<or> finished \<or> unat used \<le> length buffer \<or> 64 * 1024 < unat used")
      case True
      with "1.prems" d clock show ?thesis by (auto simp: read_adapter.simps [of buffer s] split: if_splits bool.splits)
    next
      case False
      let ?more = "overwritten bytes buffer @ replicate (unat used - length buffer) 0"
      have len: "length ?more = unat used" using False by (simp add: overwritten_def)
      have "read_adapter ?more (snd (os_call s)) = (r, t)"
        using "1.prems" d False by (auto simp: read_adapter.simps [of buffer s])
      with "1.IH" [of finished "(used, bytes)" used bytes r t] d False clock len show ?thesis by auto
    qed
  qed
qed

end
