(* ===== verification/Backend_Theorems.thy ===== *)
theory Backend_Theorems
  imports Sample_System Engine_Costs
begin

text \<open>
  The properties of the engines and of their selection (\<open>services/windows_vpn_service/src\<close>:
  \<open>windows_backend.rs\<close>, \<open>wireguard_engine.rs\<close>, \<open>amneziawg_engine.rs\<close>, \<open>xray_engine.rs\<close>), for every
  environment unless the statement restricts it.
\<close>

section \<open>One tunnel at a time\<close>

text \<open>
  One tunnel at a time: from the start of the service, after any sequence of requests, with any
  failures of the system except that an existing service can be opened, at most one of the three
  tunnels exists, no Xray process runs that the service does not own, and while the event says
  \<open>Connected\<close> exactly the tunnel of the active engine exists.
\<close>

theorem one_tunnel_at_a_time:
  assumes "backend_system_default b64 sha executable program_data s = (Inr (B, h), t)" "opens (os_env s)"
    "os_processes s = Map.empty" "list_all undisturbed events"
    "p = snd (run_all (processor_step V (WindowsVpnBackend B)) events (with_backend vault h))"
  shows "(\<exists>e. tunnels (pr_backend p) \<subseteq> {e})
    \<and> only_child (ho_process (pr_backend p)) (ho_os (pr_backend p))
    \<and> (se_phase (pr_machine p) = Connected \<longrightarrow>
         (\<exists>e. ho_active (pr_backend p) = Some e \<and> tunnels (pr_backend p) = {e}))"
proof -
  have "joined (with_backend vault h)" by (rule joined_start [OF backend_default_idle(1) [OF assms(1-3)]])
  with whole.run_stable [OF assms(4), of "with_backend vault h" V B] assms(5) have "joined p" by simp
  then show ?thesis by (auto simp: joined_def exclusive_def tidy_def)
qed

definition started_engines :: windows_backend where
  "started_engines = fst (projr (fst system_start))"

definition started_host :: host where
  "started_host = snd (projr (fst system_start))"

lemma system_start_eq:
  "backend_system_default sample_base64 sample_sha sample_executable (Some (path_join ''C:'' ''ProgramData'')) fresh_os
   = (Inr (started_engines, started_host), snd system_start)"
  using system_start_ok unfolding started_engines_def started_host_def system_start_def
  by (cases "fst (backend_system_default sample_base64 sample_sha sample_executable
        (Some (path_join ''C:'' ''ProgramData'')) fresh_os)")
    (auto simp: is_ok_iff prod_eq_iff)

lemma fresh_os: "opens (os_env fresh_os)" "os_processes fresh_os = Map.empty"
  by (simp_all add: fresh_os_def working_def calm_os_def calm_def opens_def)

definition sample_events :: "(wireguard_profile, host) event list" where
  "sample_events = [Request sample_caller connect_vpn, Request sample_caller disconnect_vpn]"

theorem one_tunnel_at_a_time_witness:
  "\<exists>e. tunnels (pr_backend (snd (run_all (processor_step sample_vault (WindowsVpnBackend started_engines))
     sample_events (with_backend plain_profile started_host)))) \<subseteq> {e}"
proof -
  have "list_all undisturbed sample_events" by (simp add: sample_events_def)
  from one_tunnel_at_a_time [OF system_start_eq fresh_os this refl, of sample_vault plain_profile] show ?thesis by blast
qed



section \<open>What a tunnel was started from\<close>

text \<open>
  C10. A WireGuard connect that succeeds did what it promises: the kill switch was not asked for, the
  profile is valid, and on the way the service was created with the fixed command line while the
  configuration file held exactly the rendered profile and both payload files had the pinned hashes;
  now the service runs, and neither configuration file is left.
\<close>

theorem wireguard_connect_verified:
  assumes "standard_paths WG_TUNNEL_NAME e" "wireguard_connect b64 sha e p kill_switch s = (Inr (), t)"
  shows "\<not> kill_switch \<and> validate_wireguard p = Inr ()
    \<and> (\<exists>root. wireguard_payload_root e = Inr root
        \<and> started_with sha WG_SERVICE_NAME [tb_executable e, ''/wireguard-service'', tb_config_path e]
            (tb_config_path e) (wireguard_temporary e) (as_bytes (render_wireguard b64 p))
            [(path_join root ''tunnel.dll'', TUNNEL_SHA256), (path_join root ''wireguard.dll'', DRIVER_SHA256)] s t)"
  by (rule wireguard_connect_success [OF assms(2,1)])

lemma ok_pair: "is_ok (fst r) \<Longrightarrow> r = (Inr (), snd r)"
  by (cases r; cases "fst r") auto

theorem wireguard_connect_verified_witness:
  "os_services (snd (wireguard_connect sample_base64 sample_sha (wb_wireguard system_engines) sample_wireguard False
     fresh_os)) WG_SERVICE_NAME
   = Some \<lparr>sc_command = [tb_executable (wb_wireguard system_engines), ''/wireguard-service'',
       tb_config_path (wb_wireguard system_engines)], sc_state = Svc_Running\<rparr>"
  using wireguard_connect_verified [OF system_paths(1) ok_pair [OF wireguard_works]] by (auto simp: started_with_def)

text \<open>
  C11. The same for AmneziaWG, whose service runs the engine of the payload directory: the executable
  that is registered is one of the three files whose hashes were verified.
\<close>

theorem amneziawg_connect_verified:
  assumes "standard_paths AWG_TUNNEL_NAME e" "amneziawg_connect b64 sha e p kill_switch s = (Inr (), t)"
  shows "\<not> kill_switch \<and> validate_amneziawg p = Inr ()
    \<and> (\<exists>root. amneziawg_payload_root e = Inr root
        \<and> started_with sha AWG_SERVICE_NAME [path_join root ''amneziawg.exe'', ''/tunnelservice'', tb_config_path e]
            (tb_config_path e) (amneziawg_temporary e) (as_bytes (render_amneziawg b64 p))
            [(path_join root ''amneziawg.exe'', ENGINE_SHA256), (path_join root ''awg.exe'', TOOLS_SHA256),
             (path_join root ''wintun.dll'', WINTUN_SHA256)] s t)"
  by (rule amneziawg_connect_success [OF assms(2,1)])

theorem amneziawg_connect_verified_witness:
  "os_files (snd (amneziawg_connect sample_base64 sample_sha (wb_amneziawg system_engines) sample_amneziawg False
     fresh_os)) (file_key (tb_config_path (wb_amneziawg system_engines))) = None"
  using amneziawg_connect_verified [OF system_paths(2) ok_pair [OF amneziawg_works]] by (auto simp: started_with_def)

text \<open>
  C12. The same for Xray: the process that the engine keeps runs the verified executable with the fixed
  arguments, it was launched while the configuration file held exactly the rendered profile, a
  kill-on-close job owns it, and neither configuration file is left.
\<close>

theorem xray_connect_verified:
  assumes "xray_paths e" "xray_connect sha e p kill_switch h = (Inr (), h')"
  shows "\<not> kill_switch \<and> validate_vless p = Inr ()
    \<and> (\<exists>root. xray_payload_root e = Inr root
        \<and> launched_with sha e root (as_bytes (render_vless p)) (ho_process h') (ho_os h) (ho_os h'))"
  by (rule xray_connect_success [OF assms(2,1)])

theorem xray_connect_verified_witness:
  "\<exists>pid child. ho_process (snd (xray_connect sample_sha (wb_xray system_engines) sample_vless False fresh_host)) = Some pid
     \<and> os_processes (ho_os (snd (xray_connect sample_sha (wb_xray system_engines) sample_vless False fresh_host))) pid = Some child
     \<and> ch_owned child"
  using xray_connect_verified [OF system_paths(3) ok_pair [OF xray_works]] by (auto simp: launched_with_def)

section \<open>What an engine reads\<close>




text \<open>
  C14. No value changes the structure of the Xray document: cut at its quotation marks, the rendered
  text of a validated profile is always the fixed list of tokens with the six strings and the port of
  the profile at their places, and it contains no escape character.
\<close>

theorem xray_config_structure:
  assumes "validate_vless p = Inr ()"
  shows "split_on quote (render_vless p) = vless_tokens p \<and> backslash \<notin> set (render_vless p)"
  using cut_vless [OF assms] render_vless_no_backslash [OF assms] by blast

theorem xray_config_structure_witness:
  "split_on quote (render_vless sample_vless) = vless_tokens sample_vless"
proof -
  have "validate_vless sample_vless = Inr ()" by code_simp
  then show ?thesis using xray_config_structure by blast
qed

section \<open>Statistics\<close>

text \<open>
  C30. The counters are read as the engines report them. A record of the WireGuard driver (80 bytes of
  interface with the number of peers at 72, then the peer with bytes sent, bytes received and the time
  of the handshake at 104, 112 and 120) gives exactly these numbers, for every 64-bit value, and is
  refused unless there is one peer; the dump of AmneziaWG gives the numbers of its second line.
\<close>

theorem statistics_exact:
  assumes "length head = 72" "length pad = 4" "length keys = 104" "8 \<le> length rest"
    "CHR 10 \<notin> set interface" "length front = 4" "list_all dump_field (front @ later)" "later \<noteq> []"
    "handshake < 2 ^ 63" "received < 2 ^ 64" "sent < 2 ^ 64"
  shows "parse_driver_statistics (driver_record head peers pad keys w_sent w_received filetime rest) =
      (if peers \<noteq> 1 then Inl BackendInvalidProfile
       else Inr \<lparr>ts_bytes_received = w_received, ts_bytes_sent = w_sent,
         ts_last_handshake_unix_ms =
           (if filetime = 0 then None else Some (word_of_nat (unat filetime div 10000 - 11644473600000)))\<rparr>)
    \<and> parse_dump_statistics (dump_text interface front handshake received sent later tail) =
      Inr \<lparr>ts_bytes_received = word_of_nat received, ts_bytes_sent = word_of_nat sent,
        ts_last_handshake_unix_ms =
          (if 0 < handshake then Some (word_of_int (min (2 ^ 63 - 1) (int handshake * 1000))) else None)\<rparr>"
  using parse_driver_record [OF assms(1-4)] parse_dump [OF assms(5-11)] by blast

theorem statistics_exact_witness:
  "parse_driver_statistics (driver_record (replicate 72 0) 1 (replicate 4 0) (replicate 104 0) 2048 4096 0 (replicate 8 0))
     = Inr \<lparr>ts_bytes_received = 4096, ts_bytes_sent = 2048, ts_last_handshake_unix_ms = None\<rparr>
   \<and> parse_dump_statistics (dump_text ''if'' [''peer'', ''none'', ''host'', ''net''] 0 120 240 [''25''] [])
     = Inr \<lparr>ts_bytes_received = 120, ts_bytes_sent = 240, ts_last_handshake_unix_ms = None\<rparr>"
proof -
  have "list_all dump_field ([''peer'', ''none'', ''host'', ''net''] @ [''25''])" by code_simp
  then show ?thesis
    using statistics_exact [of "replicate 72 0" "replicate 4 0" "replicate 104 0" "replicate 8 0" "''if''"
        "[''peer'', ''none'', ''host'', ''net'']" "[''25'']" 0 120 240 1 2048 4096 0 "[]"]
    by simp
qed

section \<open>Every call ends\<close>

text \<open>
  C15. No call of the backend hangs in a loop: whatever the system answers, a start or a stop of a
  tunnel makes at most 1558 calls into the system (the waits for a service poll at most 301 times
  each), and reading the WireGuard driver asks it at most 65025 times.
\<close>

theorem backend_calls_bounded:
  "os_clock (ho_os (snd (backend_step B call h))) \<le> os_clock (ho_os h) + 1558
   \<and> os_clock (snd (wait_for_state n q WG_TIMEOUT s)) \<le> os_clock s + 301
   \<and> os_clock (snd (read_adapter (replicate 512 0) s)) \<le> os_clock s + 65025"
  using host_costs_step [of B call] costs_wait [of WG_TIMEOUT n q] costs_read_adapter [of "replicate 512 0"]
  by (simp add: bounded_def WG_TIMEOUT_def)

section \<open>Failures that leave something behind\<close>

lemma first_four: "(\<forall>i<4. P (k + i)) \<longleftrightarrow> P k \<and> P (Suc k) \<and> P (Suc (Suc k)) \<and> P (Suc (Suc (Suc (k :: nat))))"
  by (simp add: eval_nat_numeral All_less_Suc) auto

lemma write_config_unrenamed:
  assumes "os_files s (file_key (xray_temporary e)) = None"
    "\<forall>i<4. en_fault (os_env s) (os_clock s + i) = Works" "en_fault (os_env s) (os_clock s + 4) = Fails n"
  shows "\<exists>t. xray_write_config e p s = (Inl Internal, t)
    \<and> os_files t (file_key (xray_temporary e)) = Some (as_bytes (render_vless p))"
  using assms first_four [of "\<lambda>k. en_fault (os_env s) k = Works" "os_clock s"]
  by (simp add: xray_write_config_def try_then_def or_fail_def remove_if_present_def write_or_remove_def
      fs_write_synced_def fs_remove_file_def fs_create_new_def fs_write_all_def fs_sync_all_def fs_rename_def
      os_call_def eval_nat_numeral)

lemma xray_default_keeps:
  "os_files (snd (xray_system_default executable program_data s)) (file_key (xray_temporary e))
   = os_files s (file_key (xray_temporary e))"
proof -
  let ?F = "\<lambda>x. \<exists>root. x = file_key (path_join root ''KenaiXray.json'')"
  have "within ?F (\<lambda>_. False) (\<lambda>_. False) (xray_system_default executable program_data)"
    unfolding xray_system_default_def by (intro within_intros) auto
  then have "\<forall>k. ?F k \<or> os_files (snd (xray_system_default executable program_data s)) k = os_files s k"
    by (simp add: within_def evolves_def)
  moreover have "\<not> ?F (file_key (xray_temporary e))"
    using key_neq [of "''KenaiXray.json.new''" "''KenaiXray.json''" "xb_runtime_root e"] last_lower
    by (simp add: xray_temporary_def)
  ultimately show ?thesis by blast
qed

text \<open>
  C39. A connect whose last file operation fails leaves the profile in plaintext: if only the renaming
  of the new configuration file fails, the answer is an internal error, no cleanup is made, and the
  temporary file keeps the rendered profile; the construction of the engine at the next start of the
  service does not remove it either.
\<close>

theorem failed_rename_leaves_profile:
  assumes "validate_vless p = Inr ()" "xray_cleanup e h = (Inr (), h1)"
    "xray_verify_payloads sha e (ho_os h1) = (Inr (), s)"
    "\<forall>i<4. en_fault (os_env s) (os_clock s + i) = Works" "en_fault (os_env s) (os_clock s + 4) = Fails n"
  shows "fst (xray_connect sha e p False h) = Inl Internal
    \<and> os_files (ho_os (snd (xray_connect sha e p False h))) (file_key (xray_temporary e)) = Some (as_bytes (render_vless p))
    \<and> os_files (snd (xray_system_default executable program_data s')) (file_key (xray_temporary e))
        = os_files s' (file_key (xray_temporary e))"
proof -
  have "os_files s = os_files (ho_os h1)" using xray_verify_success [OF assms(3)] by auto
  with xray_cleanup_result(3) [OF assms(2)] have free: "os_files s (file_key (xray_temporary e)) = None" by simp
  from write_config_unrenamed [OF free assms(4,5)] obtain t where
    w: "xray_write_config e p s = (Inl Internal, t)" "os_files t (file_key (xray_temporary e)) = Some (as_bytes (render_vless p))"
    by blast
  have "xray_connect sha e p False h = (Inl Internal, h1\<lparr>ho_os := t\<rparr>)"
    using assms(1-3) w(1) by (simp add: xray_connect_def try_then_def on_os_def)
  with w(2) xray_default_keeps [of executable program_data s' e] show ?thesis by simp
qed

theorem failed_rename_leaves_profile_witness:
  "fst (xray_connect sample_sha (wb_xray system_engines) sample_vless False (failing_at 8 fresh_host)) = Inl Internal
   \<and> os_files (ho_os (snd (xray_connect sample_sha (wb_xray system_engines) sample_vless False (failing_at 8 fresh_host))))
       (file_key (xray_temporary (wb_xray system_engines))) = Some (as_bytes (render_vless sample_vless))"
proof -
  let ?h = "failing_at 8 fresh_host" and ?e = "wb_xray system_engines"
  have v: "validate_vless sample_vless = Inr ()" by code_simp
  have "is_ok (fst (xray_cleanup ?e ?h))" "is_ok (fst (xray_verify_payloads sample_sha ?e (ho_os (snd (xray_cleanup ?e ?h)))))"
    by code_simp+
  note ok = this [THEN ok_pair]
  let ?s = "snd (xray_verify_payloads sample_sha ?e (ho_os (snd (xray_cleanup ?e ?h))))"
  have clock: "os_clock ?s = 4" by code_simp
  have env: "os_env ?s = working\<lparr>en_fault := (\<lambda>t. if t = 8 then Fails 0 else Works)\<rparr>"
    using evolves_env [OF withinD [OF within_any(1) ok(2)]]
      step_ok_env [OF xray_cleanup_result(1) [OF ok(1)]] by (simp add: failing_at_def)
  show ?thesis
    using failed_rename_leaves_profile [OF v ok] clock env by simp
qed

text \<open>
  C40. A disconnect overlooks a service it cannot open: if opening the tunnel service fails, for
  whatever reason, the stop of the engine answers success and the service stays exactly as it was.
\<close>

theorem disconnect_overlooks_service:
  assumes "os_services s WG_SERVICE_NAME = Some entry" "\<forall>i<4. en_fault (os_env s) (os_clock s + i) = Works"
    "\<not> en_open (os_env s) (os_clock s + 1)"
  shows "fst (wireguard_disconnect e s) = Inr () \<and> os_services (snd (wireguard_disconnect e s)) WG_SERVICE_NAME = Some entry"
proof -
  obtain t where d: "delete_service WG_SERVICE_NAME WG_TIMEOUT s = (Inr (), t)" "os_services t = os_services s"
    "os_env t = os_env s" "os_clock t = os_clock s + 2"
    using assms first_four [of "\<lambda>k. en_fault (os_env s) k = Works" "os_clock s"]
    by (simp add: delete_service_def svc_manager_def os_result_def svc_open_def try_then_def or_fail_def os_call_def)
  have removes: "\<exists>u. remove_if_present p t = (Inr (), u) \<and> os_services u = os_services t
      \<and> os_env u = os_env t \<and> os_clock u = Suc (os_clock t)" if "en_fault (os_env t) (os_clock t) = Works" for p t
    using that by (auto simp: remove_if_present_def fs_remove_file_def os_call_def split: option.splits)
  have works: "en_fault (os_env t) (os_clock t) = Works" "en_fault (os_env t) (Suc (os_clock t)) = Works"
    using assms(2) d(3,4) first_four [of "\<lambda>k. en_fault (os_env s) k = Works" "os_clock s"] by simp_all
  obtain u where u: "remove_if_present (tb_config_path e) t = (Inr (), u)" "os_services u = os_services t"
    "os_env u = os_env t" "os_clock u = Suc (os_clock t)" using removes [OF works(1)] by blast
  then obtain v where "remove_if_present (wireguard_temporary e) u = (Inr (), v)" "os_services v = os_services u"
    using removes [of u] works(2) by auto
  with d u assms(1) show ?thesis
    by (simp add: wireguard_disconnect_def wireguard_cleanup_stale_def try_then_def)
qed

theorem disconnect_overlooks_service_witness:
  "os_services (snd (wireguard_disconnect (wb_wireguard system_engines) closed_os)) WG_SERVICE_NAME
   = Some \<lparr>sc_command = [], sc_state = Svc_Running\<rparr>"
  using disconnect_overlooks_service [of closed_os "\<lparr>sc_command = [], sc_state = Svc_Running\<rparr>"]
  by (simp add: closed_os_def working_def calm_def)

end
