(* ===== verification/Ipc.thy ===== *)
theory Ipc
  imports Contract_Frame Processor_Laws
begin

text \<open>
  The request loop of \<open>services/windows_vpn_service/src/ipc.rs\<close>: \<open>process_frame\<close> and the allow-listed
  error answers, \<open>handle_one\<close> over a client seen as the bytes it sends and whether it takes the
  answer, and the accept loop \<open>serve\<close> with every way it returns. Named pipes and session numbers
  are operating-system objects: what a call on them gave is part of the input.
\<close>

definition HEADER_SIZE :: nat where
  "HEADER_SIZE = 12"

definition INVALID_REQUEST_ID :: string where
  "INVALID_REQUEST_ID = ''invalid-request''"

section \<open>Answers\<close>

definition command_error_code :: "command_error \<Rightarrow> string" where
  "command_error_code error =
     (case error of
        Busy \<Rightarrow> ''BUSY''
      | DuplicateRequest \<Rightarrow> ''DUPLICATE_REQUEST''
      | EmptyOperationId \<Rightarrow> ''INVALID_REQUEST''
      | EmptyProfileId \<Rightarrow> ''INVALID_REQUEST''
      | InvalidFailurePhase \<Rightarrow> ''INVALID_REQUEST''
      | command_error.InvalidProfile \<Rightarrow> ''INVALID_REQUEST''
      | ProfileNotFound \<Rightarrow> ''PROFILE_NOT_FOUND''
      | ProfileStoreUnavailable \<Rightarrow> ''PROFILE_STORE_UNAVAILABLE''
      | UnauthorizedCaller \<Rightarrow> ''UNAUTHORIZED'')"

definition safe_error :: "string \<Rightarrow> string \<Rightarrow> response_envelope" where
  "safe_error request_id reply =
     \<lparr>rs_contract_version = CONTRACT_VERSION, rs_request_id = request_id, rs_phase = Error,
      rs_profile_id = None, rs_kill_switch_active = False, rs_code = reply, rs_statistics = None\<rparr>"

definition safe_command_error :: "string \<Rightarrow> command_error \<Rightarrow> response_envelope" where
  "safe_command_error request_id error =
     \<lparr>rs_contract_version = CONTRACT_VERSION, rs_request_id = request_id, rs_phase = Error,
      rs_profile_id = None, rs_kill_switch_active = False, rs_code = command_error_code error,
      rs_statistics = None\<rparr>"

definition process_frame ::
  "'v profile_vault \<Rightarrow> 'b vpn_backend \<Rightarrow> u8 list \<Rightarrow> authorization_context \<Rightarrow> ('v, 'b) processor \<Rightarrow>
   response_envelope \<times> ('v, 'b) processor" where
  "process_frame V B frame authorization p =
     (case decode_request frame of
        Inl _ \<Rightarrow> (safe_error INVALID_REQUEST_ID ''INVALID_REQUEST'', p)
      | Inr request \<Rightarrow>
          (case process V B authorization request p of
             (Inr outcome, q) \<Rightarrow>
               (\<lparr>rs_contract_version = CONTRACT_VERSION,
                 rs_request_id = oc_request_id outcome,
                 rs_phase = se_phase (oc_state outcome),
                 rs_profile_id = se_profile_id (oc_state outcome),
                 rs_kill_switch_active = se_kill_switch_active (oc_state outcome),
                 rs_code = oc_code outcome,
                 rs_statistics = oc_statistics outcome\<rparr>, q)
           | (Inl error, q) \<Rightarrow> (safe_command_error (rq_request_id request) error, q)))"

section \<open>One client\<close>

text \<open>
  A client is all the bytes it ever sends, whether it hangs up after them (or stays connected and
  silent), and the error of the write of the answer, if the pipe is already closed then.
\<close>

datatype io_error = InvalidData | OsError nat

record pipe_client =
  pc_input :: "u8 list"
  pc_hangs_up :: bool
  pc_write_error :: "nat option"

datatype read_result = ReadOk "u8 list" "u8 list" | ReadFailed | ReadPending

definition read_exact :: "nat \<Rightarrow> u8 list \<Rightarrow> bool \<Rightarrow> read_result" where
  "read_exact n input hangs_up =
     (if n \<le> length input then ReadOk (take n input) (drop n input)
      else if hangs_up then ReadFailed else ReadPending)"

text \<open>\<open>Waits\<close>: the future stays pending; otherwise its result and the bytes the client was sent.\<close>

datatype handled = Waits | Ends "io_error + unit" "u8 list"

definition write_response :: "pipe_client \<Rightarrow> response_envelope \<Rightarrow> handled" where
  "write_response client response =
     (case encode_response response of
        Inl _ \<Rightarrow> Ends (Inl InvalidData) []
      | Inr bytes \<Rightarrow>
          (case pc_write_error client of
             None \<Rightarrow> Ends (Inr ()) bytes
           | Some e \<Rightarrow> Ends (Inl (OsError e)) []))"

definition write_safe_error :: "pipe_client \<Rightarrow> string \<Rightarrow> string \<Rightarrow> handled" where
  "write_safe_error client request_id reply = write_response client (safe_error request_id reply)"

definition handle_one ::
  "'v profile_vault \<Rightarrow> 'b vpn_backend \<Rightarrow> pipe_client \<Rightarrow> authorization_context \<Rightarrow> ('v, 'b) processor \<Rightarrow>
   handled \<times> ('v, 'b) processor" where
  "handle_one V B client authorization p =
     (case read_exact HEADER_SIZE (pc_input client) (pc_hangs_up client) of
        ReadFailed \<Rightarrow> (Ends (Inr ()) [], p)
      | ReadPending \<Rightarrow> (Waits, p)
      | ReadOk header rest \<Rightarrow>
          (case declared_frame_size header of
             Inl _ \<Rightarrow> (write_safe_error client INVALID_REQUEST_ID ''INVALID_REQUEST'', p)
           | Inr total_size \<Rightarrow>
               (case read_exact (total_size - HEADER_SIZE) rest (pc_hangs_up client) of
                  ReadFailed \<Rightarrow> (Ends (Inr ()) [], p)
                | ReadPending \<Rightarrow> (Waits, p)
                | ReadOk body _ \<Rightarrow>
                    (case process_frame V B (header @ body) authorization p of
                       (response, q) \<Rightarrow> (write_response client response, q)))))"

section \<open>The accept loop\<close>

text \<open>
  The service is accepting, held by the one client whose future is pending, or has returned.
  \<open>caller_authorization\<close> asks the operating system for the client's session and fills in the two
  flags with \<open>true\<close>; its answer is a process lookup that may fail.
\<close>

datatype serve_status = Accepting | Held | Returned "io_error + unit"

record ('v, 'b) server =
  sv_status :: serve_status
  sv_processor :: "('v, 'b) processor"

definition caller_authorization :: "nat + u32 \<Rightarrow> u32 \<Rightarrow> io_error + authorization_context" where
  "caller_authorization client_session allowed_session =
     (case client_session of
        Inl e \<Rightarrow> Inl (OsError e)
      | Inr session \<Rightarrow>
          Inr \<lparr>au_is_local = True, au_is_authenticated = True, au_client_session_id = session,
               au_allowed_session_id = allowed_session\<rparr>)"

datatype pipe_event =
    ShutdownSignal
  | CreateFailed nat
  | ConnectFailed nat
  | Client "nat + u32" u32 pipe_client

definition serve_client ::
  "'v profile_vault \<Rightarrow> 'b vpn_backend \<Rightarrow> nat + u32 \<Rightarrow> u32 \<Rightarrow> pipe_client \<Rightarrow> ('v, 'b) server \<Rightarrow>
   u8 list \<times> ('v, 'b) server" where
  "serve_client V B client_session allowed_session client s =
     (case caller_authorization client_session allowed_session of
        Inl e \<Rightarrow> ([], s\<lparr>sv_status := Returned (Inl e)\<rparr>)
      | Inr authorization \<Rightarrow>
          if \<not> is_allowed authorization then ([], s)
          else
            (case handle_one V B client authorization (sv_processor s) of
               (Waits, p) \<Rightarrow> ([], s\<lparr>sv_status := Held, sv_processor := p\<rparr>)
             | (Ends (Inl e) sent, p) \<Rightarrow>
                 (sent, s\<lparr>sv_status := Returned (Inl e), sv_processor := p\<rparr>)
             | (Ends (Inr _) sent, p) \<Rightarrow> (sent, s\<lparr>sv_processor := p\<rparr>)))"

text \<open>
  One turn of the loop. Only the shutdown signal reaches a service that is held by a client,
  because the pipe has a single instance.
\<close>

primrec serve_turn ::
  "'v profile_vault \<Rightarrow> 'b vpn_backend \<Rightarrow> pipe_event \<Rightarrow> ('v, 'b) server \<Rightarrow> u8 list \<times> ('v, 'b) server" where
  "serve_turn V B ShutdownSignal s = ([], s\<lparr>sv_status := Returned (Inr ())\<rparr>)"
| "serve_turn V B (CreateFailed e) s =
     (if sv_status s = Held then ([], s) else ([], s\<lparr>sv_status := Returned (Inl (OsError e))\<rparr>))"
| "serve_turn V B (ConnectFailed e) s =
     (if sv_status s = Held then ([], s) else ([], s\<lparr>sv_status := Returned (Inl (OsError e))\<rparr>))"
| "serve_turn V B (Client client_session allowed_session client) s =
     (if sv_status s = Held then ([], s)
      else serve_client V B client_session allowed_session client s)"

definition serve ::
  "'v profile_vault \<Rightarrow> 'b vpn_backend \<Rightarrow> pipe_event \<Rightarrow> ('v, 'b) server \<Rightarrow> u8 list \<times> ('v, 'b) server" where
  "serve V B e s = (case sv_status s of Returned r \<Rightarrow> ([], s) | _ \<Rightarrow> serve_turn V B e s)"

definition serve_start :: "'v \<Rightarrow> 'b \<Rightarrow> ('v, 'b) server" where
  "serve_start vault backend = \<lparr>sv_status = Accepting, sv_processor = with_backend vault backend\<rparr>"

section \<open>Every answer can be sent\<close>

text \<open>
  The invariant of a processor whose requests all come from the wire: besides \<open>processor_ok\<close> the
  profile identifier of its state is one that a response may carry.
\<close>

definition presentable :: "state_event \<Rightarrow> bool" where
  "presentable m \<longleftrightarrow> (case se_profile_id m of None \<Rightarrow> True | Some i \<Rightarrow> ident i)"

definition wire_ok :: "('v, 'b) processor \<Rightarrow> bool" where
  "wire_ok p \<longleftrightarrow> resting (pr_machine p) \<and> presentable (pr_machine p)"

lemma presentable_observed:
  "observed m cmd m' \<Longrightarrow> presentable m \<Longrightarrow> valid_command cmd \<Longrightarrow> presentable m'"
  by (induction rule: observed.induct)
    (auto simp: presentable_def started_def with_phase_def)

lemma wire_ok_process:
  assumes "wire_ok p" "valid_command (rq_command request)"
  shows "wire_ok (snd (process V B ctx request p))"
  using process_observed [of V B ctx request p] assms
  by (auto simp: wire_ok_def dest: resting_observed presentable_observed)

lemma outcome_code_ident: "c \<in> set outcome_codes \<Longrightarrow> ident c"
  by (auto simp: outcome_codes_def failure_codes_def ident_def identifier_char_def ascii_defs)

lemma command_error_ident: "ident (command_error_code e)"
  by (cases e) (auto simp: command_error_code_def ident_def identifier_char_def ascii_defs)

lemma safe_error_sendable: "sendable (safe_error INVALID_REQUEST_ID ''INVALID_REQUEST'')"
  by (auto simp: sendable_def safe_error_def INVALID_REQUEST_ID_def ident_def identifier_char_def ascii_defs)

lemma process_frame_sendable:
  assumes "wire_ok p"
  shows "sendable (fst (process_frame V B frame ctx p)) \<and> wire_ok (snd (process_frame V B frame ctx p))"
proof (cases "decode_request frame")
  case (Inl e)
  with assms safe_error_sendable show ?thesis by (simp add: process_frame_def)
next
  case (Inr request)
  note req = decode_request_sound_lemma [OF Inr]
  have ok: "wire_ok (snd (process V B ctx request p))"
    using assms req(3) by (rule wire_ok_process)
  show ?thesis
  proof (cases "fst (process V B ctx request p)")
    case (Inl e)
    with \<open>decode_request frame = Inr request\<close> ok req(2) command_error_ident show ?thesis
      by (auto simp: process_frame_def sendable_def safe_command_error_def split: prod.splits)
  next
    case outcome: (Inr outcome)
    note o = process_outcome [OF outcome]
    have "presentable (pr_machine (snd (process V B ctx request p)))"
      using ok by (simp add: wire_ok_def)
    with o(7) have "case se_profile_id (oc_state outcome) of None \<Rightarrow> True | Some i \<Rightarrow> ident i"
      by (auto simp: presentable_def)
    with \<open>decode_request frame = Inr request\<close> ok req(2) o(1,2) outcome show ?thesis
      by (auto simp: process_frame_def sendable_def outcome_code_ident split: prod.splits)
  qed
qed

section \<open>The loop as a reactive system\<close>

lemma write_response_sendable:
  assumes "sendable response"
  shows "\<exists>bytes. encode_response response = Inr bytes \<and> length bytes \<le> 248
    \<and> decode_response bytes = Inr response
    \<and> write_response client response =
        (case pc_write_error client of None \<Rightarrow> Ends (Inr ()) bytes | Some e \<Rightarrow> Ends (Inl (OsError e)) [])"
proof -
  from encode_response_sendable [OF assms] obtain bytes where
    b: "encode_response response = Inr bytes" "length bytes \<le> 248" by blast
  with decode_encode_response_lemma [OF b(1)] show ?thesis
    by (simp add: write_response_def)
qed

text \<open>What a client may be sent: nothing, or one frame that it can decode.\<close>

definition deliverable :: "u8 list \<Rightarrow> bool" where
  "deliverable bytes \<longleftrightarrow>
     bytes = [] \<or> length bytes \<le> 248 \<and> (\<exists>r. decode_response bytes = Inr r \<and> sendable r)"

definition good_end :: "handled \<Rightarrow> bool" where
  "good_end h \<longleftrightarrow>
     (case h of Waits \<Rightarrow> True | Ends r bytes \<Rightarrow> r \<noteq> Inl InvalidData \<and> deliverable bytes)"

lemma write_response_good: "sendable response \<Longrightarrow> good_end (write_response client response)"
  using write_response_sendable [of response client]
  by (auto simp: good_end_def deliverable_def split: option.splits)

lemma handle_one_good:
  assumes "wire_ok p"
  shows "good_end (fst (handle_one V B client ctx p)) \<and> wire_ok (snd (handle_one V B client ctx p))"
proof -
  have ends: "good_end (Ends (Inr ()) [])" "good_end Waits"
    by (simp_all add: good_end_def deliverable_def)
  have process: "good_end (write_response client (fst (process_frame V B frame ctx p)))
      \<and> wire_ok (snd (process_frame V B frame ctx p))" for frame
    using process_frame_sendable [OF assms, of V B frame ctx] write_response_good by blast
  have body: "good_end (fst (case process_frame V B frame ctx p of (response, q) \<Rightarrow> (write_response client response, q)))
      \<and> wire_ok (snd (case process_frame V B frame ctx p of (response, q) \<Rightarrow> (write_response client response, q)))"
    for frame
    using process [of frame] by (simp add: case_prod_beta)
  show ?thesis
    using assms ends body write_response_good [OF safe_error_sendable, of client]
    by (simp add: handle_one_def write_safe_error_def split: read_result.splits sum.splits)
qed

text \<open>A client that sends one whole frame.\<close>

lemma handle_one_frame:
  assumes "encode_frame opcode body = Inr frame" "pc_input client = frame"
  shows "handle_one V B client ctx p =
    (write_response client (fst (process_frame V B frame ctx p)), snd (process_frame V B frame ctx p))"
proof -
  have "declared_frame_size (take 12 frame) = Inr (length frame)" "12 \<le> length frame"
    using assms(1) by (auto simp: declared_encode_frame elim: frame_parts)
  with assms(2) show ?thesis
    by (simp add: handle_one_def read_exact_def HEADER_SIZE_def case_prod_beta)
qed

definition server_ok :: "('v, 'b) server \<Rightarrow> bool" where
  "server_ok s \<longleftrightarrow> wire_ok (sv_processor s) \<and> sv_status s \<noteq> Returned (Inl InvalidData)"

lemma serve_client_good:
  assumes "server_ok s"
  shows "server_ok (snd (serve_client V B cs as client s)) \<and> deliverable (fst (serve_client V B cs as client s))"
proof -
  have h: "good_end (fst (handle_one V B client ctx (sv_processor s)))
      \<and> wire_ok (snd (handle_one V B client ctx (sv_processor s)))" for ctx
    using assms handle_one_good [of "sv_processor s" V B client ctx] by (simp add: server_ok_def)
  show ?thesis
  proof (cases "caller_authorization cs as")
    case (Inl e)
    then show ?thesis
      using assms
      by (auto simp: serve_client_def server_ok_def deliverable_def caller_authorization_def split: sum.splits)
  next
    case (Inr ctx)
    obtain r p where rp: "handle_one V B client ctx (sv_processor s) = (r, p)" by fastforce
    from h [of ctx] rp have "good_end r" "wire_ok p" by simp_all
    with Inr rp assms show ?thesis
      by (auto simp: serve_client_def server_ok_def good_end_def deliverable_def
          split: handled.splits sum.splits)
  qed
qed

lemma serve_good:
  assumes "server_ok s"
  shows "server_ok (snd (serve V B e s)) \<and> deliverable (fst (serve V B e s))"
proof (cases "\<exists>r. sv_status s = Returned r")
  case True
  with assms show ?thesis by (auto simp: serve_def deliverable_def)
next
  case False
  then have "serve V B e s = serve_turn V B e s"
    by (auto simp: serve_def split: serve_status.splits)
  with assms serve_client_good [OF assms] show ?thesis
    by (cases e) (simp_all add: server_ok_def deliverable_def)
qed

interpretation serving: answering_system "serve V B" "\<lambda>_. True" server_ok "\<lambda>_. deliverable"
  by unfold_locales (use serve_good in blast)+

lemma server_ok_start: "server_ok (serve_start vault backend)"
  by (simp add: server_ok_def serve_start_def with_backend_def wire_ok_def presentable_def)

text \<open>A service that has returned stays so, and one that is held answers nobody.\<close>

interpretation returned: answering_system "serve V B" "\<lambda>_. True" "\<lambda>s. sv_status s = Returned r" "\<lambda>_ sent. sent = []"
  by unfold_locales (simp_all add: serve_def)

interpretation held: answering_system "serve V B" "\<lambda>e. e \<noteq> ShutdownSignal" "\<lambda>s. sv_status s = Held" "\<lambda>_ sent. sent = []"
proof
  fix e and s :: "('a, 'b) server"
  assume e: "e \<noteq> ShutdownSignal" and s: "sv_status s = Held"
  then show "sv_status (snd (serve V B e s)) = Held" "fst (serve V B e s) = []"
    by (cases e; simp add: serve_def)+
qed

end
