(* ===== verification/Pipe_Server.thy ===== *)
theory Pipe_Server
  imports Ipc
begin

text \<open>
  The named pipe of \<open>services/windows_vpn_service/src/ipc.rs\<close>: its security descriptor, the options
  \<open>create_server\<close> gives it, and the accept loop with the creation of the next instance. The service has
  one instance at a time and insists on being the first with its name; the instance of a served client
  goes when the last handle on it is closed, so a client that keeps its end open is still there when
  the loop creates the next one. What the creation answers is decided by the system: \<open>create\<close> is
  a parameter, of the options, the name, the descriptor and the number of instances with that name.
\<close>

section \<open>The pipe the service asks for\<close>

definition PIPE_NAME :: string where
  "PIPE_NAME = [char_of (92::nat), char_of (92::nat), CHR ''.'', char_of (92::nat)] @ ''pipe'' @ [char_of (92::nat)]
     @ ''KenaiVpnControl-v4''"

definition PIPE_SDDL :: string where
  "PIPE_SDDL = ''D:P(D;;GA;;;AN)(D;;GA;;;NU)(A;;GA;;;SY)(A;;GA;;;BA)(A;;GRGW;;;AU)''"

record pipe_security =
  ps_descriptor :: string
  ps_inherit_handle :: bool

definition pipe_security_of :: "string \<Rightarrow> pipe_security" where
  "pipe_security_of sddl = \<lparr>ps_descriptor = sddl, ps_inherit_handle = False\<rparr>"

datatype pipe_mode = ByteMode | MessageMode

record server_options =
  so_first_pipe_instance :: bool
  so_pipe_mode :: pipe_mode
  so_reject_remote_clients :: bool
  so_max_instances :: nat
  so_in_buffer_size :: u32
  so_out_buffer_size :: u32

definition u32_or :: "u32 \<Rightarrow> nat \<Rightarrow> u32" where
  "u32_or fallback n = (if n < 2 ^ 32 then word_of_nat n else fallback)"

definition pipe_options :: server_options where
  "pipe_options =
     \<lparr>so_first_pipe_instance = True, so_pipe_mode = ByteMode, so_reject_remote_clients = True,
      so_max_instances = 1, so_in_buffer_size = u32_or 16384 MAX_FRAME_SIZE,
      so_out_buffer_size = u32_or 16384 MAX_FRAME_SIZE\<rparr>"

type_synonym create_pipe = "server_options \<Rightarrow> string \<Rightarrow> pipe_security \<Rightarrow> nat \<Rightarrow> nat + unit"

definition create_server :: "create_pipe \<Rightarrow> pipe_security \<Rightarrow> nat \<Rightarrow> nat + unit" where
  "create_server create security instances = create pipe_options PIPE_NAME security instances"

text \<open>
  What is documented of the creation: with \<open>first_pipe_instance\<close> it fails while an instance of the name
  exists.
\<close>

definition first_instance_rule :: "create_pipe \<Rightarrow> bool" where
  "first_instance_rule create \<longleftrightarrow>
     (\<forall>options name security instances. so_first_pipe_instance options \<longrightarrow> 0 < instances \<longrightarrow>
        (\<exists>e. create options name security instances = Inl e))"

section \<open>The loop with its creations\<close>

text \<open>
  The first creation meets the instances other processes have; each later one the instance of the client
  just served, if that client keeps its end open.
\<close>

definition recreate ::
  "create_pipe \<Rightarrow> pipe_security \<Rightarrow> 'v profile_vault \<Rightarrow> 'b vpn_backend \<Rightarrow> nat \<Rightarrow> ('v, 'b) server \<Rightarrow> ('v, 'b) server" where
  "recreate create security V B instances s =
     (if sv_status s = Accepting
      then (case create_server create security instances of
              Inl e \<Rightarrow> snd (serve V B (CreateFailed e) s)
            | Inr _ \<Rightarrow> s)
      else s)"

type_synonym pipe_turn = "pipe_event \<times> bool"

definition serve_pipe ::
  "create_pipe \<Rightarrow> pipe_security \<Rightarrow> 'v profile_vault \<Rightarrow> 'b vpn_backend \<Rightarrow> pipe_turn \<Rightarrow> ('v, 'b) server \<Rightarrow>
   u8 list \<times> ('v, 'b) server" where
  "serve_pipe create security V B turn s =
     (case serve V B (fst turn) s of
        (sent, t) \<Rightarrow> (sent, recreate create security V B (if snd turn then 1 else 0) t))"

definition serve_pipe_from ::
  "create_pipe \<Rightarrow> pipe_security \<Rightarrow> 'v profile_vault \<Rightarrow> 'b vpn_backend \<Rightarrow> nat \<Rightarrow> pipe_turn list \<Rightarrow> ('v, 'b) server \<Rightarrow>
   u8 list list \<times> ('v, 'b) server" where
  "serve_pipe_from create security V B instances turns s =
     run_all (serve_pipe create security V B) turns (recreate create security V B instances s)"

section \<open>Laws\<close>

lemma pipe_options_buffers:
  "unat (so_in_buffer_size pipe_options) = MAX_FRAME_SIZE" "unat (so_out_buffer_size pipe_options) = MAX_FRAME_SIZE"
  by (simp_all add: pipe_options_def u32_or_def MAX_FRAME_SIZE_def)

text \<open>A creation that fails is one event of the loop, one that succeeds none.\<close>

lemma recreate_events:
  "\<exists>events. snd (run_all (serve V B) events s) = recreate create security V B n s
     \<and> concat (fst (run_all (serve V B) events s)) = []"
proof (cases "\<exists>e. sv_status s = Accepting \<and> create_server create security n = Inl e")
  case True
  then obtain e where "sv_status s = Accepting" "create_server create security n = Inl e" by blast
  then show ?thesis
    by (intro exI [of _ "[CreateFailed e]"]) (simp add: recreate_def serve_def)
next
  case False
  then have "recreate create security V B n s = s" by (auto simp: recreate_def split: sum.split)
  then show ?thesis by (intro exI [of _ "[]"]) simp
qed

lemma pipe_turn_events:
  "\<exists>events. snd (run_all (serve V B) events s) = snd (serve_pipe create security V B turn s)
     \<and> concat (fst (run_all (serve V B) events s)) = fst (serve_pipe create security V B turn s)"
proof -
  obtain sent t where t: "serve V B (fst turn) s = (sent, t)" by fastforce
  obtain events where "snd (run_all (serve V B) events t) = recreate create security V B (if snd turn then 1 else 0) t"
    "concat (fst (run_all (serve V B) events t)) = []"
    using recreate_events by blast
  with t show ?thesis by (intro exI [of _ "fst turn # events"]) (simp add: serve_pipe_def)
qed

text \<open>Every run with creations is a run of the loop: the same bytes are sent and the same state is reached.\<close>

lemma pipe_run_events:
  "\<exists>events. snd (run_all (serve V B) events s) = snd (run_all (serve_pipe create security V B) turns s)
     \<and> concat (fst (run_all (serve V B) events s)) = concat (fst (run_all (serve_pipe create security V B) turns s))"
  by (rule run_expands) (rule pipe_turn_events)

text \<open>When a creation without another instance succeeds and clients close their end, the two loops agree.\<close>

lemma pipe_closing_clients:
  assumes "create_server create security 0 = Inr ()" "list_all (\<lambda>turn. \<not> snd turn) turns"
  shows "run_all (serve_pipe create security V B) turns s = run_all (serve V B) (map fst turns) s"
proof -
  have "recreate create security V B 0 t = t" for t :: "('a, 'b) server" using assms(1) by (simp add: recreate_def)
  with assms(2) show ?thesis
    by (induction turns arbitrary: s) (auto simp: serve_pipe_def run_all.simps(2) split: prod.splits)
qed

lemma creation_refused:
  assumes "first_instance_rule create" "0 < n"
  obtains e where "create_server create security n = Inl e"
proof -
  have "so_first_pipe_instance pipe_options" by (simp add: pipe_options_def)
  with assms have "\<exists>e. create_server create security n = Inl e"
    unfolding first_instance_rule_def create_server_def by blast
  with that show thesis by blast
qed

interpretation pipe_returned:
  answering_system "serve_pipe create security V B" "\<lambda>_. True" "\<lambda>s. sv_status s = Returned r" "\<lambda>_ sent. sent = []"
  for create security V B r
  by unfold_locales (auto simp: serve_pipe_def recreate_def serve_def)

lemma recreate_refused:
  assumes "first_instance_rule create" "0 < n" "sv_status s = Accepting"
  shows "\<exists>e. sv_status (recreate create security V B n s) = Returned (Inl (OsError e))
    \<and> sv_processor (recreate create security V B n s) = sv_processor s"
proof -
  obtain e where "create_server create security n = Inl e" using assms(1,2) by (rule creation_refused)
  with assms(3) show ?thesis by (simp add: recreate_def serve_def)
qed

text \<open>A client that sends one whole frame and takes the answer leaves the loop accepting.\<close>

lemma frame_accepting:
  assumes "server_ok s" "sv_status s = Accepting" "pc_write_error client = None" "encode_frame opcode body = Inr frame"
    "pc_input client = frame"
  shows "sv_status (snd (serve V B (Client (Inr session) allowed client) s)) = Accepting"
proof -
  obtain ctx where ctx: "caller_authorization (Inr session) allowed = Inr ctx" by (simp add: caller_authorization_def)
  have "sendable (fst (process_frame V B frame ctx (sv_processor s)))"
    using assms(1) process_frame_sendable [of "sv_processor s" V B frame ctx] by (simp add: server_ok_def)
  from write_response_sendable [OF this, of client] assms(3)
  obtain bytes where "write_response client (fst (process_frame V B frame ctx (sv_processor s))) = Ends (Inr ()) bytes"
    by auto
  with handle_one_frame [OF assms(4,5), of V B ctx "sv_processor s"] ctx assms(2) show ?thesis
    by (simp add: serve_def serve_client_def)
qed

end
