(* ===== verification/Service_Host.thy ===== *)
theory Service_Host
  imports Pipe_Server Whole_Service
begin

text \<open>
  The host of the service: the entry point and the service lifecycle of
  \<open>services/windows_vpn_service/src/main.rs\<close>, the construction of the vault in \<open>profile_vault.rs\<close>, the
  start of \<open>serve\<close> in \<open>ipc.rs\<close>, and \<open>run_tunnel_service\<close> of \<open>wireguard_engine.rs\<close>, which runs in the
  process of the tunnel service.
\<close>

section \<open>Paths as the standard library compares them\<close>

text \<open>
  Two paths are equal if they have the same components: both separators count, repeated ones and inner
  dots do not, and the letter of a drive is compared without regard to case.
\<close>

definition is_separator :: "char \<Rightarrow> bool" where
  "is_separator c \<longleftrightarrow> c = CHR ''/'' \<or> c \<in> set path_separator"

definition path_segments :: "string \<Rightarrow> string list" where
  "path_segments path = split_on (CHR ''/'') (map (\<lambda>c. if is_separator c then CHR ''/'' else c) path)"

definition drive_upper :: "string \<Rightarrow> string" where
  "drive_upper segment =
     (case segment of
        [c, d] \<Rightarrow> if d = CHR '':'' \<and> 97 \<le> code c \<and> code c \<le> 122 then [char_of (code c - 32), d] else segment
      | _ \<Rightarrow> segment)"

definition path_components :: "string \<Rightarrow> bool \<times> string list" where
  "path_components path =
     (case path_segments path of
        [] \<Rightarrow> (False, [])
      | first # rest \<Rightarrow>
          (first = [] \<and> rest \<noteq> [],
           filter (\<lambda>s. s \<noteq> []) [drive_upper first] @ filter (\<lambda>s. s \<noteq> [] \<and> s \<noteq> ''.'') rest))"

definition path_extension :: "string \<Rightarrow> string option" where
  "path_extension path =
     (case rev (snd (path_components path)) of
        [] \<Rightarrow> None
      | name # parents \<Rightarrow>
          if name = ''..'' then None
          else (case split_once (CHR ''.'') (rev name) of
            None \<Rightarrow> None
          | Some (after, before) \<Rightarrow> if before = [] then None else Some (rev after)))"

section \<open>The process of the tunnel service\<close>

datatype entry_error =
    ExecutableUnknown
  | ExecutableRootUnavailable
  | ProgramDataUnavailable
  | InvalidTunnelPath
  | InvalidTunnelPayload
  | InvalidDriverPayload
  | LibraryUnavailable
  | EntrypointUnavailable
  | TunnelServiceFailed
  | DispatcherFailed

definition fail_as :: "entry_error \<Rightarrow> ('e, 'a) os_op \<Rightarrow> (entry_error, 'a) os_op" where
  "fail_as error operation s = (case operation s of (r, t) \<Rightarrow> (map_err (\<lambda>_. error) r, t))"

definition expected_config :: "string \<Rightarrow> string" where
  "expected_config program_data =
     path_join (path_join (path_join program_data ''KenaiVPN'') ''runtime'') (WG_TUNNEL_NAME @ ''.conf'')"

definition run_tunnel_service ::
  "(u8 list \<Rightarrow> string) \<Rightarrow> string \<Rightarrow> string option \<Rightarrow> string \<Rightarrow> (entry_error, unit) os_op" where
  "run_tunnel_service sha executable program_data config_path =
     try_then (fail_as ExecutableUnknown os_result) (\<lambda>_.
     try_then (Pair (ok_or ExecutableRootUnavailable (path_parent executable))) (\<lambda>executable_root.
     try_then (Pair (map_err (\<lambda>_. ProgramDataUnavailable) (program_data_directory program_data))) (\<lambda>data.
     if path_components config_path \<noteq> path_components (expected_config data)
        \<or> path_extension config_path \<noteq> Some ''conf''
     then Pair (Inl InvalidTunnelPath)
     else
       let payload_root = path_join (path_join executable_root ''wireguard'') ''amd64'' in
       try_then (fail_as InvalidTunnelPayload (verify_hash sha (path_join payload_root ''tunnel.dll'') TUNNEL_SHA256)) (\<lambda>_.
       try_then (fail_as InvalidDriverPayload (verify_hash sha (path_join payload_root ''wireguard.dll'') DRIVER_SHA256)) (\<lambda>_.
       try_then (fail_as LibraryUnavailable os_result) (\<lambda>library.
       try_then (fail_as EntrypointUnavailable os_result) (\<lambda>tunnel.
         fail_as TunnelServiceFailed os_result)))))))"

datatype entry = TunnelEnded | ServiceDispatched

definition run_entry ::
  "(u8 list \<Rightarrow> string) \<Rightarrow> string \<Rightarrow> string option \<Rightarrow> string list \<Rightarrow> (entry_error, entry) os_op" where
  "run_entry sha executable program_data arguments =
     (if length arguments = 3 \<and> arguments ! 1 = ''/wireguard-service''
      then try_then (run_tunnel_service sha executable program_data (arguments ! 2)) (\<lambda>_. Pair (Inr TunnelEnded))
      else try_then (fail_as DispatcherFailed os_result) (\<lambda>_. Pair (Inr ServiceDispatched)))"

section \<open>What the engine registers is what the process accepts\<close>

lemma split_on_append: "split_on d (a @ d # b) = split_on d a @ split_on d b"
proof (induction a)
  case (Cons c a)
  then show ?case by (cases "split_on d a") (auto split: list.split)
qed simp

lemma components_join:
  assumes "name \<noteq> []" "name \<noteq> ''.''" "\<not> list_ex is_separator name"
  shows "snd (path_components (path_join root name)) = snd (path_components root) @ [name]"
proof -
  have name: "map (\<lambda>c. if is_separator c then CHR ''/'' else c) name = name"
    using assms(3) by (intro map_idI) (auto simp: list_ex_iff)
  have sep: "map (\<lambda>c. if is_separator c then CHR ''/'' else c) path_separator = [CHR ''/'']"
    by (simp add: path_separator_def is_separator_def)
  have "CHR ''/'' \<notin> set name" using assms(3) by (auto simp: list_ex_iff is_separator_def)
  then have "path_segments (path_join root name) = path_segments root @ [name]"
    by (simp add: path_segments_def path_join_def name sep split_on_append split_on_no_sep)
  moreover obtain first rest where "path_segments root = first # rest"
    using split_on_nonempty by (cases "path_segments root") (auto simp: path_segments_def)
  ultimately show ?thesis using assms(1,2) by (simp add: path_components_def)
qed

lemma expected_extension: "path_extension (expected_config d) = Some ''conf''"
proof -
  have "snd (path_components (expected_config d))
      = snd (path_components (path_join (path_join d ''KenaiVPN'') ''runtime'')) @ [WG_TUNNEL_NAME @ ''.conf'']"
    unfolding expected_config_def
    by (rule components_join) (code_simp+)
  moreover have "split_once (CHR ''.'') (rev (WG_TUNNEL_NAME @ ''.conf'')) = Some (''fnoc'', ''pvMianeK'')"
    by code_simp
  ultimately show ?thesis by (simp add: path_extension_def WG_TUNNEL_NAME_def)
qed

lemma default_config_path:
  assumes "wireguard_system_default executable program_data s = (Inr e, t)"
  shows "\<exists>d. program_data_directory program_data = Inr d \<and> tb_config_path e = expected_config d
    \<and> tb_executable e = executable"
proof -
  from assms obtain root s1 where r: "runtime_directory program_data s = (Inr root, s1)"
    "e = \<lparr>tb_executable = executable, tb_runtime_root = root,
          tb_config_path = path_join root (WG_TUNNEL_NAME @ ''.conf'')\<rparr>"
    by (auto simp: wireguard_system_default_def tunnel_system_default_def success_simps Let_def)
  from r(1) obtain d where "program_data_directory program_data = Inr d"
    "root = path_join (path_join d ''KenaiVPN'') ''runtime''"
    by (auto simp: runtime_directory_def success_simps)
  with r(2) show ?thesis by (simp add: expected_config_def)
qed

lemma fail_as_simps:
  "fail_as e m s = (Inr x, t) \<longleftrightarrow> m s = (Inr x, t)" "fail_as e m s = (Inl e', t) \<longleftrightarrow> e' = e \<and> (\<exists>x. m s = (Inl x, t))"
  by (auto simp: fail_as_def result_simps split: prod.splits)

lemma fail_as_success [success_simps]: "fail_as e m s = (Inr x, t) \<longleftrightarrow> m s = (Inr x, t)"
  by (rule fail_as_simps)

lemma tunnel_process_verified:
  assumes "run_tunnel_service sha executable program_data path s = (Inr u, t)"
  shows "\<exists>d root. program_data_directory program_data = Inr d \<and> path_parent executable = Some root
    \<and> path_components path = path_components (expected_config d)
    \<and> pinned sha (os_files s) (path_join (path_join (path_join root ''wireguard'') ''amd64'') ''tunnel.dll'') TUNNEL_SHA256
    \<and> pinned sha (os_files s) (path_join (path_join (path_join root ''wireguard'') ''amd64'') ''wireguard.dll'') DRIVER_SHA256"
proof -
  from assms obtain root d s1 s2 s3 where d: "program_data_directory program_data = Inr d" "path_parent executable = Some root"
    "path_components path = path_components (expected_config d)"
    and s: "os_result s = (Inr (), s1)"
      "verify_hash sha (path_join (path_join (path_join root ''wireguard'') ''amd64'') ''tunnel.dll'') TUNNEL_SHA256 s1 = (Inr (), s2)"
      "verify_hash sha (path_join (path_join (path_join root ''wireguard'') ''amd64'') ''wireguard.dll'') DRIVER_SHA256 s2 = (Inr (), s3)"
    by (auto simp: run_tunnel_service_def success_simps result_simps Let_def split: if_splits)
  from d os_result_same [OF s(1)] verify_hash_success [OF s(2)] verify_hash_success [OF s(3)] show ?thesis
    by (auto simp: pinned_def)
qed

lemma tunnel_path_accepted:
  assumes "program_data_directory program_data = Inr d"
  shows "fst (run_tunnel_service sha executable program_data (expected_config d) s) \<noteq> Inl InvalidTunnelPath"
  using assms
  by (auto simp: run_tunnel_service_def expected_extension try_then_def fail_as_def Let_def result_simps
      split: prod.splits sum.splits)

section \<open>The lifecycle of the service\<close>

datatype service_control = ControlStop | ControlInterrogate | ControlOther

datatype control_result = NoError | NotImplemented

text \<open>The control handler: the answer, and whether the shutdown signal is set.\<close>

primrec event_handler :: "service_control \<Rightarrow> bool \<Rightarrow> control_result \<times> bool" where
  "event_handler ControlStop shutdown = (NoError, True)"
| "event_handler ControlInterrogate shutdown = (NoError, shutdown)"
| "event_handler ControlOther shutdown = (NotImplemented, shutdown)"

record service_status =
  ss_state :: service_state
  ss_accepts_stop :: bool
  ss_exit_code :: u32

definition status_of :: "service_state \<Rightarrow> service_status" where
  "status_of current_state =
     \<lparr>ss_state = current_state, ss_accepts_stop = (current_state = Svc_Running), ss_exit_code = 0\<rparr>"

text \<open>The descriptor of the pipe is converted from its text by the system, which may fail.\<close>

definition PipeSecurity_new :: "(unit, pipe_security) os_op" where
  "PipeSecurity_new = try_then os_result (\<lambda>_. Pair (Inr (pipe_security_of PIPE_SDDL)))"

lemma within_security [within_intros]: "within F S C PipeSecurity_new"
  unfolding PipeSecurity_new_def by (intro within_intros)

definition vault_new :: "string \<Rightarrow> (unit, string) os_op" where
  "vault_new root = try_then os_result (\<lambda>created. try_then apply_service_acl (\<lambda>_. Pair (Inr root)))"

definition vault_system_default :: "string option \<Rightarrow> (unit, string) os_op" where
  "vault_system_default program_data =
     try_then (Pair (program_data_directory program_data)) (\<lambda>d.
       vault_new (path_join (path_join d ''KenaiVPN'') ''profiles''))"

text \<open>
  The start of \<open>serve\<close>. The vault and the engines work on different directories of the same system;
  the processor keeps one copy of the system for each of them.
\<close>

definition service_setup ::
  "(u8 list \<Rightarrow> string) \<Rightarrow> (u8 list \<Rightarrow> string) \<Rightarrow> string \<Rightarrow> string option \<Rightarrow>
   (unit, string \<times> windows_backend \<times> (os, host) server) os_op" where
  "service_setup b64 sha executable program_data =
     try_then PipeSecurity_new (\<lambda>security.
     try_then (vault_system_default program_data) (\<lambda>root.
     try_then (backend_system_default b64 sha executable program_data) (\<lambda>(B, h) s.
       (Inr (root, B, serve_start s h), s))))"

text \<open>
  Before each event of the loop the system goes on by itself for a number of calls of other programs and
  for some time, so what it answers a request does not depend on what it answered the last one.
\<close>

definition idle_os :: "nat \<Rightarrow> nat \<Rightarrow> os \<Rightarrow> os" where
  "idle_os calls ms s = s\<lparr>os_clock := os_clock s + calls, os_now := os_now s + ms\<rparr>"

definition idle_server :: "nat \<Rightarrow> nat \<Rightarrow> (os, host) server \<Rightarrow> (os, host) server" where
  "idle_server calls ms s =
     s\<lparr>sv_processor := (sv_processor s)\<lparr>pr_vault := idle_os calls ms (pr_vault (sv_processor s)),
         pr_backend := (pr_backend (sv_processor s))\<lparr>ho_os := idle_os calls ms (ho_os (pr_backend (sv_processor s)))\<rparr>\<rparr>\<rparr>"

type_synonym service_event = "nat \<times> nat \<times> pipe_event"

definition service_step ::
  "string \<Rightarrow> windows_backend \<Rightarrow> service_event \<Rightarrow> (os, host) server \<Rightarrow> u8 list \<times> (os, host) server" where
  "service_step root B e s =
     (case e of (calls, ms, event) \<Rightarrow>
        serve (DpapiProfileVault root) (WindowsVpnBackend B) event (idle_server calls ms s))"

definition service_loop ::
  "string \<Rightarrow> windows_backend \<Rightarrow> service_event list \<Rightarrow> (os, host) server \<Rightarrow> u8 list list \<times> (os, host) server" where
  "service_loop root B = run_all (service_step root B)"

text \<open>
  When \<open>serve\<close> returns, the processor is dropped, and with it the backend. Of the three engines only
  the Xray engine has a \<open>Drop\<close>: it cleans up and ignores the result.
\<close>

definition xray_drop :: "xray_backend \<Rightarrow> host \<Rightarrow> host" where
  "xray_drop e h = snd (xray_cleanup e h)"

definition backend_drop :: "windows_backend \<Rightarrow> host \<Rightarrow> host" where
  "backend_drop B = xray_drop (wb_xray B)"

text \<open>
  \<open>run_service\<close>: the statuses reported, and its result, or \<open>None\<close> while the loop has not returned.
\<close>

definition run_service_main ::
  "(u8 list \<Rightarrow> string) \<Rightarrow> (u8 list \<Rightarrow> string) \<Rightarrow> string \<Rightarrow> string option \<Rightarrow> service_event list \<Rightarrow> os \<Rightarrow>
   (unit + unit) option \<times> service_status list" where
  "run_service_main b64 sha executable program_data events s =
     (case try_then os_result (\<lambda>registered. os_result) s of
        (Inl e, t) \<Rightarrow> (Some (Inl ()), [])
      | (Inr u, t) \<Rightarrow>
          (case try_then os_result (\<lambda>runtime. service_setup b64 sha executable program_data) t of
             (Inl e, t) \<Rightarrow> (Some (Inl ()), [status_of Svc_Running])
           | (Inr (root, B, server), t) \<Rightarrow>
               (case sv_status (snd (service_loop root B events server)) of
                  Returned (Inr u) \<Rightarrow>
                    (case os_result (ho_os (backend_drop B (pr_backend (sv_processor (snd (service_loop root B events server)))))) of
                       (Inl e, t) \<Rightarrow> (Some (Inl ()), [status_of Svc_Running])
                     | (Inr u, t) \<Rightarrow> (Some (Inr ()), [status_of Svc_Running, status_of Svc_Stopped]))
                | Returned (Inl e) \<Rightarrow> (Some (Inl ()), [status_of Svc_Running])
                | _ \<Rightarrow> (None, [status_of Svc_Running]))))"

text \<open>
  The host reports \<open>Stopped\<close> exactly when the loop returned without an error and the report was taken,
  and it reports \<open>Stopped\<close> last; an error of the loop, such as a client that vanished, ends the process
  with the status still \<open>Running\<close>.
\<close>

lemma main_reports:
  assumes "run_service_main b64 sha executable program_data events s = (result, reports)"
  shows "result = Some (Inr ()) \<longleftrightarrow> status_of Svc_Stopped \<in> set reports"
    "result = Some (Inr ()) \<Longrightarrow> reports = [status_of Svc_Running, status_of Svc_Stopped]"
  using assms
  by (auto simp: run_service_main_def status_of_def split: sum.splits prod.splits serve_status.splits)

text \<open>\<open>service_main\<close>: what the process prints, and the statuses it reported.\<close>

definition service_main ::
  "(u8 list \<Rightarrow> string) \<Rightarrow> (u8 list \<Rightarrow> string) \<Rightarrow> string \<Rightarrow> string option \<Rightarrow> service_event list \<Rightarrow> os \<Rightarrow>
   string option \<times> service_status list" where
  "service_main b64 sha executable program_data events s =
     (case run_service_main b64 sha executable program_data events s of
        (Some (Inl e), reports) \<Rightarrow> (Some ''Kenai VPN service stopped: SERVICE_RUNTIME_FAILED'', reports)
      | (_, reports) \<Rightarrow> (None, reports))"

lemma service_main_stopped:
  assumes "service_main b64 sha executable program_data events s = (message, reports)"
    "status_of Svc_Stopped \<in> set reports"
  shows "message = None"
proof -
  obtain result where r: "run_service_main b64 sha executable program_data events s = (result, reports)"
    using assms(1) by (auto simp: service_main_def split: prod.splits option.splits sum.splits)
  with main_reports(1) [OF r] assms show ?thesis by (simp add: service_main_def)
qed

text \<open>The stop control of the service manager reaches the loop as the shutdown signal and ends it.\<close>

lemma stop_ends_loop:
  assumes "sv_status s = Accepting \<or> sv_status s = Held"
  shows "event_handler ControlStop shutdown = (NoError, True)"
    "sv_status (snd (serve V B ShutdownSignal s)) = Returned (Inr ())"
  using assms by (auto simp: serve_def)

section \<open>The whole service keeps the invariant of the tunnels\<close>

lemma process_frame_joined:
  "joined p \<Longrightarrow> joined (snd (process_frame V (WindowsVpnBackend B) frame ctx p))"
  by (auto simp: process_frame_def split: sum.splits prod.splits) (metis process_joined snd_conv)+

lemma handle_one_joined:
  "joined p \<Longrightarrow> joined (snd (handle_one V (WindowsVpnBackend B) client ctx p))"
  by (auto simp: handle_one_def case_prod_beta process_frame_joined split: sum.splits read_result.splits)

lemma serve_joined:
  assumes "joined (sv_processor s)"
  shows "joined (sv_processor (snd (serve V (WindowsVpnBackend B) e s)))"
proof -
  have "joined (sv_processor (snd (serve_client V (WindowsVpnBackend B) c a client s)))" for c a client
    using handle_one_joined [OF assms, of V B client] assms
    by (auto simp: serve_client_def split: sum.splits prod.splits handled.splits) (metis snd_conv)+
  with assms show ?thesis by (cases e) (auto simp: serve_def split: serve_status.splits)
qed

lemma idle_joined: "joined (sv_processor (idle_server calls ms s)) = joined (sv_processor s)"
proof -
  have p: "present e (h\<lparr>ho_os := idle_os calls ms (ho_os h)\<rparr>) = present e h" for e h
    by (cases e) (simp_all add: idle_os_def)
  show ?thesis
    by (simp add: joined_def exclusive_def idle_server_def tunnels_def p host_opens_def tidy_def only_child_def)
      (simp add: idle_os_def)
qed

interpretation served_tunnels: stable_system "service_step root B" "\<lambda>_. True" "\<lambda>s. joined (sv_processor s)"
  for root B
  by unfold_locales (auto simp: service_step_def idle_joined intro!: serve_joined)

lemma setup_joined:
  assumes "service_setup b64 sha executable program_data s = (Inr (root, B, server), t)" "opens (os_env s)"
    "os_processes s = Map.empty"
  shows "joined (sv_processor server)"
proof -
  from assms(1) obtain security s1 s2 h where s: "PipeSecurity_new s = (Inr security, s1)"
    "vault_system_default program_data s1 = (Inr root, s2)"
    "backend_system_default b64 sha executable program_data s2 = (Inr (B, h), t)" "server = serve_start t h"
    by (auto simp: service_setup_def success_simps)
  have W: "within F S C (vault_system_default program_data)" for F S C
    unfolding vault_system_default_def vault_new_def apply_service_acl_def by (intro within_intros)
  have ev: "evolves (\<lambda>_. False) (\<lambda>_. False) (\<lambda>_. False) s s2"
    using evolves_trans [OF withinD [OF within_security s(1)] withinD [OF W s(2)]] .
  then have "opens (os_env s2)" "os_processes s2 = Map.empty"
    using assms(2,3) by (auto simp: evolves_def fun_eq_iff)
  from joined_start [OF backend_default_idle(1) [OF s(3) this]] s(4) show ?thesis by (simp add: serve_start_def)
qed

text \<open>The loop with the creations of its pipe is a run of the loop, so it keeps the invariant too.\<close>

definition service_pipe_step ::
  "create_pipe \<Rightarrow> string \<Rightarrow> windows_backend \<Rightarrow> nat \<times> nat \<times> pipe_turn \<Rightarrow> (os, host) server \<Rightarrow>
   u8 list \<times> (os, host) server" where
  "service_pipe_step create root B e s =
     (case e of (calls, ms, turn) \<Rightarrow>
        serve_pipe create (pipe_security_of PIPE_SDDL) (DpapiProfileVault root) (WindowsVpnBackend B) turn
          (idle_server calls ms s))"

definition service_pipe_loop ::
  "create_pipe \<Rightarrow> nat \<Rightarrow> string \<Rightarrow> windows_backend \<Rightarrow> (nat \<times> nat \<times> pipe_turn) list \<Rightarrow> (os, host) server \<Rightarrow>
   u8 list list \<times> (os, host) server" where
  "service_pipe_loop create instances root B turns server =
     run_all (service_pipe_step create root B) turns
       (recreate create (pipe_security_of PIPE_SDDL) (DpapiProfileVault root) (WindowsVpnBackend B) instances server)"

lemma idle_none [simp]: "idle_server 0 0 s = s"
  by (simp add: idle_server_def idle_os_def)

lemma run_undelayed:
  "run_all (service_step root B) (map (\<lambda>e. (0, 0, e)) events) s =
   run_all (serve (DpapiProfileVault root) (WindowsVpnBackend B)) events s"
  by (induction events arbitrary: s) (simp_all add: run_all.simps(2) service_step_def)

lemma recreate_service_events:
  "\<exists>events. snd (run_all (service_step root B) events s)
       = recreate create security (DpapiProfileVault root) (WindowsVpnBackend B) n s
     \<and> concat (fst (run_all (service_step root B) events s)) = []"
  using recreate_events [of "DpapiProfileVault root" "WindowsVpnBackend B" s create security n]
  by (metis run_undelayed)

lemma pipe_step_events:
  "\<exists>events. snd (run_all (service_step root B) events s) = snd (service_pipe_step create root B e s)
     \<and> concat (fst (run_all (service_step root B) events s)) = fst (service_pipe_step create root B e s)"
proof -
  obtain calls ms turn where e: "e = (calls, ms, turn)" by (cases e) auto
  obtain sent t where t: "service_step root B (calls, ms, fst turn) s = (sent, t)" by fastforce
  obtain events where "snd (run_all (service_step root B) events t) = recreate create (pipe_security_of PIPE_SDDL)
      (DpapiProfileVault root) (WindowsVpnBackend B) (if snd turn then 1 else 0) t"
    "concat (fst (run_all (service_step root B) events t)) = []"
    using recreate_service_events by blast
  with t show ?thesis
    by (intro exI [of _ "(calls, ms, fst turn) # events"])
      (simp add: e service_pipe_step_def serve_pipe_def service_step_def)
qed

lemma pipe_loop_is_loop:
  "\<exists>events. snd (service_loop root B events server) = snd (service_pipe_loop create instances root B turns server)
     \<and> concat (fst (service_loop root B events server))
       = concat (fst (service_pipe_loop create instances root B turns server))"
proof -
  let ?t = "recreate create (pipe_security_of PIPE_SDDL) (DpapiProfileVault root) (WindowsVpnBackend B) instances server"
  obtain xs where xs: "snd (run_all (service_step root B) xs server) = ?t"
    "concat (fst (run_all (service_step root B) xs server)) = []"
    using recreate_service_events by blast
  obtain ys where "snd (run_all (service_step root B) ys ?t) = snd (run_all (service_pipe_step create root B) turns ?t)"
    "concat (fst (run_all (service_step root B) ys ?t)) = concat (fst (run_all (service_pipe_step create root B) turns ?t))"
    using run_expands [of "service_step root B" "service_pipe_step create root B", OF pipe_step_events] by blast
  with xs show ?thesis
    by (intro exI [of _ "xs @ ys"])
      (simp add: service_loop_def service_pipe_loop_def run_all_append run_all_answers_append)
qed

end
