(* ===== verification/Recovery.thy ===== *)
theory Recovery
  imports Service_Host Provisioning
begin

text \<open>
  The end of a service and its next start. The service may end by the stop control, by an error of its
  loop, or because its process is killed at any moment between two clients; the construction of the
  backend by the next start (\<open>system_default\<close> of the three engines) removes what is left. The lemmas say what
  a start leaves of an arbitrary system, and that a start touches nothing else.
\<close>

section \<open>What a start removes\<close>

text \<open>The files a start removes: all that may hold key material except the temporary file of Xray.\<close>

definition cleaned_files :: "windows_backend \<Rightarrow> string set" where
  "cleaned_files B =
     {file_key (tb_config_path (wb_wireguard B)), file_key (wireguard_temporary (wb_wireguard B)),
      file_key (tb_config_path (wb_amneziawg B)), file_key (amneziawg_temporary (wb_amneziawg B)),
      file_key (xb_config_path (wb_xray B))}"

lemma secret_cleaned: "secret_files B = insert (file_key (xray_temporary (wb_xray B))) (cleaned_files B)"
  by (auto simp: secret_files_def cleaned_files_def)

lemma tunnel_default_parts:
  assumes "tunnel_system_default name cleanup executable program_data s = (Inr e, t)"
  obtains s1 u where "evolves (\<lambda>_. False) (\<lambda>_. False) (\<lambda>_. False) s s1" "cleanup e s1 = (Inr u, t)"
    "runtime_directory program_data s = (Inr (tb_runtime_root e), s1)"
    "tb_config_path e = path_join (tb_runtime_root e) (name @ ''.conf'')"
proof -
  from assms obtain root s1 where "runtime_directory program_data s = (Inr root, s1)"
    "cleanup \<lparr>tb_executable = executable, tb_runtime_root = root, tb_config_path = path_join root (name @ ''.conf'')\<rparr> s1
      = (Inr (), t)"
    "e = \<lparr>tb_executable = executable, tb_runtime_root = root, tb_config_path = path_join root (name @ ''.conf'')\<rparr>"
    by (auto simp: tunnel_system_default_def success_simps Let_def)
  with withinD [OF within_runtime this(1)] that show thesis by auto
qed

lemma xray_default_parts:
  assumes "xray_system_default executable program_data s = (Inr e, t)"
  obtains s1 u where "evolves (\<lambda>_. False) (\<lambda>_. False) (\<lambda>_. False) s s1"
    "remove_if_present (xb_config_path e) s1 = (Inr u, t)"
    "runtime_directory program_data s = (Inr (xb_runtime_root e), s1)"
    "xb_config_path e = path_join (xb_runtime_root e) ''KenaiXray.json''"
proof -
  from assms obtain root s1 u where "runtime_directory program_data s = (Inr root, s1)"
    "remove_if_present (path_join root ''KenaiXray.json'') s1 = (Inr u, t)"
    "e = \<lparr>xb_executable = executable, xb_runtime_root = root, xb_config_path = path_join root ''KenaiXray.json''\<rparr>"
    by (auto simp: xray_system_default_def success_simps)
  with withinD [OF within_runtime this(1)] that show thesis by auto
qed

lemma runtime_directory_root:
  assumes "runtime_directory program_data s = (Inr root, t)"
  shows "\<exists>d. program_data_directory program_data = Inr d \<and> root = path_join (path_join d ''KenaiVPN'') ''runtime''"
  using assms by (auto simp: runtime_directory_def success_simps)

text \<open>A step that removes a set of files and creates none.\<close>

definition sweeps :: "string set \<Rightarrow> os \<Rightarrow> os \<Rightarrow> bool" where
  "sweeps K s t \<longleftrightarrow> (\<forall>k. os_files t k = (if k \<in> K then None else os_files s k))"

lemma sweeps_trans: "sweeps K s t \<Longrightarrow> sweeps L t u \<Longrightarrow> sweeps (K \<union> L) s u"
  by (auto simp: sweeps_def)

lemma sweeps_after: "evolves (\<lambda>_. False) S C s s1 \<Longrightarrow> sweeps K s1 t \<Longrightarrow> sweeps K s t"
  by (simp add: sweeps_def evolves_def)

lemma sweepsI:
  "evolves (\<lambda>k. k \<in> K) S C s t \<Longrightarrow> (\<And>k. k \<in> K \<Longrightarrow> os_files t k = None) \<Longrightarrow> sweeps K s t"
  by (simp add: sweeps_def evolves_def) blast

lemma wireguard_cleanup_sweeps:
  assumes "wireguard_cleanup_stale e s = (Inr u, t)"
  shows "sweeps {file_key (tb_config_path e), file_key (wireguard_temporary e)} s t"
proof (rule sweepsI)
  have "within (\<lambda>k. k \<in> {file_key (tb_config_path e), file_key (wireguard_temporary e)}) (\<lambda>_. True) (\<lambda>_. False)
      (wireguard_cleanup_stale e)" by (rule within_wireguard) simp_all
  with assms show "evolves (\<lambda>k. k \<in> {file_key (tb_config_path e), file_key (wireguard_temporary e)})
      (\<lambda>_. True) (\<lambda>_. False) s t" by (blast dest: withinD)
qed (use wireguard_cleanup_success [OF assms] in auto)

lemma amneziawg_cleanup_sweeps:
  assumes "amneziawg_cleanup_stale e s = (Inr u, t)"
  shows "sweeps {file_key (tb_config_path e), file_key (amneziawg_temporary e)} s t"
proof (rule sweepsI)
  have "within (\<lambda>k. k \<in> {file_key (tb_config_path e), file_key (amneziawg_temporary e)}) (\<lambda>_. True) (\<lambda>_. False)
      (amneziawg_cleanup_stale e)" by (rule within_amneziawg) simp_all
  with assms show "evolves (\<lambda>k. k \<in> {file_key (tb_config_path e), file_key (amneziawg_temporary e)})
      (\<lambda>_. True) (\<lambda>_. False) s t" by (blast dest: withinD)
qed (use amneziawg_cleanup_success [OF assms] in auto)

lemma remove_sweeps:
  assumes "remove_if_present p s = (Inr u, t)"
  shows "sweeps {file_key p} s t"
proof (rule sweepsI)
  have "within (\<lambda>k. k \<in> {file_key p}) (\<lambda>_. True) (\<lambda>_. False) (remove_if_present p)" by (rule within_steps) simp
  with assms show "evolves (\<lambda>k. k \<in> {file_key p}) (\<lambda>_. True) (\<lambda>_. False) s t" by (blast dest: withinD)
qed (use remove_if_present_success [OF assms] in auto)

lemma backend_default_parts:
  assumes "backend_system_default b64 sha executable program_data s = (Inr (B, h), t)"
  obtains s1 s2 where "wireguard_system_default executable program_data s = (Inr (wb_wireguard B), s1)"
    "amneziawg_system_default executable program_data s1 = (Inr (wb_amneziawg B), s2)"
    "xray_system_default executable program_data s2 = (Inr (wb_xray B), t)"
    "h = \<lparr>ho_os = t, ho_process = None, ho_active = None\<rparr>"
  using assms that by (auto simp: backend_system_default_def try_then_success)

lemma backend_default_sweeps:
  assumes "backend_system_default b64 sha executable program_data s = (Inr (B, h), t)"
  shows "sweeps (cleaned_files B) s t"
proof -
  from assms obtain s1 s2 where w: "wireguard_system_default executable program_data s = (Inr (wb_wireguard B), s1)"
    and a: "amneziawg_system_default executable program_data s1 = (Inr (wb_amneziawg B), s2)"
    and x: "xray_system_default executable program_data s2 = (Inr (wb_xray B), t)"
    by (rule backend_default_parts)
  have "sweeps {file_key (tb_config_path (wb_wireguard B)), file_key (wireguard_temporary (wb_wireguard B))} s s1"
    using w [unfolded wireguard_system_default_def]
    by (rule tunnel_default_parts) (blast intro: sweeps_after wireguard_cleanup_sweeps)
  moreover have "sweeps {file_key (tb_config_path (wb_amneziawg B)), file_key (amneziawg_temporary (wb_amneziawg B))} s1 s2"
    using a [unfolded amneziawg_system_default_def]
    by (rule tunnel_default_parts) (blast intro: sweeps_after amneziawg_cleanup_sweeps)
  moreover have "sweeps {file_key (xb_config_path (wb_xray B))} s2 t"
    using x by (rule xray_default_parts) (blast intro: sweeps_after remove_sweeps)
  ultimately have "sweeps ({file_key (tb_config_path (wb_wireguard B)), file_key (wireguard_temporary (wb_wireguard B))}
      \<union> {file_key (tb_config_path (wb_amneziawg B)), file_key (amneziawg_temporary (wb_amneziawg B))}
      \<union> {file_key (xb_config_path (wb_xray B))}) s t" by (blast intro: sweeps_trans)
  then show ?thesis by (simp add: cleaned_files_def insert_commute)
qed

text \<open>A start of the service on an arbitrary system.\<close>

lemma setup_parts:
  assumes "service_setup b64 sha executable program_data s = (Inr (root, B, server), t)"
  obtains s1 s2 h where "evolves (\<lambda>_. False) (\<lambda>_. False) (\<lambda>_. False) s s2"
    "vault_system_default program_data s1 = (Inr root, s2)"
    "backend_system_default b64 sha executable program_data s2 = (Inr (B, h), t)" "server = serve_start t h"
proof -
  from assms obtain security s1 s2 h where p: "PipeSecurity_new s = (Inr security, s1)"
    and v: "vault_system_default program_data s1 = (Inr root, s2)"
    and b: "backend_system_default b64 sha executable program_data s2 = (Inr (B, h), t)" "server = serve_start t h"
    by (auto simp: service_setup_def success_simps)
  have "within (\<lambda>_. False) (\<lambda>_. False) (\<lambda>_. False) (vault_system_default program_data)"
    unfolding vault_system_default_def vault_new_def apply_service_acl_def by (intro within_intros)
  from evolves_trans [OF withinD [OF within_security p] withinD [OF this v]] v b that
  show thesis by blast
qed

lemma setup_sweeps:
  assumes "service_setup b64 sha executable program_data s = (Inr (root, B, server), t)"
  shows "sweeps (cleaned_files B) s t"
  using assms by (rule setup_parts) (blast intro: sweeps_after backend_default_sweeps)

lemma setup_start:
  assumes "service_setup b64 sha executable program_data s = (Inr (root, B, server), t)"
  shows "pr_vault (sv_processor server) = t" "ho_os (pr_backend (sv_processor server)) = t"
    "pr_machine (sv_processor server) = default_state_event"
  using assms
  by (auto elim!: setup_parts backend_default_parts simp: serve_start_def with_backend_def)

lemma setup_no_tunnels:
  assumes "service_setup b64 sha executable program_data s = (Inr (root, B, server), t)" "opens (os_env s)"
    "os_processes s = Map.empty"
  shows "tunnels (pr_backend (sv_processor server)) = {}"
proof -
  from assms(1) obtain s2 h where ev: "evolves (\<lambda>_. False) (\<lambda>_. False) (\<lambda>_. False) s s2"
    and b: "backend_system_default b64 sha executable program_data s2 = (Inr (B, h), t)" "server = serve_start t h"
    by (rule setup_parts)
  have "opens (os_env s2)" "os_processes s2 = Map.empty" using ev assms(2,3) by (auto simp: evolves_def fun_eq_iff)
  from backend_default_idle(2) [OF b(1) this] b(2) show ?thesis by (simp add: serve_start_def with_backend_def)
qed

section \<open>Profiles and runtime files are apart\<close>

definition in_directory :: "string \<Rightarrow> string \<Rightarrow> bool" where
  "in_directory root k \<longleftrightarrow> starts_with (file_key (path_join root [])) k"

lemma in_directory_join: "in_directory root (file_key (path_join root name))"
  by (simp add: in_directory_def starts_with_def path_join_def)

lemma of_vault_directory: "of_vault root k \<Longrightarrow> in_directory root k"
  by (auto simp: of_vault_def vault_key_def in_directory_def starts_with_def path_join_def)

lemma apart:
  "\<not> in_directory (path_join d ''profiles'') (file_key (path_join (path_join d ''runtime'') name))"
  by (simp add: in_directory_def starts_with_def path_join_def file_key_def ascii_lower_def path_separator_def
      take_Cons')

lemma setup_directories:
  assumes "service_setup b64 sha executable program_data s = (Inr (root, B, server), t)"
  obtains d where "program_data_directory program_data = Inr d" "root = path_join (path_join d ''KenaiVPN'') ''profiles''"
    "\<And>k. k \<in> cleaned_files B \<Longrightarrow> \<not> in_directory root k"
proof -
  from assms obtain s1 s2 h where v: "vault_system_default program_data s1 = (Inr root, s2)"
    and b: "backend_system_default b64 sha executable program_data s2 = (Inr (B, h), t)" by (rule setup_parts)
  from v obtain d where d: "program_data_directory program_data = Inr d"
    "root = path_join (path_join d ''KenaiVPN'') ''profiles''"
    by (auto simp: vault_system_default_def vault_new_def success_simps)
  define r where "r = path_join (path_join d ''KenaiVPN'') ''runtime''"
  from b obtain s3 s4 where w: "wireguard_system_default executable program_data s2 = (Inr (wb_wireguard B), s3)"
    and a: "amneziawg_system_default executable program_data s3 = (Inr (wb_amneziawg B), s4)"
    and x: "xray_system_default executable program_data s4 = (Inr (wb_xray B), t)"
    by (rule backend_default_parts)
  have rt: "root' = r" if "runtime_directory program_data u = (Inr root', u')" for u u' root'
    using runtime_directory_root [OF that] d(1) by (simp add: r_def)
  have "tb_runtime_root (wb_wireguard B) = r" "\<exists>n. tb_config_path (wb_wireguard B) = path_join r n"
    using w [unfolded wireguard_system_default_def] by (auto elim!: tunnel_default_parts dest!: rt)
  moreover have "tb_runtime_root (wb_amneziawg B) = r" "\<exists>n. tb_config_path (wb_amneziawg B) = path_join r n"
    using a [unfolded amneziawg_system_default_def] by (auto elim!: tunnel_default_parts dest!: rt)
  moreover have "\<exists>n. xb_config_path (wb_xray B) = path_join r n"
    using x by (auto elim!: xray_default_parts dest!: rt)
  ultimately have "\<exists>n. k = file_key (path_join r n)" if "k \<in> cleaned_files B" for k
    using that by (auto simp: cleaned_files_def wireguard_temporary_def amneziawg_temporary_def)
  then have "\<not> in_directory root k" if "k \<in> cleaned_files B" for k
    using that apart [of "path_join d ''KenaiVPN''"] d(2) by (auto simp: r_def)
  with d that show thesis by blast
qed

section \<open>The end of a service\<close>

text \<open>
  The end of a process closes its handles: every process in one of its kill-on-close jobs ends too.
  The processor keeps one copy of the system for the vault and one for the engines; \<open>shared_os\<close> is
  the system they leave together.
\<close>

definition process_ends :: "os \<Rightarrow> os" where
  "process_ends s = s\<lparr>os_processes := (\<lambda>i.
     case os_processes s i of None \<Rightarrow> None | Some ch \<Rightarrow> if ch_owned ch then None else Some ch)\<rparr>"

definition shared_os :: "string \<Rightarrow> os \<Rightarrow> host \<Rightarrow> os" where
  "shared_os root v h =
     (ho_os h)\<lparr>os_files := (\<lambda>k. if in_directory root k then os_files v k else os_files (ho_os h) k)\<rparr>"

definition killed :: "string \<Rightarrow> (os, host) processor \<Rightarrow> os" where
  "killed root p = process_ends (shared_os root (pr_vault p) (pr_backend p))"

definition stopped :: "string \<Rightarrow> windows_backend \<Rightarrow> (os, host) processor \<Rightarrow> os" where
  "stopped root B p = process_ends (shared_os root (pr_vault p) (backend_drop B (pr_backend p)))"

text \<open>The tunnels of a system on which no service process runs.\<close>

definition left_tunnels :: "os \<Rightarrow> active_engine set" where
  "left_tunnels s = tunnels \<lparr>ho_os = s, ho_process = None, ho_active = None\<rparr>"

lemma present_left:
  "e \<in> left_tunnels (process_ends (shared_os root v h)) \<longleftrightarrow> e \<noteq> ActiveXray \<and> present e h"
  by (cases e) (simp_all add: left_tunnels_def tunnels_def process_ends_def shared_os_def)

lemma ends_processes: "tidy h \<Longrightarrow> os_processes (process_ends (shared_os root v h)) = Map.empty"
  by (auto simp: tidy_def only_child_def process_ends_def shared_os_def fun_eq_iff split: option.split)

lemma ends_env [simp]: "os_env (process_ends (shared_os root v h)) = os_env (ho_os h)"
  by (simp add: process_ends_def shared_os_def)

lemma ends_vault_files: "in_directory root k \<Longrightarrow> os_files (process_ends (shared_os root v h)) k = os_files v k"
  by (simp add: process_ends_def shared_os_def)

text \<open>Either end, from a state of the invariant.\<close>

lemma backend_drop_step: "step_ok ActiveXray h (backend_drop B h)" "ho_process (backend_drop B h) = None"
  using xray_cleanup_result(1,2) [of "wb_xray B" h] by (simp_all add: backend_drop_def xray_drop_def prod_eq_iff)

lemma ended_parts:
  assumes "joined p" "u = killed root p \<or> u = stopped root B p"
  shows "opens (os_env u)" "os_processes u = Map.empty"
    "left_tunnels u = tunnels (pr_backend p) - {ActiveXray}"
    "in_directory root k \<Longrightarrow> os_files u k = os_files (pr_vault p) k"
proof -
  obtain h where u: "u = process_ends (shared_os root (pr_vault p) h)"
    and h: "h = pr_backend p \<or> step_ok ActiveXray (pr_backend p) h"
    using assms(2) backend_drop_step(1) [of "pr_backend p" B] by (auto simp: killed_def stopped_def)
  have "tidy (pr_backend p)" "host_opens (pr_backend p)" using assms(1) by (simp_all add: joined_def exclusive_def)
  with h have ok: "tidy h" "host_opens h" "tunnels h - {ActiveXray} = tunnels (pr_backend p) - {ActiveXray}"
    by (elim disjE; simp add: step_ok_def host_opens_def)+
  show "opens (os_env u)" "os_processes u = Map.empty" using ok ends_processes u by (simp_all add: host_opens_def)
  have "left_tunnels u = tunnels h - {ActiveXray}" using present_left u by (auto simp: tunnels_def)
  with ok(3) show "left_tunnels u = tunnels (pr_backend p) - {ActiveXray}" by simp
  show "in_directory root k \<Longrightarrow> os_files u k = os_files (pr_vault p) k" using u by (simp add: ends_vault_files)
qed

lemma run_joined:
  assumes "service_setup b64 sha executable program_data s = (Inr (root, B, server), t)" "opens (os_env s)"
    "os_processes s = Map.empty"
  shows "joined (sv_processor (snd (service_loop root B events server)))"
  using served_tunnels.run_stable [OF _ setup_joined [OF assms], of events] by (simp add: service_loop_def list_all_iff)

section \<open>A start succeeds on a healthy system\<close>

text \<open>From now on every call works, and a service that is asked reports that it is stopped.\<close>

definition healthy :: "os \<Rightarrow> bool" where
  "healthy s \<longleftrightarrow> (\<forall>t \<ge> os_clock s. en_fault (os_env s) t = Works \<and> en_state (os_env s) t = Svc_Stopped)"

definition completes :: "('e, 'a) os_op \<Rightarrow> bool" where
  "completes m \<longleftrightarrow> (\<forall>s. healthy s \<longrightarrow> (\<exists>x t. m s = (Inr x, t) \<and> healthy t))"

named_theorems completes_intros \<open>operations that succeed on a healthy system\<close>

lemma healthy_evolves: "evolves F S C s t \<Longrightarrow> healthy s \<Longrightarrow> healthy t"
  by (simp add: healthy_def evolves_def)

lemma completesI:
  "within (\<lambda>_. True) (\<lambda>_. True) (\<lambda>_. True) m \<Longrightarrow> (\<And>s. healthy s \<Longrightarrow> is_ok (fst (m s))) \<Longrightarrow> completes m"
  unfolding completes_def is_ok_iff by (metis healthy_evolves surjective_pairing withinD)

lemma completesD: "completes m \<Longrightarrow> healthy s \<Longrightarrow> \<exists>x t. m s = (Inr x, t) \<and> healthy t"
  by (simp add: completes_def)

lemma completes_try_then [completes_intros]:
  assumes "completes m" "\<And>x. completes (f x)"
  shows "completes (try_then m f)"
  unfolding completes_def
proof (intro allI impI)
  fix s
  assume "healthy s"
  with assms(1) obtain x t where "m s = (Inr x, t)" "healthy t" by (blast dest: completesD)
  with completesD [OF assms(2), of t x] show "\<exists>y u. try_then m f s = (Inr y, u) \<and> healthy u" by simp
qed

lemma completes_pure [completes_intros]: "completes (Pair (Inr x))" "completes (\<lambda>s. (Inr (f s), s))"
  by (simp_all add: completes_def)

lemma completes_returning [completes_intros]: "completes (returning (Inr x))"
  by (simp add: completes_def returning_def)

lemma completes_or_fail [completes_intros]: "completes m \<Longrightarrow> completes (or_fail e m)"
  by (fastforce simp: completes_def or_fail_def)

lemma completes_os_result [completes_intros]: "completes os_result"
  by (rule completesI, rule within_os_result) (simp add: os_result_def os_call_def healthy_def)

lemma completes_remove [completes_intros]: "completes (remove_if_present p)"
  by (rule completesI, rule within_steps)
    (simp_all add: remove_if_present_def fs_remove_file_def os_call_def healthy_def split: option.split)

lemma completes_acl [completes_intros]: "completes apply_service_acl"
  unfolding apply_service_acl_def by (intro completes_intros)

lemma completes_delete_service [completes_intros]: "completes (delete_service n k)"
proof (rule completesI)
  show "within (\<lambda>_. True) (\<lambda>_. True) (\<lambda>_. True) (delete_service n k)" by (rule within_steps) simp
  show "is_ok (fst (delete_service n k s))" if "healthy s" for s
    using that
    by (simp add: delete_service_def svc_manager_def os_result_def svc_open_def svc_query_def svc_delete_def os_call_def
        healthy_def try_then_def or_fail_def returning_def)
qed

lemma completes_cleanup [completes_intros]:
  "completes (wireguard_cleanup_stale e)" "completes (amneziawg_cleanup_stale e)"
  unfolding wireguard_cleanup_stale_def amneziawg_cleanup_stale_def by (intro completes_intros)+

lemma completes_runtime [completes_intros]: "d \<noteq> [] \<Longrightarrow> completes (runtime_directory (Some d))"
  unfolding runtime_directory_def by (intro completes_intros) (simp add: program_data_directory_def completes_def)

lemma completes_settled [completes_intros]:
  "completes m \<Longrightarrow> completes (\<lambda>s. case m s of (Inl e, t) \<Rightarrow> (Inl (), t) | (Inr u, t) \<Rightarrow> (Inr x, t))"
  by (fastforce simp: completes_def)

lemma completes_defaults [completes_intros]:
  assumes "d \<noteq> []"
  shows "completes (wireguard_system_default executable (Some d))" "completes (amneziawg_system_default executable (Some d))"
    "completes (xray_system_default executable (Some d))"
  unfolding wireguard_system_default_def amneziawg_system_default_def xray_system_default_def tunnel_system_default_def
    Let_def using assms by (intro completes_intros; assumption)+

text \<open>
  A start succeeds on a healthy system, whatever files, services and processes are on it.
\<close>

lemma setup_completes:
  assumes "healthy s" "d \<noteq> []"
  obtains root B server t where "service_setup b64 sha executable (Some d) s = (Inr (root, B, server), t)" "healthy t"
proof -
  have directory: "program_data_directory (Some d) = Inr d" using assms(2) by (simp add: program_data_directory_def)
  have "completes (service_setup b64 sha executable (Some d))"
    unfolding service_setup_def PipeSecurity_new_def vault_system_default_def vault_new_def backend_system_default_def
      directory case_prod_beta using assms(2) by (intro completes_intros; assumption)
  from completesD [OF this assms(1)] that show thesis by auto
qed

end
