(* ===== verification/Spec2Isabelle.thy ===== *)
theory Spec2Isabelle
  imports Contract_Theorems Core_Theorems Provisioning Backend_Theorems Recovery
begin

text \<open>
  The privileged Windows service of the Kenai VPN (Rust).

  An unprivileged application writes one framed request at a time to a named pipe. The service
  (\<open>services/windows_vpn_service\<close>) reads the frame, decodes it with the contract crate
  (\<open>crates/vpn_contracts\<close>), checks the session of the caller and hands the command to the processor
  (\<open>crates/vpn_service_core\<close>), which keeps the connection state, a window of seen request identifiers, a
  vault of encrypted profiles and one of three tunnel engines. The answer is encoded and written back.

  THEORIES AND SOURCES

  \<^item> \<open>Prelude\<close>: bytes, results as sums (\<open>Inl\<close> the error), \<open>and_then\<close> and \<open>try_then\<close> for the question mark of
    Rust without and with state, little-endian integers. \<open>Rust_Str\<close>, \<open>Ip_Addr\<close>: the operations on \<open>str\<close>, the
    integer parsers and \<open>IpAddr\<close> of the standard library. \<open>Transition_System\<close>: runs, reachable states
    and the locales \<open>stable_system\<close>, \<open>answering_system\<close>, \<open>simulated_system\<close>, which every stateful component interprets.
  \<^item> \<open>vpn_contracts/src/lib.rs\<close>: \<open>Contract_Types\<close> (the records and enumerations), \<open>Contract_Validate\<close> (the
    validate methods), \<open>Contract_Cursor\<close> (\<open>Cursor\<close> and the put functions), \<open>Contract_Profile\<close> (profiles),
    \<open>Contract_Frame\<close> (frames, requests, responses), \<open>Contract_Sealed\<close> (the sealed forms of profiles);
    \<open>Contract_Theorems\<close> has their round trips, the exact domains of the encoders, the soundness of
    the decoders and the limits.
  \<^item> \<open>vpn_service_core/src/lib.rs\<close>: \<open>State_Machine\<close> (\<open>ConnectionStateMachine\<close> and its refinement of the
    documented life cycle), \<open>Processor\<close> (the two traits as records of operations, the handlers, \<open>process\<close>),
    \<open>Processor_Laws\<close> (frames, the relation \<open>observed\<close> between requests, the replay window) and
    \<open>Core_Theorems\<close>.
  \<^item> \<open>ipc.rs\<close>: \<open>Ipc\<close>. A client is the bytes it writes, whether it hangs up, and the error that meets the
    answer; the loop is a step function on pipe events, whose status says whether it accepts, is held
    by a pending client or has returned. \<open>Pipe_Server\<close>: the descriptor and the options of the pipe, and the
    loop with the creation of each instance (\<open>serve_pipe\<close>), every run of which is a run of the loop.
  \<^item> \<open>profile_vault.rs\<close>: \<open>Os\<close> (files), \<open>Vault\<close>, \<open>Vault_Laws\<close>, \<open>Vault_Theorems\<close>: the vault refines a map from
    handles to sealed profiles. \<open>Provisioning\<close> composes it with the processor.
  \<^item> \<open>wireguard_engine.rs\<close>, \<open>amneziawg_engine.rs\<close>: \<open>Os_Services\<close> (service manager, clock, processes, jobs),
    \<open>Engine_Config\<close> (the rendered texts and the statistics parsers), \<open>Engines\<close> (the operations).
    \<open>xray_engine.rs\<close>, \<open>windows_backend.rs\<close>: \<open>Windows_Backend\<close>. \<open>Engine_Laws\<close> and \<open>Backend_Laws\<close> say what each
    operation may touch (\<open>within\<close>) and what it did when it succeeded; \<open>Backend_System\<close> has the contract
    of an engine as the locale \<open>exclusive_engine\<close>, its three interpretations and the invariant of the
    selection; \<open>Engine_Costs\<close> bounds the calls of every operation; \<open>Backend_Theorems\<close> has the properties,
    on the machine of \<open>Sample_System\<close> where an instance is needed.
  \<^item> \<open>main.rs\<close>, the start of \<open>serve\<close> and \<open>run_tunnel_service\<close>: \<open>Service_Host\<close>; \<open>Whole_Service\<close> joins the
    processor with the engines. \<open>Recovery\<close>: the end of a service, orderly (\<open>stopped\<close>, with the drop of the
    backend) or by a kill between two events (\<open>killed\<close>), and what the next start removes and keeps of any
    system (\<open>setup_sweeps\<close>, \<open>setup_no_tunnels\<close>), also one left in the middle of an operation. This theory has the
    properties of the whole.

  HOW THE CODE IS MODELLED

  \<^item> Strings are their UTF-8 bytes, integers have their width, secret keys are byte lists; redaction
    and zeroisation have no observable result. Every early return is a branch of a sum.
  \<^item> The operating system is a state (files, services, processes, a clock) and an environment that
    decides the outcome of every call by its tick: which call fails, what a service reports, whether
    it can be opened, how long a call takes, random bytes, exit codes, the bytes of the driver. A
    theorem holds for every environment unless it says otherwise, so it covers every sequence of failures.
    Methods that take a shared reference leave the model's state as it is; between two events of the
    service (\<open>service_step\<close>) the clock and the tick of the system go on by any amount, so a later request may
    be answered differently.
  \<^item> Parameters, for code that is not in the repository: the base64 encoder and SHA-256 in hexadecimal.
    The named hypotheses are \<open>dpapi_ok\<close> (unprotecting what was protected with the same entropy gives it
    back), \<open>base64_ok\<close> (the alphabet), \<open>first_instance_rule\<close> (a first pipe instance is refused while
    another of its name exists), \<open>opens\<close> (a service that exists can be opened by a service with full
    rights) and \<open>undisturbed\<close> (nobody else changes the tunnels). \<open>opens\<close> is needed: without it a disconnect
    may leave a tunnel, as \<open>disconnect_overlooks_service\<close> shows.
  \<^item> Processes of the service are named by the tick that started them; a kill-on-close job has one
    process and is named by it; when the process of the service ends, its jobs close and what they own
    ends too (\<open>process_ends\<close>). The vault and the engines use different directories, and the processor
    keeps a copy of the system for each of them (\<open>shared_os\<close> puts the two together).

  BOUNDS

  256 identifiers in the replay window, frames of 32768 bytes, answers of 248 bytes, 8 attempts to
  store a profile, 30 s and so 301 polls to wait for a service, 64 KiB for the driver's buffer. All of
  them are the code's; no definition uses fuel. The two loops that are not structural, \<open>wait_until\<close> and
  \<open>read_adapter\<close>, have measures (the time left, the room left in the buffer), because every round of the
  first sleeps for 100 ms and every round of the second has a larger buffer.

  WHAT THE MODEL FOUND

  A failed load or stop strands the processor (\<open>failed_load_wedges\<close>, \<open>failed_stop_wedges\<close>); a client that vanishes
  ends the service and a silent one holds it (\<open>vanishing_client_stops_service\<close>, \<open>silent_client_holds_service\<close>); a
  network with a zero-padded prefix cannot be sealed (\<open>validated_profile_not_sealable\<close>); an identifier is
  taken again after the window (\<open>replay_after_window\<close>); a failed renaming leaves a profile in plaintext
  (\<open>failed_rename_leaves_profile\<close>); a service that cannot be opened survives a disconnect
  (\<open>disconnect_overlooks_service\<close>); a client that keeps its end of the pipe open, even one of another
  session, makes the next creation of the pipe fail and so ends the service (\<open>lingering_client_stops_service\<close>).

  NOT MODELLED

  What the access-control lists grant (their texts are data here, Windows interprets them; their calls
  are outcomes); the dispatcher of the service manager and the tokio runtime; the
  loaded libraries and programs of the three protocols; paths with UNC or verbatim prefixes, which never
  equal the fixed path on a drive. The application (Dart), its runner (C++), the installer and the tools
  are other programs; the service sees the application as arbitrary bytes.
\<close>

section \<open>The service as a whole\<close>

text \<open>
  C1. Whatever clients send, in whatever order, each of them receives either nothing or one frame of at
  most 248 bytes that decodes to a response, and the service loop never ends because an answer could
  not be encoded; this holds for every vault and every backend.
\<close>

theorem every_answer_decodes:
  "list_all deliverable (fst (run_all (serve V B) events (serve_start vault backend)))
   \<and> sv_status (snd (run_all (serve V B) events (serve_start vault backend))) \<noteq> Returned (Inl InvalidData)"
proof
  have all: "list_all (\<lambda>_. True) events" by (simp add: list_all_iff)
  show "list_all deliverable (fst (run_all (serve V B) events (serve_start vault backend)))"
    using server_ok_start by (rule serving.run_answers_all [OF all]) simp
  show "sv_status (snd (run_all (serve V B) events (serve_start vault backend))) \<noteq> Returned (Inl InvalidData)"
    using serving.run_stable [OF all server_ok_start, of V B vault backend] by (simp add: server_ok_def)
qed

definition polite_client :: "u8 list \<Rightarrow> pipe_client" where
  "polite_client bytes = \<lparr>pc_input = bytes, pc_hangs_up = True, pc_write_error = None\<rparr>"

text \<open>
  C2. A request travels end to end: a client of the console session that writes an encoded request and
  takes the answer receives a frame that decodes to the response of exactly this request (same
  identifier), computed by the processor, and the service goes on accepting.
\<close>

theorem request_answered_end_to_end:
  assumes "server_ok s" "sv_status s = Accepting" "wt_request request"
    "encode_request request = Inr frame" "session \<noteq> 0"
    "caller_authorization (Inr session) session = Inr ctx"
  shows "decode_response (fst (serve V B (Client (Inr session) session (polite_client frame)) s))
      = Inr (fst (process_frame V B frame ctx (sv_processor s)))
    \<and> rs_request_id (fst (process_frame V B frame ctx (sv_processor s))) = rq_request_id request
    \<and> snd (serve V B (Client (Inr session) session (polite_client frame)) s)
      = s\<lparr>sv_processor := snd (process_frame V B frame ctx (sv_processor s))\<rparr>"
proof -
  let ?r = "fst (process_frame V B frame ctx (sv_processor s))"
  have dec: "decode_request frame = Inr request"
    using assms(3,4) by (rule decode_encode_request_lemma)
  obtain opcode body where e: "encode_frame opcode body = Inr frame"
    using assms(4) by (rule encode_request_parts)
  have allowed: "is_allowed ctx" using assms(5,6) by (auto simp: caller_authorization_def is_allowed_def)
  have "sendable ?r" using assms(1) process_frame_sendable [of "sv_processor s" V B frame ctx]
    by (simp add: server_ok_def)
  from write_response_sendable [OF this, of "polite_client frame"] obtain bytes where
    bytes: "decode_response bytes = Inr ?r" "write_response (polite_client frame) ?r = Ends (Inr ()) bytes"
    by (auto simp: polite_client_def)
  have "handle_one V B (polite_client frame) ctx (sv_processor s)
      = (Ends (Inr ()) bytes, snd (process_frame V B frame ctx (sv_processor s)))"
    using bytes(2) by (subst handle_one_frame [OF e]) (simp_all add: polite_client_def)
  then have "serve V B (Client (Inr session) session (polite_client frame)) s
      = (bytes, s\<lparr>sv_processor := snd (process_frame V B frame ctx (sv_processor s))\<rparr>)"
    using assms(2,6) allowed by (simp add: serve_def serve_client_def)
  moreover have "rs_request_id ?r = rq_request_id request"
    using dec process_outcome(1) [of V B ctx request "sv_processor s"]
    by (auto simp: process_frame_def safe_command_error_def split: prod.splits sum.splits)
  ultimately show ?thesis using bytes(1) by simp
qed

definition status_request :: request_envelope where
  "status_request = sample_envelope ''status-1'' Status"

definition status_frame :: "u8 list" where
  "status_frame = projr (encode_request status_request)"

lemma status_frame: "encode_request status_request = Inr status_frame" "wt_request status_request"
proof -
  have "is_ok (encode_request status_request)" by code_simp
  then show "encode_request status_request = Inr status_frame"
    unfolding status_frame_def by (rule is_ok_projr)
  show "wt_request status_request" by code_simp
qed

theorem request_answered_end_to_end_witness:
  "rs_request_id (fst (process_frame UnavailableProfileVault UnavailableVpnBackend status_frame sample_caller
     default_processor)) = ''status-1''
   \<and> is_ok (decode_response (fst (serve UnavailableProfileVault UnavailableVpnBackend
        (Client (Inr 3) 3 (polite_client status_frame)) (serve_start () ()))))"
proof -
  have p: "sv_processor (serve_start () ()) = default_processor"
    by (simp add: serve_start_def default_processor_def)
  have s: "sv_status (serve_start () ()) = Accepting" by (simp add: serve_start_def)
  have c: "caller_authorization (Inr 3) 3 = Inr sample_caller"
    by (simp add: caller_authorization_def sample_caller_def)
  show ?thesis
    using request_answered_end_to_end [OF server_ok_start s status_frame(2,1) _ c,
        of UnavailableProfileVault UnavailableVpnBackend] p
    by (simp add: is_ok_iff status_request_def sample_envelope_def)
qed








text \<open>
  C38. The name of the pipe is taken by the service alone: if another process already has a pipe of that
  name when the service starts, the creation is refused, the service answers no client and changes
  nothing, and its loop returns the error. The options also refuse remote clients, and either buffer
  holds the largest frame.
\<close>

theorem pipe_name_exclusive:
  assumes "first_instance_rule create" "0 < instances" "sv_status s = Accepting"
  shows "list_all (\<lambda>sent. sent = []) (fst (serve_pipe_from create security V B instances turns s))
    \<and> (\<exists>e. sv_status (snd (serve_pipe_from create security V B instances turns s)) = Returned (Inl (OsError e)))
    \<and> so_reject_remote_clients pipe_options \<and> so_max_instances pipe_options = 1
    \<and> unat (so_in_buffer_size pipe_options) = MAX_FRAME_SIZE \<and> unat (so_out_buffer_size pipe_options) = MAX_FRAME_SIZE"
proof -
  obtain e where e: "sv_status (recreate create security V B instances s) = Returned (Inl (OsError e))"
    using recreate_refused [OF assms] by blast
  have all: "list_all (\<lambda>_. True) turns" by (simp add: list_all_iff)
  show ?thesis
    using pipe_returned.run_stable [OF all e] pipe_returned.run_answers_all [OF all e, where P = "\<lambda>sent. sent = []"]
      pipe_options_buffers
    by (simp add: serve_pipe_from_def) (simp add: pipe_options_def)
qed

definition documented_create :: create_pipe where
  "documented_create options name security instances =
     (if so_first_pipe_instance options \<and> 0 < instances then Inl 5 else Inr ())"

lemma documented_create: "first_instance_rule documented_create"
  by (simp add: first_instance_rule_def documented_create_def)

theorem pipe_name_exclusive_witness:
  "list_all (\<lambda>sent. sent = []) (fst (serve_pipe_from documented_create (pipe_security_of PIPE_SDDL) UnavailableProfileVault
     UnavailableVpnBackend 1 [(Client (Inr 3) 3 (polite_client status_frame), False)] (serve_start () ())))"
  using pipe_name_exclusive [OF documented_create, of 1 "serve_start () ()"] by (simp add: serve_start_def)

text \<open>
  C37. A client that keeps its end of the pipe open after it was served stops the service: the instance
  it holds makes the next creation fail, and the loop returns that error. This holds for every client
  that sends a frame, also for one of another session, whose request is never read.
\<close>

theorem lingering_client_stops_service:
  assumes "first_instance_rule create" "server_ok s" "sv_status s = Accepting" "pc_write_error client = None"
    "encode_request request = Inr frame" "pc_input client = frame"
  shows "(\<exists>e. sv_status (snd (run_all (serve_pipe create security V B) ((Client (Inr session) allowed client, True) # later) s))
        = Returned (Inl (OsError e)))
    \<and> list_all (\<lambda>sent. sent = [])
        (tl (fst (run_all (serve_pipe create security V B) ((Client (Inr session) allowed client, True) # later) s)))
    \<and> (session \<noteq> allowed \<longrightarrow>
        fst (run_all (serve_pipe create security V B) [(Client (Inr session) allowed client, True)] s) = [[]])"
proof -
  obtain opcode body where enc: "encode_frame opcode body = Inr frame"
    using assms(5) by (rule encode_request_parts)
  let ?t = "snd (serve V B (Client (Inr session) allowed client) s)"
  have "sv_status ?t = Accepting" using assms(2-4) enc assms(6) by (rule frame_accepting)
  from recreate_refused [OF assms(1) zero_less_one this, of security V B]
  obtain e where "sv_status (recreate create security V B 1 ?t) = Returned (Inl (OsError e))" by blast
  then have first: "sv_status (snd (serve_pipe create security V B (Client (Inr session) allowed client, True) s))
      = Returned (Inl (OsError e))" by (simp add: serve_pipe_def case_prod_beta)
  have all: "list_all (\<lambda>_. True) later" by (simp add: list_all_iff)
  have foreign: "fst (serve_pipe create security V B (Client (Inr session) allowed client, True) s) = []" if "session \<noteq> allowed"
    using that assms(3)
    by (simp add: serve_pipe_def case_prod_beta serve_def serve_client_def caller_authorization_def is_allowed_def)
  show ?thesis
    using pipe_returned.run_stable [OF all first] pipe_returned.run_answers_all [OF all first, where P = "\<lambda>sent. sent = []"]
      foreign by simp
qed

theorem lingering_client_stops_service_witness:
  "\<exists>e. sv_status (snd (run_all (serve_pipe documented_create (pipe_security_of PIPE_SDDL) UnavailableProfileVault
     UnavailableVpnBackend) [(Client (Inr 2) 3 (polite_client status_frame), True),
       (Client (Inr 3) 3 (polite_client status_frame), False)] (serve_start () ()))) = Returned (Inl (OsError e))"
proof -
  have start: "sv_status (serve_start () ()) = Accepting" by (simp add: serve_start_def)
  have polite: "pc_write_error (polite_client status_frame) = None" "pc_input (polite_client status_frame) = status_frame"
    by (simp_all add: polite_client_def)
  show ?thesis
    by (rule conjunct1 [OF lingering_client_stops_service [OF documented_create server_ok_start start polite(1)
        status_frame(1) polite(2)]])
qed







text \<open>
  C35. Bytes alone cannot stop the service: a client that eventually hangs up and takes its answer
  leaves the loop accepting, whatever it sent (nothing, a torn frame, a wrong header, an unknown
  command), provided its session can be looked up.
\<close>

theorem bytes_cannot_stop_service:
  assumes "server_ok s" "sv_status s = Accepting" "pc_hangs_up client" "pc_write_error client = None"
  shows "sv_status (snd (serve V B (Client (Inr session) allowed client) s)) = Accepting"
proof -
  obtain ctx where ctx: "caller_authorization (Inr session) allowed = Inr ctx"
    by (simp add: caller_authorization_def)
  have wr: "\<exists>sent. write_response client r = Ends (Inr ()) sent" if "sendable r" for r
    using write_response_sendable [OF that, of client] assms(4) by auto
  have wire: "wire_ok (sv_processor s)" using assms(1) by (simp add: server_ok_def)
  have "\<exists>sent p. handle_one V B client ctx (sv_processor s) = (Ends (Inr ()) sent, p)"
    using assms(3) wr [OF safe_error_sendable]
      wr [OF conjunct1 [OF process_frame_sendable [OF wire]]]
    by (simp add: handle_one_def write_safe_error_def read_exact_def case_prod_beta split: sum.splits)
  then obtain sent p where "handle_one V B client ctx (sv_processor s) = (Ends (Inr ()) sent, p)" by blast
  with ctx assms(2) show ?thesis by (simp add: serve_def serve_client_def)
qed

theorem bytes_cannot_stop_service_witness:
  "sv_status (snd (serve UnavailableProfileVault UnavailableVpnBackend
     (Client (Inr 3) 3 (polite_client [1, 2, 3])) (serve_start () ()))) = Accepting"
  by (rule bytes_cannot_stop_service [OF server_ok_start])
    (simp_all add: serve_start_def polite_client_def)

text \<open>
  C36. A client that goes away stops the service: if the pipe is closed before the answer is written, or
  the client's process is gone before its session is looked up, the loop returns an error and no
  later client is served. Errors while reading the request are tolerated, these two are not.
\<close>

theorem vanishing_client_stops_service:
  assumes "server_ok s" "sv_status s = Accepting" "wt_request request" "encode_request request = Inr frame"
    "session \<noteq> 0" "pc_input client = frame" "pc_write_error client = Some e"
  shows "sv_status (snd (run_all (serve V B) (Client (Inr session) session client # later) s))
      = Returned (Inl (OsError e))
    \<and> list_all (\<lambda>sent. sent = []) (fst (run_all (serve V B) (Client (Inr session) session client # later) s))
    \<and> sv_status (snd (run_all (serve V B) (Client (Inl e) session client # later) s))
      = Returned (Inl (OsError e))"
proof -
  obtain ctx where ctx: "caller_authorization (Inr session) session = Inr ctx"
    by (simp add: caller_authorization_def)
  have allowed: "is_allowed ctx" using assms(5) ctx by (auto simp: caller_authorization_def is_allowed_def)
  obtain opcode body where enc: "encode_frame opcode body = Inr frame"
    using assms(4) by (rule encode_request_parts)
  let ?r = "fst (process_frame V B frame ctx (sv_processor s))"
  have "sendable ?r"
    using assms(1) process_frame_sendable [of "sv_processor s" V B frame ctx] by (simp add: server_ok_def)
  from write_response_sendable [OF this, of client] assms(7)
  have w: "write_response client ?r = Ends (Inl (OsError e)) []" by auto
  have "\<exists>p. handle_one V B client ctx (sv_processor s) = (Ends (Inl (OsError e)) [], p)"
    using w by (subst handle_one_frame [OF enc assms(6)]) simp
  then obtain p where "handle_one V B client ctx (sv_processor s) = (Ends (Inl (OsError e)) [], p)" by blast
  then have first: "fst (serve V B (Client (Inr session) session client) s) = []"
    "sv_status (snd (serve V B (Client (Inr session) session client) s)) = Returned (Inl (OsError e))"
    using ctx allowed assms(2) by (simp_all add: serve_def serve_client_def)
  have gone: "sv_status (snd (serve V B (Client (Inl e) session client) s)) = Returned (Inl (OsError e))"
    using assms(2) by (simp add: serve_def serve_client_def caller_authorization_def)
  have all: "list_all (\<lambda>_. True) later" by (simp add: list_all_iff)
  show ?thesis
    using first gone returned.run_stable [OF all] returned.run_answers_all [OF all first(2)]
    by auto
qed

theorem vanishing_client_stops_service_witness:
  "sv_status (snd (run_all (serve UnavailableProfileVault UnavailableVpnBackend)
     [Client (Inr 3) 3 \<lparr>pc_input = status_frame, pc_hangs_up = True, pc_write_error = Some 232\<rparr>,
      Client (Inr 3) 3 (polite_client status_frame)] (serve_start () ()))) = Returned (Inl (OsError 232))"
  using vanishing_client_stops_service
    [of "serve_start () ()" status_request status_frame 3
      "\<lparr>pc_input = status_frame, pc_hangs_up = True, pc_write_error = Some 232\<rparr>" 232
      UnavailableProfileVault UnavailableVpnBackend "[Client (Inr 3) 3 (polite_client status_frame)]"]
    server_ok_start [of "()" "()"] status_frame
  by (simp add: serve_start_def)

text \<open>
  A silent client holds the service: an allowed client that connects, sends less than a header and
  neither hangs up nor goes on keeps the single pipe instance; until the shutdown signal no other
  client is served, because no read has a time limit.
\<close>

theorem silent_client_holds_service:
  assumes "sv_status s = Accepting" "session \<noteq> 0" "length (pc_input client) < HEADER_SIZE"
    "\<not> pc_hangs_up client" "list_all (\<lambda>e. e \<noteq> ShutdownSignal) later"
  shows "list_all (\<lambda>sent. sent = []) (fst (run_all (serve V B) (Client (Inr session) session client # later) s))
    \<and> sv_status (snd (run_all (serve V B) (Client (Inr session) session client # later) s)) = Held"
proof -
  have "serve V B (Client (Inr session) session client) s = ([], s\<lparr>sv_status := Held, sv_processor := sv_processor s\<rparr>)"
    using assms(1-4)
    by (simp add: serve_def serve_client_def caller_authorization_def is_allowed_def handle_one_def
        read_exact_def)
  then have first: "fst (serve V B (Client (Inr session) session client) s) = []"
    "sv_status (snd (serve V B (Client (Inr session) session client) s)) = Held" by simp_all
  show ?thesis
    using first held.run_stable [OF assms(5) first(2)] held.run_answers_all [OF assms(5) first(2)]
    by auto
qed

theorem silent_client_holds_service_witness:
  "sv_status (snd (run_all (serve UnavailableProfileVault UnavailableVpnBackend)
     [Client (Inr 3) 3 \<lparr>pc_input = [75], pc_hangs_up = False, pc_write_error = None\<rparr>,
      Client (Inr 3) 3 (polite_client status_frame)] (serve_start () ()))) = Held"
  using silent_client_holds_service
    [of "serve_start () ()" 3 "\<lparr>pc_input = [75], pc_hangs_up = False, pc_write_error = None\<rparr>"
      "[Client (Inr 3) 3 (polite_client status_frame)]" UnavailableProfileVault UnavailableVpnBackend]
  by (simp add: serve_start_def HEADER_SIZE_def)

end
